(* ===== verification/Prelude.thy ===== *)
theory Prelude
  imports Main "HOL-Library.Word" "HOL-Library.Signed_Division"
begin

text \<open>
  Shared foundations of the development.

  A C function of the daemon is a state transformer with an outcome: it returns a value,
  ends the process (\<open>exit\<close>), replaces the process image (\<open>execl\<close>), runs into undefined
  behaviour that kills the process (a null dereference, a division by zero), or is still in a loop
  that only the kernel can end when the bound on its iterations is used up. The combinators
  below sequence such functions the way C statements are sequenced, and the four predicates
  \<open>returns\<close>, \<open>preserves\<close>, \<open>keeps\<close> and \<open>yields\<close> with their rule collections
  carry the component proofs.
\<close>

named_theorems proc_defs \<open>unfolding of the process combinators\<close>
named_theorems returns_intro \<open>rules: a process always returns to its caller\<close>
named_theorems preserves_intro \<open>rules: a process preserves a state predicate\<close>
named_theorems keeps_intro \<open>rules: a process leaves a component of the state alone\<close>
named_theorems emits_intro \<open>rules: every event a process adds to the trace satisfies a predicate\<close>
named_theorems runs_intro \<open>rules: a process meets its contract under an invariant\<close>
named_theorems yields_intro \<open>rules: every value a process returns satisfies a predicate\<close>

section \<open>Processes\<close>

datatype 'a outcome =
    Ret 'a                              \<comment> \<open>control returns to the caller\<close>
  | Exit int                            \<comment> \<open>the process called \<open>exit\<close> or \<open>_exit\<close>\<close>
  | Exec string "string list"           \<comment> \<open>\<open>execl\<close> replaced the process image\<close>
  | Fault                               \<comment> \<open>undefined behaviour that kills the process\<close>
  | Unfinished                          \<comment> \<open>a loop that only the kernel can end is still running\<close>

type_synonym ('s, 'a) proc = "'s \<Rightarrow> 'a outcome \<times> 's"

definition ret :: "'a \<Rightarrow> ('s, 'a) proc" where
  "ret x = (\<lambda>s. (Ret x, s))"

definition bind :: "('s, 'a) proc \<Rightarrow> ('a \<Rightarrow> ('s, 'b) proc) \<Rightarrow> ('s, 'b) proc" where
  "bind m f = (\<lambda>s. case m s of
     (Ret x, s') \<Rightarrow> f x s'
   | (Exit c, s') \<Rightarrow> (Exit c, s')
   | (Exec p args, s') \<Rightarrow> (Exec p args, s')
   | (Fault, s') \<Rightarrow> (Fault, s')
   | (Unfinished, s') \<Rightarrow> (Unfinished, s'))"

definition andthen :: "('s, 'a) proc \<Rightarrow> ('s, 'b) proc \<Rightarrow> ('s, 'b) proc" where
  "andthen m n = bind m (\<lambda>_. n)"

definition gets :: "('s \<Rightarrow> 'a) \<Rightarrow> ('s, 'a) proc" where
  "gets f = (\<lambda>s. (Ret (f s), s))"

definition modify :: "('s \<Rightarrow> 's) \<Rightarrow> ('s, unit) proc" where
  "modify f = (\<lambda>s. (Ret (), f s))"

definition stop :: "int \<Rightarrow> ('s, 'a) proc" where
  "stop c = (\<lambda>s. (Exit c, s))"

definition exec_image :: "string \<Rightarrow> string list \<Rightarrow> ('s, 'a) proc" where
  "exec_image p args = (\<lambda>s. (Exec p args, s))"

definition fault :: "('s, 'a) proc" where
  "fault = (\<lambda>s. (Fault, s))"

definition unfinished :: "('s, 'a) proc" where
  "unfinished = (\<lambda>s. (Unfinished, s))"

definition whenp :: "bool \<Rightarrow> ('s, unit) proc \<Rightarrow> ('s, unit) proc" where
  "whenp b m = (if b then m else ret ())"

text \<open>Statements in a row, and a C \<open>for\<close> loop over the elements of a linked list whose
  body may update the element it visits.\<close>

fun run_all :: "('s, unit) proc list \<Rightarrow> ('s, unit) proc" where
  "run_all [] = ret ()"
| "run_all (m # ms) = andthen m (run_all ms)"

fun for_each :: "('e \<Rightarrow> ('s, 'e) proc) \<Rightarrow> 'e list \<Rightarrow> ('s, 'e list) proc" where
  "for_each f [] = ret []"
| "for_each f (x # xs) =
     bind (f x) (\<lambda>x'. bind (for_each f xs) (\<lambda>xs'. ret (x' # xs')))"

text \<open>A loop whose body is executed a fixed number of times.\<close>

fun repeat :: "nat \<Rightarrow> ('s, unit) proc \<Rightarrow> ('s, unit) proc" where
  "repeat 0 m = ret ()"
| "repeat (Suc n) m = andthen m (repeat n m)"

lemmas [proc_defs] = ret_def bind_def andthen_def gets_def modify_def stop_def exec_image_def
  fault_def unfinished_def whenp_def

lemma bind_ret [simp]: "bind (ret x) f = f x"
  by (simp add: proc_defs)

lemma bind_ret_right [simp]: "bind m ret = m"
  by (rule ext) (simp add: proc_defs split: prod.split outcome.split)

lemma bind_assoc: "bind (bind m f) g = bind m (\<lambda>x. bind (f x) g)"
  by (rule ext) (simp add: proc_defs split: prod.split outcome.split)

lemma bind_andthen: "bind (andthen m n) f = andthen m (bind n f)"
  by (simp add: andthen_def bind_assoc)

lemma andthen_assoc: "andthen (andthen m n) k = andthen m (andthen n k)"
  by (simp add: andthen_def bind_assoc)

lemma andthen_bind: "andthen (bind m f) k = bind m (\<lambda>x. andthen (f x) k)"
  by (simp add: andthen_def bind_assoc)

lemma bind_if: "bind (if b then m else n) f = (if b then bind m f else bind n f)"
  by simp

lemma andthen_if: "andthen (if b then m else n) k = (if b then andthen m k else andthen n k)"
  by simp

text \<open>Right-nesting of sequences, the normal form for symbolic execution.\<close>

lemmas proc_assoc = bind_assoc bind_andthen andthen_assoc andthen_bind bind_if andthen_if

lemma ret_apply [simp]: "ret x s = (Ret x, s)"
  by (simp add: proc_defs)

lemma gets_apply [simp]: "gets f s = (Ret (f s), s)"
  by (simp add: proc_defs)

lemma modify_apply [simp]: "modify f s = (Ret (), f s)"
  by (simp add: proc_defs)

lemma stop_apply [simp]: "stop c s = (Exit c, s)"
  by (simp add: proc_defs)

lemma exec_image_apply [simp]: "exec_image p args s = (Exec p args, s)"
  by (simp add: proc_defs)

lemma fault_apply [simp]: "fault s = (Fault, s)"
  by (simp add: proc_defs)

lemma unfinished_apply [simp]: "unfinished s = (Unfinished, s)"
  by (simp add: proc_defs)

lemma bind_apply_Ret: "m s = (Ret x, s') \<Longrightarrow> bind m f s = f x s'"
  by (simp add: proc_defs)

lemma bind_gets [simp]: "bind (gets f) g s = g (f s) s"
  by (simp add: proc_defs)

lemma bind_bind_gets [simp]: "bind (bind (gets f) g) h s = bind (g (f s)) h s"
  by (simp add: proc_defs)

lemma bind_modify [simp]: "bind (modify f) g s = g () (f s)"
  by (simp add: proc_defs)

lemma bind_stop [simp]: "bind (stop c) f = stop c"
  by (rule ext) (simp add: proc_defs)

lemma bind_fault [simp]: "bind fault f = fault"
  by (rule ext) (simp add: proc_defs)

lemma andthen_modify [simp]: "andthen (modify f) m s = m (f s)"
  by (simp add: proc_defs)

lemma andthen_ret [simp]: "andthen (ret x) m = m"
  by (rule ext) (simp add: proc_defs)

lemma andthen_apply_Ret: "m s = (Ret x, s') \<Longrightarrow> andthen m n s = n s'"
  by (simp add: proc_defs)

lemma repeat_step: "m s = (Ret (), s1) \<Longrightarrow> repeat n m s1 = r \<Longrightarrow> repeat (Suc n) m s = r"
  by (simp add: proc_defs)

lemma run_bind: "m s = (Ret x, s1) \<Longrightarrow> f x s1 = r \<Longrightarrow> bind m f s = r"
  by (simp add: proc_defs)

lemma run_andthen: "m s = (Ret x, s1) \<Longrightarrow> n s1 = r \<Longrightarrow> andthen m n s = r"
  by (simp add: proc_defs)

lemma whenp_simps [simp]: "whenp True m = m" "whenp False m = ret ()"
  by (simp_all add: proc_defs)

text \<open>How a sequence can end: the elimination rule for a finished \<^const>\<open>bind\<close>.\<close>

lemma bind_RetE:
  assumes "bind m f s = (Ret y, s'')"
  obtains x s' where "m s = (Ret x, s')" and "f x s' = (Ret y, s'')"
  using assms by (auto simp: proc_defs split: prod.splits outcome.splits)

lemma snd_bind:
  "snd (bind m f s) = (case m s of (Ret x, s') \<Rightarrow> snd (f x s') | (_, s') \<Rightarrow> s')"
  by (simp add: proc_defs split: prod.split outcome.split)

section \<open>Always returning to the caller\<close>

definition returns :: "('s, 'a) proc \<Rightarrow> bool" where
  "returns m \<longleftrightarrow> (\<forall>s. \<exists>x s'. m s = (Ret x, s'))"

lemma returnsE:
  assumes "returns m" obtains x s' where "m s = (Ret x, s')"
  using assms unfolding returns_def by blast

lemma returns_unitE:
  fixes m :: "('s, unit) proc"
  assumes "returns m" obtains s' where "m s = (Ret (), s')"
  using assms unfolding returns_def by auto

lemma returns_ret [returns_intro, simp]: "returns (ret x)"
  by (simp add: returns_def)

lemma returns_gets [returns_intro, simp]: "returns (gets f)"
  by (simp add: returns_def)

lemma returns_modify [returns_intro, simp]: "returns (modify f)"
  by (simp add: returns_def)

lemma returns_bind [returns_intro]:
  assumes "returns m" and "\<And>x. returns (f x)"
  shows "returns (bind m f)"
  unfolding returns_def
proof
  fix s
  obtain x s' where "m s = (Ret x, s')" using assms(1) by (rule returnsE)
  moreover obtain y s'' where "f x s' = (Ret y, s'')" using assms(2) by (rule returnsE)
  ultimately show "\<exists>y s''. bind m f s = (Ret y, s'')" by (simp add: bind_apply_Ret)
qed

lemma returns_andthen [returns_intro]: "returns m \<Longrightarrow> returns n \<Longrightarrow> returns (andthen m n)"
  by (simp add: andthen_def returns_bind)

lemma returns_if [returns_intro]:
  "(b \<Longrightarrow> returns m) \<Longrightarrow> (\<not> b \<Longrightarrow> returns n) \<Longrightarrow> returns (if b then m else n)"
  by simp

lemma returns_whenp [returns_intro]: "(b \<Longrightarrow> returns m) \<Longrightarrow> returns (whenp b m)"
  by (simp add: whenp_def)

lemma returns_case_option [returns_intro]:
  "returns n \<Longrightarrow> (\<And>x. returns (f x)) \<Longrightarrow> returns (case v of None \<Rightarrow> n | Some x \<Rightarrow> f x)"
  by (cases v) simp_all

lemma returns_case_list [returns_intro]:
  "returns n \<Longrightarrow> (\<And>x xs. returns (f x xs)) \<Longrightarrow> returns (case v of [] \<Rightarrow> n | x # xs \<Rightarrow> f x xs)"
  by (cases v) simp_all

lemma returns_case_prod [returns_intro]:
  "(\<And>x y. returns (f x y)) \<Longrightarrow> returns (case p of (x, y) \<Rightarrow> f x y)"
  by (cases p) simp

lemma returns_let [returns_intro]: "returns (f x) \<Longrightarrow> returns (let y = x in f y)"
  by (simp add: Let_def)

lemma returns_run_all [returns_intro]: "list_all returns ms \<Longrightarrow> returns (run_all ms)"
  by (induction ms) (simp_all add: returns_andthen)

lemma returns_for_each [returns_intro]: "(\<And>x. returns (f x)) \<Longrightarrow> returns (for_each f xs)"
  by (induction xs) (simp_all add: returns_bind)

lemma returns_repeat [returns_intro]: "returns m \<Longrightarrow> returns (repeat n m)"
  by (induction n) (simp_all add: returns_andthen)

section \<open>Invariants of the state\<close>

definition preserves :: "('s \<Rightarrow> bool) \<Rightarrow> ('s, 'a) proc \<Rightarrow> bool" where
  "preserves I m \<longleftrightarrow> (\<forall>s. I s \<longrightarrow> I (snd (m s)))"

lemma preservesD: "preserves I m \<Longrightarrow> I s \<Longrightarrow> m s = (r, s') \<Longrightarrow> I s'"
  unfolding preserves_def by (metis snd_conv)

lemma preservesI: "(\<And>s r s'. I s \<Longrightarrow> m s = (r, s') \<Longrightarrow> I s') \<Longrightarrow> preserves I m"
  unfolding preserves_def by (metis prod.collapse)

lemma preserves_ret [preserves_intro]: "preserves I (ret x)"
  by (simp add: preserves_def)

lemma preserves_gets [preserves_intro]: "preserves I (gets f)"
  by (simp add: preserves_def)

lemma preserves_stop [preserves_intro]: "preserves I (stop c)"
  by (simp add: preserves_def)

lemma preserves_exec_image [preserves_intro]: "preserves I (exec_image p args)"
  by (simp add: preserves_def)

lemma preserves_fault [preserves_intro]: "preserves I fault"
  by (simp add: preserves_def)

lemma preserves_unfinished [preserves_intro]: "preserves I unfinished"
  by (simp add: preserves_def)

lemma preserves_modify [preserves_intro]: "(\<And>s. I s \<Longrightarrow> I (f s)) \<Longrightarrow> preserves I (modify f)"
  by (simp add: preserves_def)

lemma preserves_bind [preserves_intro]:
  assumes "preserves I m" and "\<And>x. preserves I (f x)"
  shows "preserves I (bind m f)"
proof (rule preservesI)
  fix s r s''
  assume I: "I s" and eq: "bind m f s = (r, s'')"
  obtain r' s' where m: "m s = (r', s')" by fastforce
  with assms(1) I have I': "I s'" by (blast dest: preservesD)
  show "I s''"
  proof (cases r')
    case (Ret x)
    with eq m have "f x s' = (r, s'')" by (simp add: bind_apply_Ret)
    with assms(2) I' show ?thesis by (blast dest: preservesD)
  qed (use eq m I' in \<open>auto simp: proc_defs\<close>)
qed

lemma preserves_andthen [preserves_intro]:
  "preserves I m \<Longrightarrow> preserves I n \<Longrightarrow> preserves I (andthen m n)"
  by (simp add: andthen_def preserves_bind)

lemma preserves_if [preserves_intro]:
  "(b \<Longrightarrow> preserves I m) \<Longrightarrow> (\<not> b \<Longrightarrow> preserves I n) \<Longrightarrow> preserves I (if b then m else n)"
  by simp

lemma preserves_whenp [preserves_intro]: "(b \<Longrightarrow> preserves I m) \<Longrightarrow> preserves I (whenp b m)"
  by (simp add: whenp_def preserves_ret)

lemma preserves_case_option [preserves_intro]:
  "preserves I n \<Longrightarrow> (\<And>x. preserves I (f x)) \<Longrightarrow>
     preserves I (case v of None \<Rightarrow> n | Some x \<Rightarrow> f x)"
  by (cases v) simp_all

lemma preserves_case_list [preserves_intro]:
  "preserves I n \<Longrightarrow> (\<And>x xs. preserves I (f x xs)) \<Longrightarrow> preserves I (case v of [] \<Rightarrow> n | x # xs \<Rightarrow> f x xs)"
  by (cases v) simp_all

lemma preserves_case_prod [preserves_intro]:
  "(\<And>x y. preserves I (f x y)) \<Longrightarrow> preserves I (case p of (x, y) \<Rightarrow> f x y)"
  by (cases p) simp

lemma preserves_let [preserves_intro]: "preserves I (f x) \<Longrightarrow> preserves I (let y = x in f y)"
  by (simp add: Let_def)

lemma preserves_run_all [preserves_intro]:
  "list_all (preserves I) ms \<Longrightarrow> preserves I (run_all ms)"
  by (induction ms) (simp_all add: preserves_ret preserves_andthen)

lemma preserves_for_each [preserves_intro]:
  "(\<And>x. preserves I (f x)) \<Longrightarrow> preserves I (for_each f xs)"
  by (induction xs) (simp_all add: preserves_bind preserves_ret)

lemma preserves_repeat [preserves_intro]: "preserves I m \<Longrightarrow> preserves I (repeat n m)"
  by (induction n) (simp_all add: preserves_andthen preserves_ret)

text \<open>A process that leaves a component of the state alone.\<close>

definition keeps :: "('s \<Rightarrow> 'b) \<Rightarrow> ('s, 'a) proc \<Rightarrow> bool" where
  "keeps g m \<longleftrightarrow> (\<forall>s. g (snd (m s)) = g s)"

lemma keepsD: "keeps g m \<Longrightarrow> m s = (r, s') \<Longrightarrow> g s' = g s"
  unfolding keeps_def by (metis snd_conv)

lemma keeps_iff: "keeps g m \<longleftrightarrow> (\<forall>v. preserves (\<lambda>s. g s = v) m)"
  unfolding keeps_def preserves_def by auto

lemma keeps_preserves: "keeps g m \<Longrightarrow> preserves (\<lambda>s. P (g s)) m"
  unfolding keeps_def preserves_def by simp

lemma keeps_ret [keeps_intro]: "keeps g (ret x)"
  and keeps_gets [keeps_intro]: "keeps g (gets f)"
  and keeps_stop [keeps_intro]: "keeps g (stop c)"
  and keeps_exec_image [keeps_intro]: "keeps g (exec_image p args)"
  and keeps_fault [keeps_intro]: "keeps g fault"
  and keeps_unfinished [keeps_intro]: "keeps g unfinished"
  by (simp_all add: keeps_def)

lemma keeps_modify [keeps_intro]: "(\<And>s. g (f s) = g s) \<Longrightarrow> keeps g (modify f)"
  by (simp add: keeps_def)

lemma keeps_bind [keeps_intro]: "keeps g m \<Longrightarrow> (\<And>x. keeps g (f x)) \<Longrightarrow> keeps g (bind m f)"
  unfolding keeps_iff by (simp add: preserves_bind)

lemma keeps_andthen [keeps_intro]: "keeps g m \<Longrightarrow> keeps g n \<Longrightarrow> keeps g (andthen m n)"
  by (simp add: andthen_def keeps_bind)

lemma keeps_if [keeps_intro]:
  "(b \<Longrightarrow> keeps g m) \<Longrightarrow> (\<not> b \<Longrightarrow> keeps g n) \<Longrightarrow> keeps g (if b then m else n)"
  by simp

lemma keeps_whenp [keeps_intro]: "(b \<Longrightarrow> keeps g m) \<Longrightarrow> keeps g (whenp b m)"
  by (simp add: whenp_def keeps_ret)

lemma keeps_case_option [keeps_intro]:
  "keeps g n \<Longrightarrow> (\<And>x. keeps g (f x)) \<Longrightarrow> keeps g (case v of None \<Rightarrow> n | Some x \<Rightarrow> f x)"
  by (cases v) simp_all

lemma keeps_case_list [keeps_intro]:
  "keeps g n \<Longrightarrow> (\<And>x xs. keeps g (f x xs)) \<Longrightarrow> keeps g (case v of [] \<Rightarrow> n | x # xs \<Rightarrow> f x xs)"
  by (cases v) simp_all

lemma keeps_case_prod [keeps_intro]:
  "(\<And>x y. keeps g (f x y)) \<Longrightarrow> keeps g (case p of (x, y) \<Rightarrow> f x y)"
  by (cases p) simp

lemma keeps_let [keeps_intro]: "keeps g (f x) \<Longrightarrow> keeps g (let y = x in f y)"
  by (simp add: Let_def)

lemma keeps_run_all [keeps_intro]: "list_all (keeps g) ms \<Longrightarrow> keeps g (run_all ms)"
  by (induction ms) (simp_all add: keeps_ret keeps_andthen)

lemma keeps_for_each [keeps_intro]: "(\<And>x. keeps g (f x)) \<Longrightarrow> keeps g (for_each f xs)"
  by (induction xs) (simp_all add: keeps_bind keeps_ret)

lemma keeps_repeat [keeps_intro]: "keeps g m \<Longrightarrow> keeps g (repeat n m)"
  by (induction n) (simp_all add: keeps_andthen keeps_ret)

section \<open>Progress along a preorder\<close>

text \<open>A process moves the state along a relation: whatever it does, the state after it is
  related to the state before. For a preorder the statement composes, which the locale records
  once for all the orders the components use.\<close>

definition moves :: "('s \<Rightarrow> 's \<Rightarrow> bool) \<Rightarrow> ('s, 'a) proc \<Rightarrow> bool" where
  "moves R m \<longleftrightarrow> (\<forall>s. R s (snd (m s)))"

lemma movesD: "moves R m \<Longrightarrow> m s = (r, s') \<Longrightarrow> R s s'"
  unfolding moves_def by (metis snd_conv)

lemma movesI: "(\<And>s r s'. m s = (r, s') \<Longrightarrow> R s s') \<Longrightarrow> moves R m"
  unfolding moves_def by (metis prod.collapse)

locale state_preorder =
  fixes R :: "'s \<Rightarrow> 's \<Rightarrow> bool"
  assumes refl: "R s s"
    and trans: "R s t \<Longrightarrow> R t u \<Longrightarrow> R s u"
begin

lemma ret: "moves R (ret x)"
  and gets: "moves R (gets f)"
  and stop: "moves R (stop c)"
  and fault: "moves R fault"
  and unfinished: "moves R unfinished"
  by (simp_all add: moves_def refl)

lemma modify: "(\<And>s. R s (f s)) \<Longrightarrow> moves R (modify f)"
  by (simp add: moves_def)

lemma bind:
  assumes "moves R m" and "\<And>x. moves R (f x)"
  shows "moves R (bind m f)"
proof (rule movesI)
  fix s r s''
  assume eq: "Prelude.bind m f s = (r, s'')"
  obtain r' s' where m: "m s = (r', s')" by fastforce
  with assms(1) have 1: "R s s'" by (rule movesD)
  show "R s s''"
  proof (cases r')
    case (Ret x)
    with eq m have "f x s' = (r, s'')" by (simp add: bind_apply_Ret)
    with assms(2) have "R s' s''" by (rule movesD)
    with 1 show ?thesis by (rule trans)
  qed (use eq m 1 in \<open>auto simp: proc_defs\<close>)
qed

lemma andthen: "moves R m \<Longrightarrow> moves R n \<Longrightarrow> moves R (andthen m n)"
  by (simp add: andthen_def bind)

lemma if_then_else: "(b \<Longrightarrow> moves R m) \<Longrightarrow> (\<not> b \<Longrightarrow> moves R n) \<Longrightarrow> moves R (if b then m else n)"
  by simp

lemma whenp: "(b \<Longrightarrow> moves R m) \<Longrightarrow> moves R (whenp b m)"
  by (simp add: whenp_def ret)

lemma let_in: "moves R (f x) \<Longrightarrow> moves R (let y = x in f y)"
  by (simp add: Let_def)

lemma option_case:
  "moves R n \<Longrightarrow> (\<And>x. moves R (f x)) \<Longrightarrow> moves R (case v of None \<Rightarrow> n | Some x \<Rightarrow> f x)"
  by (cases v) simp_all

lemma run_all: "(\<And>m. m \<in> set ms \<Longrightarrow> moves R m) \<Longrightarrow> moves R (run_all ms)"
  by (induction ms) (simp_all add: ret andthen)

lemma for_each: "(\<And>x. x \<in> set xs \<Longrightarrow> moves R (f x)) \<Longrightarrow> moves R (for_each f xs)"
  by (induction xs) (simp_all add: ret bind)

lemmas rules = ret gets stop fault unfinished bind andthen if_then_else whenp let_in option_case

end

text \<open>Leaving a component alone, and every preorder on one.\<close>

lemma keeps_moves:
  assumes "keeps g m" and "\<And>x. Q x x"
  shows "moves (\<lambda>s s'. Q (g s) (g s')) m"
  using assms unfolding keeps_def moves_def by simp

section \<open>What a process can return\<close>

definition yields :: "('a \<Rightarrow> bool) \<Rightarrow> ('s, 'a) proc \<Rightarrow> bool" where
  "yields P m \<longleftrightarrow> (\<forall>s x s'. m s = (Ret x, s') \<longrightarrow> P x)"

lemma yieldsD: "yields P m \<Longrightarrow> m s = (Ret x, s') \<Longrightarrow> P x"
  unfolding yields_def by blast

lemma yields_ret [yields_intro]: "P x \<Longrightarrow> yields P (ret x)"
  by (simp add: yields_def)

lemma yields_stop [yields_intro]: "yields P (stop c)"
  and yields_fault [yields_intro]: "yields P fault"
  and yields_unfinished [yields_intro]: "yields P unfinished"
  by (simp_all add: yields_def)

lemma yields_bind [yields_intro]: "(\<And>x. yields P (f x)) \<Longrightarrow> yields P (bind m f)"
  unfolding yields_def by (blast elim: bind_RetE)

lemma yields_bind_strong: "yields Q m \<Longrightarrow> (\<And>x. Q x \<Longrightarrow> yields P (f x)) \<Longrightarrow> yields P (bind m f)"
  unfolding yields_def by (blast elim: bind_RetE)

lemma yields_andthen [yields_intro]: "yields P n \<Longrightarrow> yields P (andthen m n)"
  by (simp add: andthen_def yields_bind)

lemma yields_if [yields_intro]:
  "(b \<Longrightarrow> yields P m) \<Longrightarrow> (\<not> b \<Longrightarrow> yields P n) \<Longrightarrow> yields P (if b then m else n)"
  by simp

lemma yields_let [yields_intro]: "yields P (f x) \<Longrightarrow> yields P (let y = x in f y)"
  by (simp add: Let_def)

lemma yields_case_option [yields_intro]:
  "yields P n \<Longrightarrow> (\<And>x. yields P (f x)) \<Longrightarrow> yields P (case v of None \<Rightarrow> n | Some x \<Rightarrow> f x)"
  by (cases v) simp_all

lemma yields_case_list [yields_intro]:
  "yields P n \<Longrightarrow> (\<And>x xs. yields P (f x xs)) \<Longrightarrow> yields P (case v of [] \<Rightarrow> n | x # xs \<Rightarrow> f x xs)"
  by (cases v) simp_all

lemma yields_case_prod [yields_intro]:
  "(\<And>x y. yields P (f x y)) \<Longrightarrow> yields P (case p of (x, y) \<Rightarrow> f x y)"
  by (cases p) simp

end
