(* ===== verification/CLib.thy ===== *)
theory CLib
  imports Prelude
begin

text \<open>
  The part of C and of its standard library the sources use: two's-complement \<open>int\<close> and
  \<open>unsigned\<close> arithmetic, nul-terminated strings, \<open>strchr\<close>, \<open>strstr\<close>,
  \<open>strcasecmp\<close>, \<open>strtok\<close>, \<open>atoi\<close>, \<open>strtoul\<close> and decimal output.

  A C \<open>int\<close> is an \<^typ>\<open>int\<close> in the range of 32 bits. Where the source's arithmetic
  can leave that range the model writes the wrap-around out with \<open>int32\<close> (signed overflow
  is undefined in C; gcc on the supported targets wraps). \<open>unsigned\<close> arithmetic is reduced
  with \<open>uint32\<close> or \<open>uint64\<close>. A C string is the characters before its nul.
\<close>

section \<open>Machine integers\<close>

definition int32 :: "int \<Rightarrow> int" where
  "int32 x = (x + 2147483648) mod 4294967296 - 2147483648"

definition uint32 :: "int \<Rightarrow> int" where
  "uint32 x = x mod 4294967296"

definition uint64 :: "int \<Rightarrow> int" where
  "uint64 x = x mod 18446744073709551616"

definition INT_MAX :: int where
  "INT_MAX = 2147483647"

definition INT_MIN :: int where
  "INT_MIN = - 2147483648"

definition LONG_MAX :: int where
  "LONG_MAX = 9223372036854775807"

definition LONG_MIN :: int where
  "LONG_MIN = - 9223372036854775808"

definition ULONG_MAX :: int where
  "ULONG_MAX = 18446744073709551615"

lemmas int_limits = INT_MAX_def INT_MIN_def LONG_MAX_def LONG_MIN_def ULONG_MAX_def

lemma int32_id [simp]: "INT_MIN \<le> x \<Longrightarrow> x \<le> INT_MAX \<Longrightarrow> int32 x = x"
  by (simp add: int32_def int_limits)

lemma int32_range [simp]: "INT_MIN \<le> int32 x" "int32 x \<le> INT_MAX"
  by (simp_all add: int32_def int_limits)

lemma int32_is_signed_take_bit: "int32 x = signed_take_bit 31 x"
  by (simp add: int32_def signed_take_bit_eq_take_bit_shift take_bit_eq_mod)

lemma uint32_id [simp]: "0 \<le> x \<Longrightarrow> x \<le> 4294967295 \<Longrightarrow> uint32 x = x"
  by (simp add: uint32_def)

lemma uint32_range [simp]: "0 \<le> uint32 x" "uint32 x \<le> 4294967295"
  by (simp_all add: uint32_def)

lemma uint64_range [simp]: "0 \<le> uint64 x" "uint64 x \<le> ULONG_MAX"
  by (simp_all add: uint64_def int_limits)

section \<open>Strings\<close>

abbreviation NUL :: char where
  "NUL \<equiv> CHR 0x00"

definition cstr :: "string \<Rightarrow> string" where
  "cstr buf = takeWhile (\<lambda>c. c \<noteq> NUL) buf"

lemma cstr_no_nul [simp]: "NUL \<notin> set (cstr buf)"
  by (auto simp: cstr_def dest: set_takeWhileD)

lemma cstr_id [simp]: "NUL \<notin> set s \<Longrightarrow> cstr s = s"
  by (auto simp: cstr_def takeWhile_eq_all_conv)

lemma cstr_idem [simp]: "cstr (cstr s) = cstr s"
  by simp

lemma length_cstr: "length (cstr s) \<le> length s"
  by (simp add: cstr_def length_takeWhile_le)

fun strchr :: "string \<Rightarrow> char \<Rightarrow> string option" where
  "strchr [] c = None"
| "strchr (x # xs) c = (if x = c then Some (x # xs) else strchr xs c)"

lemma strchr_None_iff: "strchr s c = None \<longleftrightarrow> c \<notin> set s"
  by (induction s) auto

lemma strchr_Some: "strchr s c = Some t \<Longrightarrow> \<exists>pre. s = pre @ t \<and> c \<notin> set pre \<and> hd t = c \<and> t \<noteq> []"
proof (induction s)
  case (Cons x xs)
  show ?case
  proof (cases "x = c")
    case False
    with Cons obtain pre where "xs = pre @ t \<and> c \<notin> set pre \<and> hd t = c \<and> t \<noteq> []" by auto
    with False show ?thesis by (intro exI [of _ "x # pre"]) auto
  qed (use Cons in auto)
qed simp

lemma strchr_append: "c \<notin> set pre \<Longrightarrow> strchr (pre @ c # t) c = Some (c # t)"
  by (induction pre) auto

fun is_prefix :: "string \<Rightarrow> string \<Rightarrow> bool" where
  "is_prefix [] ys = True"
| "is_prefix (x # xs) [] = False"
| "is_prefix (x # xs) (y # ys) = (x = y \<and> is_prefix xs ys)"

lemma is_prefix_iff: "is_prefix xs ys \<longleftrightarrow> (\<exists>zs. ys = xs @ zs)"
  by (induction xs ys rule: is_prefix.induct) auto

fun strstr :: "string \<Rightarrow> string \<Rightarrow> string option" where
  "strstr [] n = (if n = [] then Some [] else None)"
| "strstr (x # xs) n = (if is_prefix n (x # xs) then Some (x # xs) else strstr xs n)"

lemma strstr_Some: "strstr h n = Some t \<Longrightarrow> \<exists>pre post. h = pre @ n @ post \<and> t = n @ post"
proof (induction h)
  case (Cons x xs)
  show ?case
  proof (cases "is_prefix n (x # xs)")
    case True
    then obtain zs where "x # xs = n @ zs" by (auto simp: is_prefix_iff)
    moreover from True Cons.prems have "t = x # xs" by simp
    ultimately have "x # xs = [] @ n @ zs \<and> t = n @ zs" by simp
    then show ?thesis by blast
  next
    case False
    with Cons obtain pre post where "xs = pre @ n @ post \<and> t = n @ post" by auto
    then have "x # xs = (x # pre) @ n @ post \<and> t = n @ post" by simp
    then show ?thesis by blast
  qed
qed (auto split: if_splits)

definition toascii_lower :: "char \<Rightarrow> char" where
  "toascii_lower c =
     (let n = of_char c :: nat in if 65 \<le> n \<and> n \<le> 90 then char_of (n + 32) else c)"

definition strcaseeq :: "string \<Rightarrow> string \<Rightarrow> bool" where
  "strcaseeq s t \<longleftrightarrow> map toascii_lower s = map toascii_lower t"

text \<open>\<open>strtok\<close> over a set of separators: the non-empty pieces, in order.\<close>

function strtok_all :: "char \<Rightarrow> string \<Rightarrow> string list" where
  "strtok_all sep s =
     (let s' = dropWhile (\<lambda>c. c = sep) s in
      if s' = [] then []
      else takeWhile (\<lambda>c. c \<noteq> sep) s' # strtok_all sep (dropWhile (\<lambda>c. c \<noteq> sep) s'))"
  by pat_completeness auto
termination
proof (relation "measure (\<lambda>(sep, s). length s)", goal_cases)
  case (2 sep s s')
  then have "hd s' \<noteq> sep" using hd_dropWhile [of "\<lambda>c. c = sep" s] by simp
  with 2(2) have "length (dropWhile (\<lambda>c. c \<noteq> sep) s') < length s'"
    by (cases s') (simp_all add: le_imp_less_Suc length_dropWhile_le)
  moreover have "length s' \<le> length s" using 2 by (simp add: length_dropWhile_le)
  ultimately show ?case by simp
qed simp

section \<open>Numbers in text\<close>

definition isdigit :: "char \<Rightarrow> bool" where
  "isdigit c \<longleftrightarrow> 48 \<le> (of_char c :: nat) \<and> (of_char c :: nat) \<le> 57"

definition isspace :: "char \<Rightarrow> bool" where
  "isspace c \<longleftrightarrow> (of_char c :: nat) = 32 \<or> 9 \<le> (of_char c :: nat) \<and> (of_char c :: nat) \<le> 13"

definition digit_val :: "char \<Rightarrow> int" where
  "digit_val c = of_char c - 48"

definition digit_char :: "nat \<Rightarrow> char" where
  "digit_char d = char_of (d + 48)"

definition digits_val :: "string \<Rightarrow> int" where
  "digits_val ds = foldl (\<lambda>n c. 10 * n + digit_val c) 0 ds"

text \<open>The value a leading decimal number denotes: white space, an optional sign, digits.\<close>

definition decimal_value :: "string \<Rightarrow> int" where
  "decimal_value s =
     (let s1 = dropWhile isspace s in
      case s1 of
        [] \<Rightarrow> 0
      | c # cs \<Rightarrow>
          if c = CHR ''-'' then - digits_val (takeWhile isdigit cs)
          else if c = CHR ''+'' then digits_val (takeWhile isdigit cs)
          else digits_val (takeWhile isdigit s1))"

text \<open>\<open>strtol\<close> saturates at the limits of \<open>long\<close>; \<open>atoi\<close> is its result cast to
  \<open>int\<close>, as glibc computes it; \<open>strtoul\<close> saturates unsigned and negates modulo
  \<open>2\<^sup>6\<^sup>4\<close>.\<close>

definition strtol :: "string \<Rightarrow> int" where
  "strtol s = max LONG_MIN (min LONG_MAX (decimal_value s))"

definition atoi :: "string \<Rightarrow> int" where
  "atoi s = int32 (strtol s)"

definition atol :: "string \<Rightarrow> int" where
  "atol s = strtol s"

definition strtoul :: "string \<Rightarrow> int" where
  "strtoul s =
     (let v = decimal_value s in if \<bar>v\<bar> > ULONG_MAX then ULONG_MAX else uint64 v)"

fun show_nat :: "nat \<Rightarrow> string" where
  "show_nat n = (if n < 10 then [digit_char n] else show_nat (n div 10) @ [digit_char (n mod 10)])"

declare show_nat.simps [simp del]

definition show_int :: "int \<Rightarrow> string" where
  "show_int i = (if i < 0 then CHR ''-'' # show_nat (nat (- i)) else show_nat (nat i))"

lemma of_char_digit_char [simp]: "d < 10 \<Longrightarrow> (of_char (digit_char d) :: nat) = d + 48"
  by (simp add: digit_char_def)

lemma isdigit_digit_char [simp]: "d < 10 \<Longrightarrow> isdigit (digit_char d)"
  by (simp add: isdigit_def)

lemma digit_val_digit_char [simp]: "d < 10 \<Longrightarrow> digit_val (digit_char d) = int d"
proof -
  assume "d < 10"
  then have "(of_char (digit_char d) :: nat) = d + 48" by simp
  then have "(of_char (digit_char d) :: int) = int (d + 48)"
    by (metis of_nat_of_char)
  then show ?thesis by (simp add: digit_val_def)
qed

lemma show_nat_digits: "list_all isdigit (show_nat n)"
proof (induction n rule: show_nat.induct)
  case (1 n)
  then show ?case by (subst show_nat.simps) simp
qed

lemma show_nat_nonempty [simp]: "show_nat n \<noteq> []"
  by (subst show_nat.simps) simp

lemma digits_val_snoc: "digits_val (ds @ [c]) = 10 * digits_val ds + digit_val c"
  by (simp add: digits_val_def)

lemma digits_val_show_nat [simp]: "digits_val (show_nat n) = int n"
proof (induction n rule: show_nat.induct)
  case (1 n)
  show ?case
  proof (cases "n < 10")
    case True
    then show ?thesis by (subst show_nat.simps) (simp add: digits_val_def)
  next
    case False
    with 1 have "digits_val (show_nat (n div 10)) = int (n div 10)" by simp
    with False show ?thesis
      by (subst show_nat.simps) (simp add: digits_val_snoc zdiv_int zmod_int)
  qed
qed

lemma isdigit_not_space: "isdigit c \<Longrightarrow> \<not> isspace c"
  by (auto simp: isdigit_def isspace_def)

lemma isdigit_not_sign: "isdigit c \<Longrightarrow> c \<noteq> CHR ''-'' \<and> c \<noteq> CHR ''+''"
  by (auto simp: isdigit_def)

lemma takeWhile_isdigit_append:
  "list_all isdigit ds \<Longrightarrow> rest = [] \<or> \<not> isdigit (hd rest) \<Longrightarrow> takeWhile isdigit (ds @ rest) = ds"
  by (induction ds) (cases rest, auto)

text \<open>Reading back what decimal output wrote, with any text that does not go on with a digit.\<close>

lemma decimal_value_show_int:
  assumes "rest = [] \<or> \<not> isdigit (hd rest)"
  shows "decimal_value (show_int i @ rest) = i"
proof (cases "i < 0")
  case True
  have "\<not> isspace CHR ''-''" by (simp add: isspace_def)
  with True show ?thesis
    by (simp add: decimal_value_def show_int_def takeWhile_isdigit_append show_nat_digits assms)
next
  case False
  obtain d ds where d: "show_nat (nat i) = d # ds"
    using show_nat_nonempty by (meson neq_Nil_conv)
  with show_nat_digits [of "nat i"] have "isdigit d" and "list_all isdigit ds" by auto
  with d assms have "takeWhile isdigit (d # ds @ rest) = show_nat (nat i)"
    using takeWhile_isdigit_append [of "d # ds" rest] by simp
  moreover have "digits_val (d # ds) = i" using False d digits_val_show_nat [of "nat i"] by simp
  ultimately show ?thesis using False d \<open>isdigit d\<close>
    by (auto simp: decimal_value_def show_int_def isdigit_not_space isdigit_not_sign)
qed

lemma atoi_show_int:
  "INT_MIN \<le> i \<Longrightarrow> i \<le> INT_MAX \<Longrightarrow> rest = [] \<or> \<not> isdigit (hd rest) \<Longrightarrow>
     atoi (show_int i @ rest) = i"
  by (simp add: atoi_def strtol_def decimal_value_show_int int_limits)

lemma atoi_range [simp]: "INT_MIN \<le> atoi s" "atoi s \<le> INT_MAX"
  by (simp_all add: atoi_def)

lemma show_int_no_nul: "NUL \<notin> set (show_int i)"
proof -
  have "NUL \<notin> set (show_nat n)" for n
    using show_nat_digits [of n] by (auto simp: list_all_iff isdigit_def)
  then show ?thesis by (simp add: show_int_def)
qed

end
