(* ===== verification/Kernel.thy ===== *)
theory Kernel
  imports CLib
begin

text \<open>
  The boundary between the daemon and what runs below it. Every call into the operating
  system or into a stateful part of libc is a value of type \<^verbatim>\<open>syscall\<close>; the state records
  the calls made so far together with their replies (\<open>trace\<close>, oldest first), and the
  environment \<open>E\<close> supplies the reply to a call from the whole history that precedes it.
  Theorems quantify over the environment, so they hold for every behaviour of the kernel,
  of the hardware and of the other processes, unless a hypothesis restricts it.

  A reply has a return value, an \<open>errno\<close>, a byte buffer, two numbers, a list of
  strings and a list of numbers (which of them a call uses is said at its constructor). Stream and directory handles
  are integers, 0 for the null pointer. A file opened for reading is read from the contents it
  has when it is opened: the reply to \<open>Fopen\<close> carries them in \<open>dat\<close>, with the error
  number of a read error that follows them in \<open>v1\<close> (0 for a clean end of file, after which
  \<open>errno\<close> holds the left-over value \<open>v2\<close>), and the
  reply to \<open>Opendir\<close> carries the names of the entries; \<open>fgets\<close>, \<open>getline\<close>,
  \<open>fscanf\<close> and \<open>readdir\<close> are then functions on these contents, defined below.
\<close>

section \<open>Calls and replies\<close>

datatype open_mode = O_RDONLY | O_WRONLY | O_WRONLY_CLOEXEC | O_WRONLY_APPEND
  | O_WRONLY_CREAT_APPEND | O_WRONLY_CREAT | O_RDWR_CREAT | O_RDWR

datatype ioctl_req = WDIOC_SETTIMEOUT | WDIOC_GETTIMEOUT | WDIOC_GETSUPPORT

datatype reboot_cmd = RB_AUTOBOOT | RB_ENABLE_CAD | RB_HALT_SYSTEM | RB_POWER_OFF

datatype file_call =
    Open string open_mode               \<comment> \<open>\<open>rv\<close>: descriptor or -1\<close>
  | Creat string
  | Close int
  | Lseek int
  | Lseek_set int int                   \<comment> \<open>an absolute position; \<open>rv\<close>: the position\<close>
  | Read int nat                        \<comment> \<open>\<open>rv\<close>: bytes read, \<open>dat\<close>: the bytes\<close>
  | Write int string
  | Dup2 int int
  | Fopen string string                 \<comment> \<open>\<open>rv\<close>: stream or 0, \<open>dat\<close>: contents, \<open>v1\<close>: see above\<close>
  | Fclose int                          \<comment> \<open>\<open>rv\<close>: 0 or EOF (-1)\<close>
  | Rewind int
  | Fseek_end int
  | Fflush int
  | Fwrite int string                   \<comment> \<open>\<open>rv\<close>: items written\<close>
  | Fprintf int string
  | Freopen string string int
  | Stat string                         \<comment> \<open>\<open>v1\<close>: \<open>st_mode\<close>, \<open>v2\<close>: \<open>st_mtime\<close>\<close>
  | Stat_rdev string                    \<comment> \<open>\<open>v1\<close>: \<open>st_mode\<close>, \<open>v2\<close>: \<open>st_rdev\<close>\<close>
  | Realpath string                     \<comment> \<open>\<open>rv\<close>: 0 on failure, \<open>dat\<close>: the resolved path\<close>
  | Lstat string
  | Unlink string
  | Mkdir string
  | Rename string string
  | Fchmod int
  | Chdir string
  | Opendir string                      \<comment> \<open>\<open>names\<close>: the entries\<close>
  | Setmntent string                    \<comment> \<open>\<open>names\<close>: four strings per entry\<close>
  | Endmntent int
  | Closedir int
  | Fcntl_setlkw int                    \<comment> \<open>a write lock on the whole file\<close>

datatype proc_call =
    Fork                                \<comment> \<open>\<open>rv\<close>: 0 in the child, -1 on failure\<close>
  | Waitpid int bool                    \<comment> \<open>with \<open>WNOHANG\<close>?; \<open>v1\<close>: status\<close>
  | Execl string "string list"          \<comment> \<open>\<open>rv\<close>: 0 when the image was replaced\<close>
  | Kill int int
  | Getpid
  | Getsid int
  | Setsid
  | Signal_ignore int
  | Signal_sigterm
  | Sigaction int                       \<comment> \<open>the handler of \<^verbatim>\<open>fstab.c\<close>\<close>
  | Alarm int
  | Poll_sigterm                        \<comment> \<open>no call: \<open>rv\<close> says whether SIGTERM has arrived by now\<close>
  | Time                                \<comment> \<open>\<open>v1\<close>: the time, -1 on failure\<close>
  | Sleep int
  | Usleep int
  | Malloc int                          \<comment> \<open>\<open>rv\<close>: 0 when out of memory\<close>
  | Mmap int
  | Munmap int
  | Mlockall
  | Munlockall
  | Sched_setscheduler int
  | Isatty int
  | Getuid
  | Geteuid
  | Getgid
  | Setuid int
  | Setgid int
  | Wait                                \<comment> \<open>\<open>v1\<close>: status\<close>
  | Getpass string                      \<comment> \<open>\<open>rv\<close>: 0 for the null pointer, \<open>dat\<close>: what was typed\<close>
  | Block_signals bool                  \<comment> \<open>all but the signals of \<^verbatim>\<open>sundries.c\<close>; block?\<close>
  | Uname                               \<comment> \<open>\<open>dat\<close>: the release\<close>

text \<open>The last argument of \<open>mount\<close>: nothing, an option string, or the numbers and strings of an NFS
  mount structure.\<close>

datatype mount_arg = No_arg | Text_arg string | Nfs_arg "int list" "string list"

datatype sys_call =
    Reboot reboot_cmd
  | Sync
  | Acct_off
  | Swapoff string
  | Quotaoff bool string                \<comment> \<open>group quota?\<close>
  | Umount string
  | Remount_ro string string
  | Loop_clr_fd int
  | Loop_set_fd int int
  | Loop_get_status int
  | Loop_set_status int "int list" "string list"
  | Blkgetsize int                      \<comment> \<open>\<open>v1\<close>: the size\<close>
  | Mount string string "string option" int mount_arg

datatype dev_call = Ioctl int ioctl_req int   \<comment> \<open>\<open>v1\<close>/\<open>dat\<close>: what the driver wrote back\<close>

datatype net_call =
    Getprotobyname string
  | Socket int                          \<comment> \<open>protocol\<close>
  | Dgram_socket
  | Siocgifconf int                     \<comment> \<open>\<open>names\<close>: the interfaces\<close>
  | Siocsifflags_down int string
  | Fcntl_cloexec int
  | Setsockopt int string int
  | Inet_addr string                    \<comment> \<open>\<open>v1\<close>: the address\<close>
  | Sendto int int string
  | Select int int int
  | Recvfrom int nat                    \<comment> \<open>\<open>dat\<close>: packet, \<open>v1\<close>: source address\<close>
  | Inet_aton string                    \<comment> \<open>\<open>rv\<close>: 0 when not an address, \<open>v1\<close>: the address\<close>
  | Stream_socket
  | Bindresvport int
  | Connect int int int                 \<comment> \<open>address and port\<close>
  | Pmap_getmaps int                    \<comment> \<open>\<open>nums\<close>: program, version, protocol and port of each service\<close>
  | Pmap_getport int int int int        \<comment> \<open>\<open>rv\<close>: the port or 0\<close>
  | Clntudp_create int int int int      \<comment> \<open>address, port, program, version; \<open>rv\<close>: client or 0, \<open>v1\<close>: socket\<close>
  | Clnttcp_create int int int int
  | Authunix_create int
  | Clnt_call int int string            \<comment> \<open>procedure and encoded arguments; \<open>rv\<close>: status, \<open>dat\<close>: results\<close>
  | Auth_destroy int
  | Clnt_destroy int
  | Gettimeofday                        \<comment> \<open>\<open>v1\<close>: seconds, \<open>v2\<close>: microseconds\<close>

datatype mail_call =
    Popen string
  | Mail_printf int string
  | Mail_ferror int
  | Pclose int
  | Gethostname
  | Gethostbyname string                \<comment> \<open>\<open>rv\<close>: 0 on failure, \<open>v1\<close>: length and \<open>v2\<close> value of the address\<close>

datatype log_call =
    Openlog string
  | Closelog
  | Syslog int string
  | Stderr string string                \<comment> \<open>program name and message\<close>

datatype syscall =
    FileCall file_call
  | ProcCall proc_call
  | SysCall sys_call
  | DevCall dev_call
  | NetCall net_call
  | MailCall mail_call
  | LogCall log_call

record reply =
  rv :: int
  err :: int
  dat :: string
  v1 :: int
  v2 :: int
  names :: "string list"
  nums :: "int list"

type_synonym event = "syscall \<times> reply"

text \<open>Arguments of a log message.\<close>

datatype farg = AInt int | AStr string

text \<open>
  The environment: the replies of the kernel and of libc, the text a format and its arguments
  print as, the text of a system error number, the page size of the machine
  (\<open>EXEC_PAGESIZE\<close> of the system headers), the bytes an automatic array holds before the
  program writes to it, what \<open>mktime\<close> makes of the broken-down UTC form of a time (the
  time shifted by the offset of the local zone), and the finite double \<open>atof\<close> reads from a
  string, as a mantissa and a power of two. \<open>loop_bound\<close> is the number of iterations after which a
  loop whose end depends on the kernel alone counts as \<open>Unfinished\<close>; theorems about such loops
  say which bound is enough.
\<close>

record env =
  kern :: "event list \<Rightarrow> syscall \<Rightarrow> reply"
  fmt :: "string \<Rightarrow> farg list \<Rightarrow> string"
  strerr :: "int \<Rightarrow> string"
  exec_pagesize :: int
  uninit :: "nat \<Rightarrow> string"
  utc_mktime :: "int \<Rightarrow> int"
  atof :: "string \<Rightarrow> int \<times> int"
  loop_bound :: nat

record os_state =
  trace :: "event list"

definition sysc :: "env \<Rightarrow> syscall \<Rightarrow> ('s os_state_scheme, reply) proc" where
  "sysc E c = (\<lambda>s. let r = kern E (trace s) c
                   in (Ret r, s\<lparr>trace := trace s @ [(c, r)]\<rparr>))"

abbreviation fsys :: "env \<Rightarrow> file_call \<Rightarrow> ('s os_state_scheme, reply) proc" where
  "fsys E c \<equiv> sysc E (FileCall c)"

abbreviation psys :: "env \<Rightarrow> proc_call \<Rightarrow> ('s os_state_scheme, reply) proc" where
  "psys E c \<equiv> sysc E (ProcCall c)"

abbreviation dsys :: "env \<Rightarrow> dev_call \<Rightarrow> ('s os_state_scheme, reply) proc" where
  "dsys E c \<equiv> sysc E (DevCall c)"

abbreviation nsys :: "env \<Rightarrow> net_call \<Rightarrow> ('s os_state_scheme, reply) proc" where
  "nsys E c \<equiv> sysc E (NetCall c)"

abbreviation ssys :: "env \<Rightarrow> sys_call \<Rightarrow> ('s os_state_scheme, reply) proc" where
  "ssys E c \<equiv> sysc E (SysCall c)"

abbreviation msys :: "env \<Rightarrow> mail_call \<Rightarrow> ('s os_state_scheme, reply) proc" where
  "msys E c \<equiv> sysc E (MailCall c)"

text \<open>A call whose reply the source ignores.\<close>

definition do_sys :: "env \<Rightarrow> syscall \<Rightarrow> ('s os_state_scheme, unit) proc" where
  "do_sys E c = bind (sysc E c) (\<lambda>_. ret ())"

text \<open>A failing call sets an error number other than 0.\<close>

definition errno_ok :: "env \<Rightarrow> bool" where
  "errno_ok E \<longleftrightarrow> (\<forall>tr c. rv (kern E tr c) < 0 \<longrightarrow> err (kern E tr c) \<noteq> 0)"

section \<open>Reading a stream\<close>

text \<open>One \<open>fgets\<close> with a buffer of the given size: up to \<open>size - 1\<close> characters, ending
  after a newline. The rest of the stream comes second.\<close>

fun fgets :: "nat \<Rightarrow> string \<Rightarrow> string \<times> string" where
  "fgets (Suc (Suc n)) (c # cs) =
     (if c = CHR 0x0A then ([c], cs)
      else (case fgets (Suc n) cs of (l, rest) \<Rightarrow> (c # l, rest)))"
| "fgets n cs = ([], cs)"

lemma fgets_append: "fgets n cs = (l, rest) \<Longrightarrow> cs = l @ rest"
  by (induction n cs arbitrary: l rest rule: fgets.induct) (auto split: if_splits prod.splits)

lemma fgets_length: "fgets n cs = (l, rest) \<Longrightarrow> length l < n \<or> l = []"
  by (induction n cs arbitrary: l rest rule: fgets.induct) (force split: if_splits prod.splits)+

lemma fgets_progress: "2 \<le> n \<Longrightarrow> cs \<noteq> [] \<Longrightarrow> fst (fgets n cs) \<noteq> []"
  by (cases "(n, cs)" rule: fgets.cases) (auto split: prod.splits)

text \<open>All lines of a stream, as successive \<open>fgets\<close> calls return them.\<close>

function fgets_lines :: "nat \<Rightarrow> string \<Rightarrow> string list" where
  "fgets_lines n cs =
     (if n < 2 \<or> cs = [] then []
      else fst (fgets n cs) # fgets_lines n (snd (fgets n cs)))"
  by pat_completeness auto
termination
proof (relation "measure (\<lambda>(n, cs). length cs)", goal_cases)
  case (2 n cs)
  then have "fst (fgets n cs) \<noteq> []" using fgets_progress [of n cs] by simp
  moreover have "cs = fst (fgets n cs) @ snd (fgets n cs)"
    by (rule fgets_append [of n]) simp
  ultimately have "length (snd (fgets n cs)) < length cs"
    by (metis length_append length_greater_0_conv less_add_same_cancel2)
  then show ?case by simp
qed simp

declare fgets_lines.simps [simp del]

lemma concat_fgets_lines: "2 \<le> n \<Longrightarrow> concat (fgets_lines n cs) = cs"
proof (induction n cs rule: fgets_lines.induct)
  case (1 n cs)
  show ?case
  proof (cases "cs = []")
    case True
    then show ?thesis by (simp add: fgets_lines.simps)
  next
    case False
    have "cs = fst (fgets n cs) @ snd (fgets n cs)" by (rule fgets_append [of n]) simp
    with 1 False show ?thesis by (subst fgets_lines.simps) simp
  qed
qed

text \<open>The lines a loop of \<open>fgets\<close> gets from an opened stream: an incomplete line that a read
  error cuts off is not returned.\<close>

definition complete_line :: "nat \<Rightarrow> string \<Rightarrow> bool" where
  "complete_line n l \<longleftrightarrow> length l + 1 = n \<or> last l = CHR 0x0A"

definition stream_lines :: "nat \<Rightarrow> reply \<Rightarrow> string list" where
  "stream_lines n r =
     (let ls = fgets_lines n (dat r) in
      if v1 r \<noteq> 0 \<and> ls \<noteq> [] \<and> \<not> complete_line n (last ls) then butlast ls else ls)"

text \<open>\<open>getline\<close> has no length limit.\<close>

definition getlines :: "string \<Rightarrow> string list" where
  "getlines cs = fgets_lines (length cs + 2) cs"

section \<open>Error numbers of the host\<close>

text \<open>The Linux values of the error numbers the sources compare with, and the signals.\<close>

definition EPERM :: int where "EPERM = 1"
definition ENOENT :: int where "ENOENT = 2"
definition EINTR :: int where "EINTR = 4"
definition EIO :: int where "EIO = 5"
definition ENXIO :: int where "ENXIO = 6"
definition ECHILD :: int where "ECHILD = 10"
definition ENOMEM :: int where "ENOMEM = 12"
definition EACCES :: int where "EACCES = 13"
definition EBUSY :: int where "EBUSY = 16"
definition EEXIST :: int where "EEXIST = 17"
definition EINVAL :: int where "EINVAL = 22"
definition ENFILE :: int where "ENFILE = 23"
definition ENETUNREACH :: int where "ENETUNREACH = 101"

lemmas errno_defs = EPERM_def ENOENT_def EINTR_def EIO_def ENXIO_def ECHILD_def ENOMEM_def
  EACCES_def EBUSY_def EEXIST_def EINVAL_def ENFILE_def ENETUNREACH_def

definition SIGKILL :: int where "SIGKILL = 9"
definition SIGTERM :: int where "SIGTERM = 15"
definition SIGCONT :: int where "SIGCONT = 18"
definition SIGSTOP :: int where "SIGSTOP = 19"
definition SIGTSTP :: int where "SIGTSTP = 20"
definition NSIG :: nat where "NSIG = 65"

lemmas signal_defs = SIGKILL_def SIGTERM_def SIGCONT_def SIGSTOP_def SIGTSTP_def

text \<open>The wait status macros of \<^verbatim>\<open>sys/wait.h\<close>.\<close>

definition WTERMSIG :: "int \<Rightarrow> int" where
  "WTERMSIG status = status mod 128"

definition WIFEXITED :: "int \<Rightarrow> bool" where
  "WIFEXITED status \<longleftrightarrow> WTERMSIG status = 0"

definition WEXITSTATUS :: "int \<Rightarrow> int" where
  "WEXITSTATUS status = (status div 256) mod 256"

definition WIFSIGNALED :: "int \<Rightarrow> bool" where
  "WIFSIGNALED status \<longleftrightarrow> 0 < WTERMSIG status \<and> WTERMSIG status \<noteq> 127"

lemma WEXITSTATUS_range: "0 \<le> WEXITSTATUS st \<and> WEXITSTATUS st \<le> 255"
  by (simp add: WEXITSTATUS_def)

section \<open>Reasoning about traces\<close>

lemma sysc_apply [simp]:
  "sysc E c s = (Ret (kern E (trace s) c), s\<lparr>trace := trace s @ [(c, kern E (trace s) c)]\<rparr>)"
  by (simp add: sysc_def Let_def)

lemma bind_sysc [simp]:
  "bind (sysc E c) f s =
     f (kern E (trace s) c) (s\<lparr>trace := trace s @ [(c, kern E (trace s) c)]\<rparr>)"
  by (simp add: bind_apply_Ret)

lemma do_sys_apply [simp]:
  "do_sys E c s = (Ret (), s\<lparr>trace := trace s @ [(c, kern E (trace s) c)]\<rparr>)"
  by (simp add: do_sys_def)

lemma andthen_do_sys [simp]:
  "andthen (do_sys E c) m s = m (s\<lparr>trace := trace s @ [(c, kern E (trace s) c)]\<rparr>)"
  by (simp add: andthen_apply_Ret)

lemma returns_sysc [returns_intro, simp]: "returns (sysc E c)"
  by (simp add: returns_def)

lemma returns_do_sys [returns_intro, simp]: "returns (do_sys E c)"
  by (simp add: returns_def)

lemma preserves_sysc [preserves_intro]:
  "(\<And>s t. I s \<Longrightarrow> I (s\<lparr>trace := t\<rparr>)) \<Longrightarrow> preserves I (sysc E c)"
  by (simp add: preserves_def)

lemma preserves_do_sys [preserves_intro]:
  "(\<And>s t. I s \<Longrightarrow> I (s\<lparr>trace := t\<rparr>)) \<Longrightarrow> preserves I (do_sys E c)"
  by (simp add: preserves_def)

lemma keeps_sysc [keeps_intro]: "(\<And>s t. g (s\<lparr>trace := t\<rparr>) = g s) \<Longrightarrow> keeps g (sysc E c)"
  by (simp add: keeps_def)

lemma keeps_do_sys [keeps_intro]: "(\<And>s t. g (s\<lparr>trace := t\<rparr>) = g s) \<Longrightarrow> keeps g (do_sys E c)"
  by (simp add: keeps_def)

text \<open>\<open>emits P m\<close>: \<open>m\<close> only appends to the trace, and only calls that satisfy \<open>P\<close>.\<close>

definition emits :: "(syscall \<Rightarrow> bool) \<Rightarrow> ('s os_state_scheme, 'a) proc \<Rightarrow> bool" where
  "emits P m \<longleftrightarrow> (\<forall>s. \<exists>es. trace (snd (m s)) = trace s @ es \<and> (\<forall>e \<in> set es. P (fst e)))"

lemma emitsE:
  assumes "emits P m" and "m s = (r, s')"
  obtains es where "trace s' = trace s @ es" and "\<forall>e \<in> set es. P (fst e)"
  using assms unfolding emits_def by (metis snd_conv)

lemma emitsI:
  "(\<And>s r s'. m s = (r, s') \<Longrightarrow> \<exists>es. trace s' = trace s @ es \<and> (\<forall>e \<in> set es. P (fst e))) \<Longrightarrow> emits P m"
  unfolding emits_def by (metis prod.collapse)

lemma emits_mono: "emits P m \<Longrightarrow> (\<And>c. P c \<Longrightarrow> Q c) \<Longrightarrow> emits Q m"
  unfolding emits_def by (meson)

lemma emits_ret [emits_intro]: "emits P (ret x)"
  and emits_gets [emits_intro]: "emits P (gets f)"
  and emits_stop [emits_intro]: "emits P (stop c)"
  and emits_exec_image [emits_intro]: "emits P (exec_image p args)"
  and emits_fault [emits_intro]: "emits P fault"
  and emits_unfinished [emits_intro]: "emits P unfinished"
  by (simp_all add: emits_def)

lemma emits_modify [emits_intro]: "(\<And>s. trace (f s) = trace s) \<Longrightarrow> emits P (modify f)"
  by (simp add: emits_def)

lemma emits_sysc [emits_intro]: "P c \<Longrightarrow> emits P (sysc E c)"
  by (simp add: emits_def)

lemma emits_do_sys [emits_intro]: "P c \<Longrightarrow> emits P (do_sys E c)"
  by (simp add: emits_def)

lemma emits_bind [emits_intro]:
  assumes "emits P m" and "\<And>x. emits P (f x)"
  shows "emits P (bind m f)"
proof (rule emitsI)
  fix s r s''
  assume eq: "bind m f s = (r, s'')"
  obtain r' s' where m: "m s = (r', s')" by fastforce
  with assms(1) obtain es where es: "trace s' = trace s @ es" "\<forall>e \<in> set es. P (fst e)"
    by (rule emitsE)
  show "\<exists>es. trace s'' = trace s @ es \<and> (\<forall>e \<in> set es. P (fst e))"
  proof (cases r')
    case (Ret x)
    with eq m have "f x s' = (r, s'')" by (simp add: bind_apply_Ret)
    with assms(2) obtain es' where "trace s'' = trace s' @ es'" "\<forall>e \<in> set es'. P (fst e)"
      by (rule emitsE)
    with es show ?thesis by (intro exI [of _ "es @ es'"]) auto
  qed (use eq m es in \<open>auto simp: proc_defs\<close>)
qed

lemma emits_andthen [emits_intro]: "emits P m \<Longrightarrow> emits P n \<Longrightarrow> emits P (andthen m n)"
  by (simp add: andthen_def emits_bind)

lemma emits_if [emits_intro]:
  "(b \<Longrightarrow> emits P m) \<Longrightarrow> (\<not> b \<Longrightarrow> emits P n) \<Longrightarrow> emits P (if b then m else n)"
  by simp

lemma emits_whenp [emits_intro]: "(b \<Longrightarrow> emits P m) \<Longrightarrow> emits P (whenp b m)"
  by (simp add: whenp_def emits_ret)

lemma emits_case_option [emits_intro]:
  "emits P n \<Longrightarrow> (\<And>x. emits P (f x)) \<Longrightarrow> emits P (case v of None \<Rightarrow> n | Some x \<Rightarrow> f x)"
  by (cases v) simp_all

lemma emits_case_list [emits_intro]:
  "emits P n \<Longrightarrow> (\<And>x xs. emits P (f x xs)) \<Longrightarrow> emits P (case v of [] \<Rightarrow> n | x # xs \<Rightarrow> f x xs)"
  by (cases v) simp_all

lemma emits_case_prod [emits_intro]:
  "(\<And>x y. emits P (f x y)) \<Longrightarrow> emits P (case p of (x, y) \<Rightarrow> f x y)"
  by (cases p) simp

lemma emits_let [emits_intro]: "emits P (f x) \<Longrightarrow> emits P (let y = x in f y)"
  by (simp add: Let_def)

lemma emits_run_all [emits_intro]: "list_all (emits P) ms \<Longrightarrow> emits P (run_all ms)"
  by (induction ms) (simp_all add: emits_ret emits_andthen)

lemma emits_for_each [emits_intro]: "(\<And>x. emits P (f x)) \<Longrightarrow> emits P (for_each f xs)"
  by (induction xs) (simp_all add: emits_bind emits_ret)

lemma emits_repeat [emits_intro]: "emits P m \<Longrightarrow> emits P (repeat n m)"
  by (induction n) (simp_all add: emits_andthen emits_ret)

text \<open>The calls of one kind made so far, in order.\<close>

definition calls :: "(syscall \<Rightarrow> bool) \<Rightarrow> 's os_state_scheme \<Rightarrow> syscall list" where
  "calls P s = filter P (map fst (trace s))"

lemma calls_append [simp]: "trace s' = trace s @ es \<Longrightarrow> calls P s' = calls P s @ filter P (map fst es)"
  by (simp add: calls_def)

lemma calls_trace [simp]:
  "calls P (s\<lparr>trace := trace s @ es\<rparr>) = calls P s @ filter P (map fst es)"
  by (simp add: calls_def)

lemma calls_cong: "trace s = trace s' \<Longrightarrow> calls P s = calls P s'"
  by (simp add: calls_def)

lemma filter_none: "\<forall>e \<in> set es. \<not> P (f e) \<Longrightarrow> filter P (map f es) = []"
  by (auto simp: filter_empty_conv)

lemma emits_keeps_calls: "emits (\<lambda>c. \<not> P c) m \<Longrightarrow> keeps (calls P) m"
  unfolding emits_def keeps_def calls_def
  by (metis append_Nil2 filter_append filter_none map_append)

section \<open>Contracts under an invariant\<close>

text \<open>\<open>runs I Q m\<close>: started in a state that satisfies \<open>I\<close>, \<open>m\<close> returns to its caller in a state
  that satisfies \<open>I\<close>, and every call it made satisfies \<open>Q\<close>.\<close>

definition runs ::
  "('s os_state_scheme \<Rightarrow> bool) \<Rightarrow> (syscall \<Rightarrow> bool) \<Rightarrow> ('s os_state_scheme, 'a) proc \<Rightarrow> bool" where
  "runs I Q m \<longleftrightarrow> (\<forall>s. I s \<longrightarrow> (\<exists>x s' es. m s = (Ret x, s') \<and> I s' \<and> trace s' = trace s @ es \<and>
     (\<forall>e \<in> set es. Q (fst e))))"

lemma runsE:
  assumes "runs I Q m" and "I s"
  obtains x s' es where "m s = (Ret x, s')" and "I s'" and "trace s' = trace s @ es"
    and "\<forall>e \<in> set es. Q (fst e)"
  using assms unfolding runs_def by blast

lemma runsI:
  "(\<And>s. I s \<Longrightarrow> \<exists>x s' es. m s = (Ret x, s') \<and> I s' \<and> trace s' = trace s @ es \<and>
     (\<forall>e \<in> set es. Q (fst e))) \<Longrightarrow> runs I Q m"
  unfolding runs_def by blast

lemma runs_combine:
  assumes "returns m" and "preserves I m" and "emits Q m"
  shows "runs I Q m"
proof (rule runsI)
  fix s
  assume I: "I s"
  obtain x s' where run: "m s = (Ret x, s')" using assms(1) by (rule returnsE)
  moreover have "I s'" using assms(2) I run by (rule preservesD)
  moreover obtain es where "trace s' = trace s @ es" "\<forall>e \<in> set es. Q (fst e)"
    using assms(3) run by (rule emitsE)
  ultimately show "\<exists>x s' es. m s = (Ret x, s') \<and> I s' \<and> trace s' = trace s @ es \<and>
      (\<forall>e \<in> set es. Q (fst e))" by blast
qed

lemma runs_mono: "runs I P m \<Longrightarrow> (\<And>c. P c \<Longrightarrow> Q c) \<Longrightarrow> runs I Q m"
  unfolding runs_def by meson

lemma runs_calls:
  assumes "runs I (\<lambda>c. \<not> P c) m" and "I s"
  shows "\<exists>x s'. m s = (Ret x, s') \<and> I s' \<and> calls P s' = calls P s"
  using assms by (elim runsE) (auto simp: calls_def filter_none)

lemma runs_ret [runs_intro]: "runs I Q (ret x)"
  and runs_gets [runs_intro]: "runs I Q (gets f)"
  by (simp_all add: runs_def)

lemma runs_modify [runs_intro]:
  "(\<And>s. I s \<Longrightarrow> I (f s)) \<Longrightarrow> (\<And>s. trace (f s) = trace s) \<Longrightarrow> runs I Q (modify f)"
  by (simp add: runs_def)

lemma runs_sysc [runs_intro]:
  "(\<And>s t. I s \<Longrightarrow> I (s\<lparr>trace := t\<rparr>)) \<Longrightarrow> Q c \<Longrightarrow> runs I Q (sysc E c)"
  by (simp add: runs_def)

lemma runs_do_sys [runs_intro]:
  "(\<And>s t. I s \<Longrightarrow> I (s\<lparr>trace := t\<rparr>)) \<Longrightarrow> Q c \<Longrightarrow> runs I Q (do_sys E c)"
  by (simp add: runs_def)

lemma runs_bind [runs_intro]:
  assumes "runs I Q m" and "\<And>x. runs I Q (f x)"
  shows "runs I Q (bind m f)"
proof (rule runsI)
  fix s
  assume "I s"
  with assms(1) obtain x s1 es1 where 1: "m s = (Ret x, s1)" "I s1" "trace s1 = trace s @ es1"
    "\<forall>e \<in> set es1. Q (fst e)" by (rule runsE)
  obtain y s2 es2 where "f x s1 = (Ret y, s2)" "I s2" "trace s2 = trace s1 @ es2"
    "\<forall>e \<in> set es2. Q (fst e)" using assms(2) 1(2) by (rule runsE)
  with 1 show "\<exists>y s2 es. bind m f s = (Ret y, s2) \<and> I s2 \<and> trace s2 = trace s @ es \<and>
      (\<forall>e \<in> set es. Q (fst e))"
    by (intro exI [of _ y] exI [of _ s2] exI [of _ "es1 @ es2"]) (auto simp: bind_apply_Ret)
qed

lemma runs_bind_sysc:
  fixes f :: "reply \<Rightarrow> ('s os_state_scheme, 'a) proc"
  assumes "\<And>s t. I s \<Longrightarrow> I (s\<lparr>trace := t\<rparr>)" and "Q c" and "\<And>tr. R (kern E tr c)"
    and "\<And>r. R r \<Longrightarrow> runs I Q (f r)"
  shows "runs I Q (bind (sysc E c) f)"
proof (rule runsI)
  fix s :: "'s os_state_scheme"
  let ?r = "kern E (trace s) c"
  let ?s = "s\<lparr>trace := trace s @ [(c, ?r)]\<rparr>"
  assume "I s"
  then have I: "I ?s" by (rule assms(1))
  have "runs I Q (f ?r)" using assms(3,4) by blast
  then obtain x s' es where "f ?r ?s = (Ret x, s')" "I s'" "trace s' = trace ?s @ es"
    "\<forall>e \<in> set es. Q (fst e)" using I by (rule runsE)
  then show "\<exists>x s' es. bind (sysc E c) f s = (Ret x, s') \<and> I s' \<and> trace s' = trace s @ es \<and>
      (\<forall>e \<in> set es. Q (fst e))"
    using assms(2) by (intro exI [of _ x] exI [of _ s'] exI [of _ "(c, ?r) # es"]) simp
qed

text \<open>Reading the state: what the invariant says of the value read may be used after it.\<close>

lemma runs_bind_gets:
  assumes "\<And>s. I s \<Longrightarrow> runs I Q (f (g s))"
  shows "runs I Q (bind (gets g) f)"
  using assms unfolding runs_def by simp

lemma runs_andthen [runs_intro]: "runs I Q m \<Longrightarrow> runs I Q n \<Longrightarrow> runs I Q (andthen m n)"
  by (simp add: andthen_def runs_bind)

lemma runs_if [runs_intro]:
  "(b \<Longrightarrow> runs I Q m) \<Longrightarrow> (\<not> b \<Longrightarrow> runs I Q n) \<Longrightarrow> runs I Q (if b then m else n)"
  by simp

lemma runs_whenp [runs_intro]: "(b \<Longrightarrow> runs I Q m) \<Longrightarrow> runs I Q (whenp b m)"
  by (simp add: whenp_def runs_ret)

lemma runs_let [runs_intro]: "runs I Q (f x) \<Longrightarrow> runs I Q (let y = x in f y)"
  by (simp add: Let_def)

lemma runs_case_option [runs_intro]:
  "(v = None \<Longrightarrow> runs I Q n) \<Longrightarrow> (\<And>x. v = Some x \<Longrightarrow> runs I Q (f x)) \<Longrightarrow>
     runs I Q (case v of None \<Rightarrow> n | Some x \<Rightarrow> f x)"
  by (cases v) simp_all

lemma runs_case_list [runs_intro]:
  "runs I Q n \<Longrightarrow> (\<And>x xs. runs I Q (f x xs)) \<Longrightarrow> runs I Q (case v of [] \<Rightarrow> n | x # xs \<Rightarrow> f x xs)"
  by (cases v) simp_all

lemma runs_case_prod [runs_intro]:
  "(\<And>x y. runs I Q (f x y)) \<Longrightarrow> runs I Q (case p of (x, y) \<Rightarrow> f x y)"
  by (cases p) simp

lemma runs_repeat [runs_intro]: "runs I Q m \<Longrightarrow> runs I Q (repeat n m)"
  by (induction n) (simp_all add: runs_andthen runs_ret)

lemma runs_for_each [runs_intro]: "(\<And>x. runs I Q (f x)) \<Longrightarrow> runs I Q (for_each f xs)"
  by (induction xs) (simp_all add: runs_bind runs_ret)

lemma runs_run_all [runs_intro]: "(\<And>x. runs I Q (f x)) \<Longrightarrow> runs I Q (run_all (map f xs))"
  by (induction xs) (simp_all add: runs_andthen runs_ret)

section \<open>Contracts with the calls made\<close>

text \<open>\<open>performs I P R m\<close>: started under the invariant \<open>I\<close>, \<open>m\<close> returns under it, and its result and
  the calls of kind \<open>P\<close> it made satisfy \<open>R\<close>.\<close>

definition performs ::
  "('s os_state_scheme \<Rightarrow> bool) \<Rightarrow> (syscall \<Rightarrow> bool) \<Rightarrow> ('a \<Rightarrow> syscall list \<Rightarrow> bool) \<Rightarrow>
     ('s os_state_scheme, 'a) proc \<Rightarrow> bool" where
  "performs I P R m \<longleftrightarrow> (\<forall>s. I s \<longrightarrow> (\<exists>x s' es. m s = (Ret x, s') \<and> I s' \<and> trace s' = trace s @ es \<and>
     R x (filter P (map fst es))))"

lemma performsE:
  assumes "performs I P R m" and "I s"
  obtains x s' es where "m s = (Ret x, s')" and "I s'" and "trace s' = trace s @ es" and "R x (filter P (map fst es))"
  using assms unfolding performs_def by blast

lemma performsI:
  "(\<And>s. I s \<Longrightarrow> \<exists>x s' es. m s = (Ret x, s') \<and> I s' \<and> trace s' = trace s @ es \<and> R x (filter P (map fst es))) \<Longrightarrow>
     performs I P R m"
  unfolding performs_def by blast

lemma performs_calls:
  assumes "performs I P R m" and "I s"
  shows "\<exists>x s' cs. m s = (Ret x, s') \<and> I s' \<and> calls P s' = calls P s @ cs \<and> R x cs"
  using assms by (rule performsE) auto

lemma performs_mono: "performs I P R m \<Longrightarrow> (\<And>x cs. R x cs \<Longrightarrow> S x cs) \<Longrightarrow> performs I P S m"
  unfolding performs_def by meson

lemma performs_ret: "R x [] \<Longrightarrow> performs I P R (ret x)"
  by (rule performsI) simp

lemma performs_runs: "runs I (\<lambda>c. \<not> P c) m \<Longrightarrow> performs I P (\<lambda>x cs. cs = []) m"
  by (rule performsI, erule (1) runsE) (auto simp: filter_empty_conv)

lemma performs_bind:
  assumes "performs I P R m" and "\<And>x cs. R x cs \<Longrightarrow> performs I P (\<lambda>y ds. S y (cs @ ds)) (f x)"
  shows "performs I P S (bind m f)"
proof (rule performsI)
  fix s
  assume "I s"
  with assms(1) obtain x s1 es1 where 1: "m s = (Ret x, s1)" "I s1" "trace s1 = trace s @ es1"
    "R x (filter P (map fst es1))" by (rule performsE)
  from assms(2) [OF 1(4)] 1(2) obtain y s2 es2 where 2: "f x s1 = (Ret y, s2)" "I s2" "trace s2 = trace s1 @ es2"
    "S y (filter P (map fst es1) @ filter P (map fst es2))" by (rule performsE)
  with 1 show "\<exists>y s2 es. bind m f s = (Ret y, s2) \<and> I s2 \<and> trace s2 = trace s @ es \<and> S y (filter P (map fst es))"
    by (intro exI [of _ y] exI [of _ s2] exI [of _ "es1 @ es2"]) (simp add: bind_apply_Ret)
qed

text \<open>Steps before and after that make no call of the kind.\<close>

lemma performs_quiet_bind:
  assumes "runs I (\<lambda>c. \<not> P c) m" and "\<And>x. performs I P S (f x)"
  shows "performs I P S (bind m f)"
  by (rule performs_bind [OF performs_runs [OF assms(1)]]) (simp add: assms(2))

lemma performs_quiet_andthen:
  "runs I (\<lambda>c. \<not> P c) m \<Longrightarrow> performs I P S n \<Longrightarrow> performs I P S (andthen m n)"
  unfolding andthen_def by (rule performs_quiet_bind)

lemma performs_bind_quiet:
  assumes "performs I P (\<lambda>x. R) m" and "\<And>x. runs I (\<lambda>c. \<not> P c) (f x)"
  shows "performs I P (\<lambda>x. R) (bind m f)"
  by (rule performs_bind [OF assms(1)], rule performs_mono, rule performs_runs [OF assms(2)]) simp

lemma performs_andthen:
  assumes "performs I P (\<lambda>x. R) m" and "\<And>cs. R cs \<Longrightarrow> performs I P (\<lambda>y ds. S y (cs @ ds)) n"
  shows "performs I P S (andthen m n)"
  unfolding andthen_def by (rule performs_bind [OF assms(1)]) (rule assms(2))

lemma performs_do_sys:
  "(\<And>s t. I s \<Longrightarrow> I (s\<lparr>trace := t\<rparr>)) \<Longrightarrow> R () (if P c then [c] else []) \<Longrightarrow> performs I P R (do_sys E c)"
  by (cases "P c"; rule performsI) simp_all

section \<open>Runs with a known result\<close>

text \<open>\<open>acts P x cs m\<close>: in every state \<open>m\<close> returns \<open>x\<close>, changes nothing but the trace, and the calls it
  makes that satisfy \<open>P\<close> are \<open>cs\<close>, in this order.\<close>

definition acts ::
  "(syscall \<Rightarrow> bool) \<Rightarrow> 'a \<Rightarrow> syscall list \<Rightarrow> ('s os_state_scheme, 'a) proc \<Rightarrow> bool" where
  "acts P x cs m \<longleftrightarrow> (\<forall>s. \<exists>es. m s = (Ret x, s\<lparr>trace := trace s @ es\<rparr>) \<and> filter P (map fst es) = cs)"

lemma actsE:
  assumes "acts P x cs m"
  obtains es where "m s = (Ret x, s\<lparr>trace := trace s @ es\<rparr>)" and "filter P (map fst es) = cs"
  using assms unfolding acts_def by blast

lemma acts_ret: "acts P x [] (ret x)"
  unfolding acts_def by (intro allI exI [of _ "[]"]) simp

lemma acts_bind:
  assumes "acts P x cs m" and "acts P y ds (f x)"
  shows "acts P y (cs @ ds) (bind m f)"
  unfolding acts_def
proof
  fix s
  obtain es where 1: "m s = (Ret x, s\<lparr>trace := trace s @ es\<rparr>)" "filter P (map fst es) = cs"
    using assms(1) by (rule actsE)
  obtain es' where "f x (s\<lparr>trace := trace s @ es\<rparr>) =
      (Ret y, s\<lparr>trace := trace s @ es\<rparr>\<lparr>trace := trace (s\<lparr>trace := trace s @ es\<rparr>) @ es'\<rparr>)"
      "filter P (map fst es') = ds"
    using assms(2) by (rule actsE)
  with 1 show "\<exists>es. bind m f s = (Ret y, s\<lparr>trace := trace s @ es\<rparr>) \<and> filter P (map fst es) = cs @ ds"
    by (intro exI [of _ "es @ es'"]) (simp add: bind_apply_Ret)
qed

lemma acts_andthen: "acts P x cs m \<Longrightarrow> acts P y ds n \<Longrightarrow> acts P y (cs @ ds) (andthen m n)"
  unfolding andthen_def by (rule acts_bind)

text \<open>A call whose reply satisfies \<open>R\<close> whatever came before.\<close>

lemma acts_bind_sysc:
  fixes f :: "reply \<Rightarrow> ('s os_state_scheme, 'a) proc"
  assumes "\<And>tr. R (kern E tr c)" and "\<And>r. R r \<Longrightarrow> acts P y ds (f r)"
  shows "acts P y ((if P c then [c] else []) @ ds) (bind (sysc E c) f)"
  unfolding acts_def
proof
  fix s :: "'s os_state_scheme"
  let ?r = "kern E (trace s) c"
  let ?s = "s\<lparr>trace := trace s @ [(c, ?r)]\<rparr>"
  have "acts P y ds (f ?r)" using assms by blast
  then obtain es where "f ?r ?s = (Ret y, ?s\<lparr>trace := trace ?s @ es\<rparr>)" "filter P (map fst es) = ds"
    by (rule actsE)
  then show "\<exists>es. bind (sysc E c) f s = (Ret y, s\<lparr>trace := trace s @ es\<rparr>) \<and>
      filter P (map fst es) = (if P c then [c] else []) @ ds"
    by (intro exI [of _ "(c, ?r) # es"]) simp
qed

lemma acts_do_sys: "acts P () (if P c then [c] else []) (do_sys E c)"
  unfolding acts_def
proof
  fix s
  show "\<exists>es. do_sys E c s = (Ret (), s\<lparr>trace := trace s @ es\<rparr>) \<and>
      filter P (map fst es) = (if P c then [c] else [])"
    by (intro exI [of _ "[(c, kern E (trace s) c)]"]) simp
qed

lemma acts_quiet_bind: "acts P x [] m \<Longrightarrow> acts P y ds (f x) \<Longrightarrow> acts P y ds (bind m f)"
  using acts_bind [of P x "[]" m y ds f] by simp

lemma acts_quiet_sys: "\<not> P c \<Longrightarrow> acts P () [] (do_sys E c)"
  unfolding acts_def by auto

lemma acts_quiet_whenp: "acts P () [] m \<Longrightarrow> acts P () [] (whenp b m)"
  by (cases b) (simp_all add: acts_ret)

lemma acts_quiet_andthen: "acts P x [] m \<Longrightarrow> acts P y ds n \<Longrightarrow> acts P y ds (andthen m n)"
  unfolding andthen_def by (rule acts_quiet_bind)

text \<open>Such a run keeps every invariant that does not look at the trace.\<close>

lemma acts_runs:
  assumes "acts P x [] m" and "\<And>s t. I s \<Longrightarrow> I (s\<lparr>trace := t\<rparr>)"
  shows "runs I (\<lambda>c. \<not> P c) m"
proof (rule runsI)
  fix s
  assume I: "I s"
  obtain es where "m s = (Ret x, s\<lparr>trace := trace s @ es\<rparr>)" "filter P (map fst es) = []"
    using assms(1) by (rule actsE)
  with assms(2) [OF I] show "\<exists>x s' es. m s = (Ret x, s') \<and> I s' \<and> trace s' = trace s @ es \<and>
      (\<forall>e \<in> set es. \<not> P (fst e))"
    by (intro exI [of _ x] exI [of _ "s\<lparr>trace := trace s @ es\<rparr>"] exI [of _ es]) (auto simp: filter_empty_conv)
qed

text \<open>Reading and taking apart a list of complete lines.\<close>

lemma fgets_line_general:
  "CHR 0x0A \<notin> set y \<Longrightarrow> length y + 1 < n \<Longrightarrow> fgets n (y @ CHR 0x0A # rest) = (y @ [CHR 0x0A], rest)"
proof (induction y arbitrary: n)
  case Nil
  then obtain m where "n = Suc (Suc m)" by (metis less_iff_Suc_add list.size(3) One_nat_def plus_1_eq_Suc add_0)
  then show ?case by simp
next
  case (Cons c y)
  then obtain m where n: "n = Suc (Suc m)" by (metis Suc_lessE length_Cons add_Suc plus_1_eq_Suc add.commute)
  then have "fgets (Suc m) (y @ CHR 0x0A # rest) = (y @ [CHR 0x0A], rest)" using Cons by simp
  with n Cons.prems show ?case by auto
qed

lemma fgets_lines_complete:
  assumes "\<forall>l \<in> set ls. \<exists>y. l = y @ [CHR 0x0A] \<and> CHR 0x0A \<notin> set y \<and> length l < n"
  shows "fgets_lines n (concat ls) = ls"
  using assms
proof (induction ls)
  case Nil
  then show ?case by (simp add: fgets_lines.simps)
next
  case (Cons l ls)
  then obtain y where y: "l = y @ [CHR 0x0A]" "CHR 0x0A \<notin> set y" "length y + 1 < n" by auto
  then have "fgets n (concat (l # ls)) = (l, concat ls)"
    using fgets_line_general [of y n "concat ls"] by simp
  with Cons y show ?case by (subst fgets_lines.simps) simp
qed

end
