(* ===== verification/Logging.thy ===== *)
theory Logging
  imports Kernel
begin

text \<open>
  \<^verbatim>\<open>src/logmessage.c\<close>, \<^verbatim>\<open>src/errorcodes.c\<close>, \<^verbatim>\<open>src/xmalloc.c\<close> and the constants of
  \<^verbatim>\<open>include/watch_err.h\<close> and \<^verbatim>\<open>include/logmessage.h\<close>.

  The static variables of \<^verbatim>\<open>logmessage.c\<close> are the record \<open>log_state\<close>, which extends the
  call trace; every later component extends it in turn. A log message is given by the leading
  words of its format and its arguments; the environment renders it (\<open>fmt\<close>), and the
  2048-byte buffer truncates it as \<open>vsnprintf\<close> does. The build is the default one:
  syslog enabled, no \<open>DEBUG\<close>.
\<close>

unbundle bit_operations_syntax

section \<open>Constants\<close>

definition ENOERR :: int where "ENOERR = 0"
definition EREBOOT :: int where "EREBOOT = 255"
definition ERESET :: int where "ERESET = 254"
definition EMAXLOAD :: int where "EMAXLOAD = 253"
definition ETOOHOT :: int where "ETOOHOT = 252"
definition ENOLOAD :: int where "ENOLOAD = 251"
definition ENOCHANGE :: int where "ENOCHANGE = 250"
definition EINVMEM :: int where "EINVMEM = 249"
definition ECHKILL :: int where "ECHKILL = 248"
definition ETOOLONG :: int where "ETOOLONG = 247"
definition EUSERVALUE :: int where "EUSERVALUE = 246"
definition EDONTKNOW :: int where "EDONTKNOW = 245"

lemmas wd_err_defs = ENOERR_def EREBOOT_def ERESET_def EMAXLOAD_def ETOOHOT_def ENOLOAD_def
  ENOCHANGE_def EINVMEM_def ECHKILL_def ETOOLONG_def EUSERVALUE_def EDONTKNOW_def

definition LOG_ALERT :: int where "LOG_ALERT = 1"
definition LOG_ERR :: int where "LOG_ERR = 3"
definition LOG_WARNING :: int where "LOG_WARNING = 4"
definition LOG_NOTICE :: int where "LOG_NOTICE = 5"
definition LOG_INFO :: int where "LOG_INFO = 6"
definition LOG_DEBUG :: int where "LOG_DEBUG = 7"

definition EX_USAGE :: int where "EX_USAGE = 1"
definition EX_SYSERR :: int where "EX_SYSERR = 2"
definition EX_SOFTWARE :: int where "EX_SOFTWARE = 4"
definition EX_USER :: int where "EX_USER = 8"
definition EX_FILEIO :: int where "EX_FILEIO = 16"

definition MSG_TO_STDERR :: int where "MSG_TO_STDERR = 1"
definition MSG_TO_SYSLOG :: int where "MSG_TO_SYSLOG = 2"

definition MAX_MESSAGE :: nat where "MAX_MESSAGE = 2048"
definition MAX_PROG_NAME :: nat where "MAX_PROG_NAME = 256"

definition wd_strerror :: "env \<Rightarrow> int \<Rightarrow> string" where
  "wd_strerror E e =
    (if e = ENOERR then ''no error''
     else if e = EREBOOT then ''unconditional reboot requested''
     else if e = ERESET then ''unconditional hard reset requested''
     else if e = EMAXLOAD then ''load average too high''
     else if e = ETOOHOT then ''too hot''
     else if e = ENOLOAD then ''loadavg contains no data''
     else if e = ENOCHANGE then ''file was not changed in the given interval''
     else if e = EINVMEM then ''meminfo contains invalid data''
     else if e = ECHKILL then ''child process was killed by signal''
     else if e = ETOOLONG then ''child process did not return in time''
     else if e = EUSERVALUE then ''user-reserved code''
     else if e = EDONTKNOW then ''unknown (neither good nor bad)''
     else strerr E e)"

section \<open>Message output\<close>

record log_state = os_state +
  using_syslog :: bool
  using_terminal :: bool
  progname :: string
  err_count :: int
  err_level :: int
  err_buf :: string

abbreviation lsys :: "env \<Rightarrow> log_call \<Rightarrow> ('s os_state_scheme, reply) proc" where
  "lsys E c \<equiv> sysc E (LogCall c)"

definition close_logging :: "env \<Rightarrow> ('s log_state_scheme, int) proc" where
  "close_logging E =
     bind (gets using_syslog) (\<lambda>on.
     if on then
       bind (lsys E Closelog) (\<lambda>_.
       andthen (modify (using_syslog_update (\<lambda>_. False)))
       (ret 0))
     else ret (- 1))"

definition open_logging :: "env \<Rightarrow> string option \<Rightarrow> int \<Rightarrow> ('s log_state_scheme, int) proc" where
  "open_logging E name flags =
     andthen (case name of
                None \<Rightarrow> ret ()
              | Some n \<Rightarrow> modify (progname_update (\<lambda>_. take (MAX_PROG_NAME - 1) n)))
     (andthen (modify (err_count_update (\<lambda>_. 0)))
     (andthen (modify (using_terminal_update (\<lambda>_. flags AND MSG_TO_STDERR \<noteq> 0)))
     (andthen
       (if flags AND MSG_TO_SYSLOG \<noteq> 0 then
          bind (gets using_syslog) (\<lambda>on.
          if \<not> on then
            bind (gets progname) (\<lambda>p.
            bind (lsys E (Openlog p)) (\<lambda>_.
            modify (using_syslog_update (\<lambda>_. True))))
          else ret ())
        else bind (close_logging E) (\<lambda>_. ret ()))
     (ret 0))))"

definition output_message :: "env \<Rightarrow> int \<Rightarrow> string \<Rightarrow> ('s log_state_scheme, int) proc" where
  "output_message E level buf =
     andthen
       (bind (gets (\<lambda>s. using_syslog s \<and> err_count s = 0)) (\<lambda>direct.
        if direct then bind (lsys E (Syslog level buf)) (\<lambda>_. ret ())
        else modify (\<lambda>s. s\<lparr>err_count := int32 (err_count s + 1), err_level := level,
                            err_buf := take (MAX_MESSAGE - 1) buf\<rparr>)))
     (bind (gets using_terminal) (\<lambda>term.
      if term then
        bind (gets progname) (\<lambda>p.
        bind (lsys E (Stderr p buf)) (\<lambda>r.
        andthen
          (if rv r < 0 then modify (using_terminal_update (\<lambda>_. False))
           else bind (fsys E (Fflush 2)) (\<lambda>r2.
             if rv r2 \<noteq> 0 then modify (using_terminal_update (\<lambda>_. False)) else ret ()))
        (ret (rv r))))
      else ret 0))"

definition vsnprintf :: "env \<Rightarrow> string \<Rightarrow> farg list \<Rightarrow> string" where
  "vsnprintf E f args = take (MAX_MESSAGE - 2) (cstr (fmt E f args))"

definition log_message :: "env \<Rightarrow> int \<Rightarrow> string \<Rightarrow> farg list \<Rightarrow> ('s log_state_scheme, int) proc" where
  "log_message E level f args = output_message E level (vsnprintf E f args)"

definition log_msg :: "env \<Rightarrow> int \<Rightarrow> string \<Rightarrow> farg list \<Rightarrow> ('s log_state_scheme, unit) proc" where
  \<comment> \<open>\<open>log_message\<close> as a statement: no caller uses its result\<close>
  "log_msg E level f args = bind (log_message E level f args) (\<lambda>_. ret ())"

definition fatal_error :: "env \<Rightarrow> int \<Rightarrow> string \<Rightarrow> farg list \<Rightarrow> ('s log_state_scheme, 'a) proc" where
  "fatal_error E exitcode f args =
     bind (output_message E LOG_ERR (vsnprintf E f args)) (\<lambda>_.
     bind (close_logging E) (\<lambda>_.
     stop exitcode))"

definition suspend_logging :: "('s log_state_scheme, int) proc" where
  "suspend_logging =
     andthen (modify (\<lambda>s. if err_count s = 0 then s\<lparr>err_count := 1\<rparr> else s)) (ret 0)"

definition resume_logging :: "env \<Rightarrow> ('s log_state_scheme, int) proc" where
  "resume_logging E =
     bind (bind (gets (\<lambda>s. err_count s \<noteq> 0 \<and> using_syslog s)) (\<lambda>pending.
           if pending then
             andthen (modify (\<lambda>s. s\<lparr>err_count := err_count s - 1\<rparr>))
             (bind (gets err_count) (\<lambda>n.
              bind (gets err_buf) (\<lambda>b.
              if n = 1 then
                bind (gets err_level) (\<lambda>l.
                bind (lsys E (Syslog l b)) (\<lambda>_. ret 0))
              else if n > 1 then
                bind (lsys E (Syslog LOG_WARNING
                   (fmt E ''had %d messages in log suspend, last: %s'' [AInt n, AStr b])))
                  (\<lambda>_. ret (- 1))
              else ret 0)))
           else ret 0)) (\<lambda>rv.
     andthen (modify (err_count_update (\<lambda>_. 0))) (ret rv))"

section \<open>Allocation that ends the program when memory runs out\<close>

text \<open>The results say whether the pointer is non-null; \<open>xmalloc\<close> and \<open>xcalloc\<close> return
  the null pointer for an empty block.\<close>

definition xmalloc :: "env \<Rightarrow> int \<Rightarrow> ('s log_state_scheme, bool) proc" where
  "xmalloc E sz =
     (if sz = 0 then ret False
      else bind (psys E (Malloc (uint64 sz))) (\<lambda>r.
        if rv r = 0 then fatal_error E EX_SYSERR ''xmalloc failed'' [AInt (uint64 sz)]
        else ret True))"

definition xcalloc :: "env \<Rightarrow> int \<Rightarrow> int \<Rightarrow> ('s log_state_scheme, bool) proc" where
  "xcalloc E nmemb sz =
     (if nmemb = 0 \<or> sz = 0 then ret False
      else bind (psys E (Malloc (uint64 nmemb * uint64 sz))) (\<lambda>r.
        if rv r = 0 then
          fatal_error E EX_SYSERR ''xcalloc failed'' [AInt (uint64 nmemb), AInt (uint64 sz)]
        else ret True))"

definition xstrdup :: "env \<Rightarrow> string option \<Rightarrow> ('s log_state_scheme, string option) proc" where
  "xstrdup E s =
     (case s of
        None \<Rightarrow> ret None
      | Some t \<Rightarrow>
          bind (psys E (Malloc (int (length t) + 1))) (\<lambda>r.
          if rv r = 0 then fatal_error E EX_SYSERR ''xstrdup failed'' [AInt (int (length t))]
          else ret (Some t)))"

definition xstrndup :: "env \<Rightarrow> string option \<Rightarrow> int \<Rightarrow> ('s log_state_scheme, string) proc" where
  "xstrndup E s n =
     (case s of
        None \<Rightarrow> fatal_error E EX_SOFTWARE ''bad xstrndup call'' [AInt n]
      | Some t \<Rightarrow>
          if n < 0 then fatal_error E EX_SOFTWARE ''bad xstrndup call'' [AInt n]
          else bind (xmalloc E (n + 1)) (\<lambda>_. ret (take (nat n) t)))"

section \<open>What logging does not touch\<close>

text \<open>A logging call: syslog, the terminal, and the flush of \<open>stderr\<close>.\<close>

fun is_log_call :: "syscall \<Rightarrow> bool" where
  "is_log_call (LogCall c) = True"
| "is_log_call (FileCall (Fflush f)) = (f = 2)"
| "is_log_call c = False"

fun is_syslog :: "syscall \<Rightarrow> bool" where
  "is_syslog (LogCall (Syslog l m)) = True"
| "is_syslog c = False"

text \<open>A component of the state that no logging function writes.\<close>

definition log_frame :: "('s log_state_scheme \<Rightarrow> 'b) \<Rightarrow> bool" where
  "log_frame g \<longleftrightarrow>
     (\<forall>s t. g (s\<lparr>trace := t\<rparr>) = g s) \<and>
     (\<forall>s b. g (s\<lparr>using_syslog := b\<rparr>) = g s) \<and>
     (\<forall>s b. g (s\<lparr>using_terminal := b\<rparr>) = g s) \<and>
     (\<forall>s p. g (s\<lparr>progname := p\<rparr>) = g s) \<and>
     (\<forall>s n. g (s\<lparr>err_count := n\<rparr>) = g s) \<and>
     (\<forall>s n. g (s\<lparr>err_level := n\<rparr>) = g s) \<and>
     (\<forall>s b. g (s\<lparr>err_buf := b\<rparr>) = g s)"

lemma log_frame_conj: "log_frame P \<Longrightarrow> log_frame Q \<Longrightarrow> log_frame (\<lambda>s. P s \<and> Q s)"
  by (simp add: log_frame_def)

lemma log_frame_eq: "log_frame g \<Longrightarrow> log_frame (\<lambda>s. g s = v)"
  by (simp add: log_frame_def)

lemma log_frame_trace: "log_frame g \<Longrightarrow> g (s\<lparr>trace := t\<rparr>) = g s"
  by (simp add: log_frame_def)

lemma close_logging_emits [emits_intro]: "(\<And>c. is_log_call c \<Longrightarrow> P c) \<Longrightarrow> emits P (close_logging E)"
  unfolding close_logging_def by (intro emits_intro) simp_all

lemma open_logging_emits [emits_intro]:
  "(\<And>c. is_log_call c \<Longrightarrow> P c) \<Longrightarrow> emits P (open_logging E name flags)"
  unfolding open_logging_def by (intro emits_intro) simp_all

lemma output_message_emits [emits_intro]:
  "(\<And>c. is_log_call c \<Longrightarrow> P c) \<Longrightarrow> emits P (output_message E l b)"
  unfolding output_message_def by (intro emits_intro) simp_all

lemma log_message_emits [emits_intro]:
  "(\<And>c. is_log_call c \<Longrightarrow> P c) \<Longrightarrow> emits P (log_message E l f a)"
  unfolding log_message_def by (intro emits_intro)

lemma log_msg_emits [emits_intro]: "(\<And>c. is_log_call c \<Longrightarrow> P c) \<Longrightarrow> emits P (log_msg E l f a)"
  unfolding log_msg_def by (intro emits_intro)

lemma fatal_error_emits [emits_intro]:
  "(\<And>c. is_log_call c \<Longrightarrow> P c) \<Longrightarrow> emits P (fatal_error E x f a)"
  unfolding fatal_error_def by (intro emits_intro)

lemma suspend_logging_emits [emits_intro]: "emits P suspend_logging"
  unfolding suspend_logging_def by (intro emits_intro) simp_all

lemma resume_logging_emits [emits_intro]:
  "(\<And>c. is_log_call c \<Longrightarrow> P c) \<Longrightarrow> emits P (resume_logging E)"
  unfolding resume_logging_def by (intro emits_intro) simp_all

lemma log_returns [returns_intro, simp]:
  "returns (close_logging E)" "returns (open_logging E name flags)"
  "returns (output_message E l b)" "returns (log_message E l f a)" "returns (log_msg E l f a)"
  "returns suspend_logging" "returns (resume_logging E)"
  unfolding close_logging_def open_logging_def output_message_def log_message_def log_msg_def
    suspend_logging_def resume_logging_def
  by (intro returns_intro)+

lemma close_logging_keeps [keeps_intro]: "log_frame g \<Longrightarrow> keeps g (close_logging E)"
  unfolding close_logging_def by (intro keeps_intro) (simp_all add: log_frame_def)

lemma open_logging_keeps [keeps_intro]: "log_frame g \<Longrightarrow> keeps g (open_logging E name flags)"
  unfolding open_logging_def by (intro keeps_intro) (simp_all add: log_frame_def)

lemma output_message_keeps [keeps_intro]: "log_frame g \<Longrightarrow> keeps g (output_message E l b)"
  unfolding output_message_def
  by (intro keeps_intro) (simp_all add: log_frame_def)

lemma log_message_keeps [keeps_intro]: "log_frame g \<Longrightarrow> keeps g (log_message E l f a)"
  unfolding log_message_def by (intro keeps_intro)

lemma log_msg_keeps [keeps_intro]: "log_frame g \<Longrightarrow> keeps g (log_msg E l f a)"
  unfolding log_msg_def by (intro keeps_intro)

lemma fatal_error_keeps [keeps_intro]: "log_frame g \<Longrightarrow> keeps g (fatal_error E x f a)"
  unfolding fatal_error_def by (intro keeps_intro)

lemma suspend_logging_keeps [keeps_intro]: "log_frame g \<Longrightarrow> keeps g suspend_logging"
  unfolding suspend_logging_def by (intro keeps_intro) (simp_all add: log_frame_def)

lemma resume_logging_keeps [keeps_intro]: "log_frame g \<Longrightarrow> keeps g (resume_logging E)"
  unfolding resume_logging_def by (intro keeps_intro) (simp_all add: log_frame_def)

lemma log_msg_runs [runs_intro]:
  assumes "log_frame I" and "\<And>c. is_log_call c \<Longrightarrow> Q c"
  shows "runs I Q (log_msg E l f a)"
  using keeps_preserves [OF log_msg_keeps [OF assms(1)], of "\<lambda>b. b"]
  by (intro runs_combine log_returns log_msg_emits assms) simp_all

text \<open>The state after a message: for the functions that only log in passing, one opaque step.\<close>

definition logged :: "env \<Rightarrow> int \<Rightarrow> string \<Rightarrow> farg list \<Rightarrow> 's log_state_scheme \<Rightarrow> 's log_state_scheme" where
  "logged E l f a s = snd (log_msg E l f a s)"

lemma log_msg_apply: "log_msg E l f a s = (Ret (), logged E l f a s)"
proof -
  obtain s' where "log_msg E l f a s = (Ret (), s')" using log_returns(5) by (rule returns_unitE)
  then show ?thesis by (simp add: logged_def)
qed

lemma logged_frame: "log_frame g \<Longrightarrow> g (logged E l f a s) = g s"
  using keepsD [OF log_msg_keeps log_msg_apply] .

lemma calls_logged:
  assumes "\<And>c. is_log_call c \<Longrightarrow> \<not> P c"
  shows "calls P (logged E l f a s) = calls P s"
  using keepsD [OF emits_keeps_calls [OF log_msg_emits] log_msg_apply] assms by blast

lemma bind_log_msg: "bind (log_msg E l f a) k s = k () (logged E l f a s)"
  by (simp add: log_msg_apply bind_apply_Ret)

lemma andthen_log_msg: "andthen (log_msg E l f a) k s = k (logged E l f a s)"
  by (simp add: log_msg_apply andthen_apply_Ret)

lemmas log_run = log_msg_apply bind_log_msg andthen_log_msg

text \<open>The environments in which memory can be allocated.\<close>

definition memory_ok :: "env \<Rightarrow> bool" where
  "memory_ok E \<longleftrightarrow> (\<forall>tr n. rv (kern E tr (ProcCall (Malloc n))) \<noteq> 0)"

lemma xcalloc_run:
  assumes "memory_ok E" and "n \<noteq> 0" "k \<noteq> 0"
  shows "\<exists>t. xcalloc E n k s = (Ret True, s\<lparr>trace := t\<rparr>)"
  using assms by (auto simp: xcalloc_def memory_ok_def)

lemma xstrdup_run:
  assumes "memory_ok E"
  shows "xstrdup E (Some v) s = (Ret (Some v), s\<lparr>trace := trace s @
     [(ProcCall (Malloc (int (length v) + 1)), kern E (trace s) (ProcCall (Malloc (int (length v) + 1))))]\<rparr>)"
  using assms by (simp add: xstrdup_def memory_ok_def)

section \<open>Suspending and resuming the log\<close>

text \<open>Messages logged in a row.\<close>

type_synonym log_item = "int \<times> string \<times> farg list"

fun log_all :: "env \<Rightarrow> log_item list \<Rightarrow> ('s log_state_scheme, unit) proc" where
  "log_all E [] = ret ()"
| "log_all E ((l, f, a) # ms) = andthen (log_msg E l f a) (log_all E ms)"

lemma length_vsnprintf: "length (vsnprintf E f a) \<le> 2046"
  by (simp add: vsnprintf_def MAX_MESSAGE_def)

lemma vsnprintf_fits [simp]: "length (vsnprintf E f a) \<le> MAX_MESSAGE - Suc 0"
  using length_vsnprintf [of E f a] by (simp add: MAX_MESSAGE_def)

text \<open>A message during the suspension: kept in the buffer, counted, not sent.\<close>

lemma log_msg_suspended:
  assumes "1 \<le> err_count s" and "err_count s < INT_MAX"
  shows "\<exists>s' es. log_msg E l f a s = (Ret (), s') \<and> trace s' = trace s @ es \<and>
     filter is_syslog (map fst es) = [] \<and> err_count s' = err_count s + 1 \<and>
     err_level s' = l \<and> err_buf s' = vsnprintf E f a \<and> using_syslog s' = using_syslog s"
proof -
  have c: "int32 (err_count s + 1) = err_count s + 1"
    using assms by (intro int32_id) (auto simp: int_limits)
  show ?thesis
    using assms(1) by (auto simp: log_msg_def log_message_def output_message_def c andthen_def bind_assoc)
qed

definition last_kept :: "env \<Rightarrow> log_item list \<Rightarrow> 's log_state_scheme \<Rightarrow> bool" where
  "last_kept E ms s \<longleftrightarrow> ms \<noteq> [] \<longrightarrow> err_level s = fst (last ms) \<and>
     err_buf s = vsnprintf E (fst (snd (last ms))) (snd (snd (last ms)))"

lemma log_all_suspended:
  assumes "1 \<le> err_count s" and "err_count s + int (length ms) < INT_MAX"
  shows "\<exists>s' es. log_all E ms s = (Ret (), s') \<and> trace s' = trace s @ es \<and>
     filter is_syslog (map fst es) = [] \<and> err_count s' = err_count s + int (length ms) \<and>
     using_syslog s' = using_syslog s \<and>
     last_kept E ms s'"
  using assms
proof (induction ms arbitrary: s)
  case (Cons m ms)
  obtain l f a where m: "m = (l, f, a)" by (cases m)
  from Cons.prems log_msg_suspended [of s E l f a] obtain s1 es1
    where 1: "log_msg E l f a s = (Ret (), s1)" "trace s1 = trace s @ es1"
      "filter is_syslog (map fst es1) = []" "err_count s1 = err_count s + 1"
      "err_level s1 = l" "err_buf s1 = vsnprintf E f a" "using_syslog s1 = using_syslog s"
    by auto
  with Cons.prems have "1 \<le> err_count s1" "err_count s1 + int (length ms) < INT_MAX" by auto
  from Cons.IH [OF this] obtain s2 es2
    where 2: "log_all E ms s1 = (Ret (), s2)" "trace s2 = trace s1 @ es2"
      "filter is_syslog (map fst es2) = []" "err_count s2 = err_count s1 + int (length ms)"
      "using_syslog s2 = using_syslog s1"
      "last_kept E ms s2"
    by blast
  have "log_all E (m # ms) s = (Ret (), s2)" using 1 2 by (simp add: m andthen_apply_Ret)
  moreover have "trace s2 = trace s @ es1 @ es2" using 1 2 by simp
  moreover have "ms = [] \<Longrightarrow> err_level s2 = l \<and> err_buf s2 = vsnprintf E f a"
    using 1 2 by simp
  ultimately show ?case using 1 2 m by (intro exI [of _ s2] exI [of _ "es1 @ es2"]) (auto simp: last_kept_def)
qed (simp add: last_kept_def)

definition suspended_log :: "env \<Rightarrow> log_item list \<Rightarrow> ('s log_state_scheme, int) proc" where
  "suspended_log E ms =
     bind suspend_logging (\<lambda>_. andthen (log_all E ms) (resume_logging E))"

fun suspended_report :: "env \<Rightarrow> log_item list \<Rightarrow> syscall list" where
  "suspended_report E [] = []"
| "suspended_report E [(l, f, a)] = [LogCall (Syslog l (vsnprintf E f a))]"
| "suspended_report E ms =
     (case last ms of (l, f, a) \<Rightarrow>
        [LogCall (Syslog LOG_WARNING
           (fmt E ''had %d messages in log suspend, last: %s''
              [AInt (int (length ms)), AStr (vsnprintf E f a)]))])"

lemma suspended_report_many:
  "1 < length ms \<Longrightarrow> last ms = (l, f, a) \<Longrightarrow>
   suspended_report E ms = [LogCall (Syslog LOG_WARNING
           (fmt E ''had %d messages in log suspend, last: %s''
              [AInt (int (length ms)), AStr (vsnprintf E f a)]))]"
  by (cases "(E, ms)" rule: suspended_report.cases) auto

lemma resume_logging_sends:
  assumes "err_count s = 1 + int (length ms)" and "using_syslog s"
    and "last_kept E ms s"
  shows "\<exists>r s' es. resume_logging E s = (Ret r, s') \<and> trace s' = trace s @ es \<and>
     map fst es = suspended_report E ms \<and> err_count s' = 0 \<and> using_syslog s'"
proof -
  consider "ms = []" | "length ms = 1" | "1 < length ms"
    by (metis length_0_conv less_one linorder_neqE_nat)
  then show ?thesis
  proof cases
    case 1
    with assms show ?thesis by (simp add: resume_logging_def bind_assoc bind_apply_Ret)
  next
    case 2
    then obtain l f a where "ms = [(l, f, a)]" by (cases ms) auto
    with assms show ?thesis
      by (simp add: resume_logging_def bind_assoc bind_apply_Ret last_kept_def)
  next
    case 3
    then have "ms \<noteq> []" by auto
    moreover obtain l f a where "last ms = (l, f, a)" by (cases "last ms")
    ultimately show ?thesis using 3 assms
      by (auto simp: resume_logging_def bind_assoc bind_apply_Ret suspended_report_many last_kept_def)
  qed
qed

text \<open>Suspending the log loses nothing but older messages: whatever is logged between
  \<open>suspend_logging\<close> and \<open>resume_logging\<close> sends nothing to syslog until the resume, which
  sends nothing when there was no message, the message itself at its own level when there was
  exactly one, and otherwise one warning with the exact count and the last message.\<close>

lemma suspended_log_reports:
  assumes "using_syslog s" and "err_count s = 0" and "int (length ms) < INT_MAX - 1"
  shows "\<exists>r s' es. suspended_log E ms s = (Ret r, s') \<and> trace s' = trace s @ es \<and>
     filter is_syslog (map fst es) = suspended_report E ms \<and> err_count s' = 0 \<and> using_syslog s'"
proof -
  let ?s0 = "s\<lparr>err_count := 1\<rparr>"
  have "suspend_logging s = (Ret 0, ?s0)"
    using assms(2) by (simp add: suspend_logging_def)
  then have run: "suspended_log E ms s = andthen (log_all E ms) (resume_logging E) ?s0"
    by (simp add: suspended_log_def bind_apply_Ret)
  have "1 \<le> err_count ?s0" "err_count ?s0 + int (length ms) < INT_MAX" using assms(3) by auto
  from log_all_suspended [OF this, of E] obtain s1 es1
    where 1: "log_all E ms ?s0 = (Ret (), s1)" "trace s1 = trace s @ es1"
      "filter is_syslog (map fst es1) = []" "err_count s1 = 1 + int (length ms)"
      "using_syslog s1"
      "last_kept E ms s1"
    using assms(1) by auto
  from resume_logging_sends [OF 1(4,5,6)] obtain r s2 es2
    where 2: "resume_logging E s1 = (Ret r, s2)" "trace s2 = trace s1 @ es2"
      "map fst es2 = suspended_report E ms" "err_count s2 = 0" "using_syslog s2"
    by blast
  have "filter is_syslog (suspended_report E ms) = suspended_report E ms"
    by (cases "(E, ms)" rule: suspended_report.cases) (auto split: prod.splits)
  with 1 2 run show ?thesis
    by (intro exI [of _ r] exI [of _ s2] exI [of _ "es1 @ es2"]) (simp add: andthen_apply_Ret)
qed

end
