(* ===== verification/ReadConf.thy ===== *)
theory ReadConf
  imports Logging
begin

text \<open>
  The data of \<^verbatim>\<open>include/extern.h\<close> and the parsing helpers of \<^verbatim>\<open>src/read-conf.c\<close>.

  A node of \<open>struct list\<close> is a record \<open>entry\<close>, a linked list a HOL list. The union
  \<open>wdog_options\<close> is flattened: each list uses one of its members only. The global variables of
  \<^verbatim>\<open>configfile.c\<close> are the record \<open>config\<close>, held in one field of the daemon's state.
  The \<open>read_*_func\<close> functions store through a pointer: they take the update of the
  configuration that the pointer stands for, and return what they stored next to their result
  code.
\<close>

section \<open>Data\<close>

record entry =
  e_name :: string
  e_version :: int
  last_time :: int
  repair_count :: int
  f_mtime :: int
  if_bytes :: int
  t_in_use :: bool
  have1 :: bool
  have2 :: bool
  have3 :: bool
  net_to :: int
  sock_fp :: int
  packet :: string

record config =
  tint :: int
  logtick :: int
  ticker :: int
  schedprio :: int
  maxload1 :: int
  maxload5 :: int
  maxload15 :: int
  minpages :: int
  minalloc :: int
  maxtemp :: int
  pingcount :: int
  temp_poweroff :: int
  sigterm_delay :: int
  repair_max :: int
  devname :: "string option"
  admin :: "string option"
  test_timeout :: int
  repair_timeout :: int
  dev_timeout :: int
  retry_timeout :: int
  logdir :: "string option"
  heartbeat :: "string option"
  hbstamps :: int
  refresh_use_settimeout :: int
  realtime :: int
  tr_bin_list :: "entry list"
  file_list :: "entry list"
  target_list :: "entry list"
  pidfile_list :: "entry list"
  iface_list :: "entry list"
  temp_list :: "entry list"
  repair_bin :: "string option"
  softboot :: int
  verbose :: int
  test_dir :: "string option"

record conf_state = log_state +
  cfg :: config

definition ENUM_NO :: int where "ENUM_NO = 0"
definition ENUM_YES :: int where "ENUM_YES = 1"
definition ENUM_AUTO :: int where "ENUM_AUTO = 2"

text \<open>The conditions under which the sources print debugging messages.\<close>

abbreviation is_verbose :: "config \<Rightarrow> bool" where
  "is_verbose c \<equiv> verbose c \<noteq> 0"

abbreviation verbose_tick :: "config \<Rightarrow> bool" where
  "verbose_tick c \<equiv> verbose c \<noteq> 0 \<and> logtick c \<noteq> 0 \<and> ticker c = 1"

definition log_verbose :: "env \<Rightarrow> string \<Rightarrow> farg list \<Rightarrow> ('s conf_state_scheme, unit) proc" where
  "log_verbose E f a = bind (gets cfg) (\<lambda>c. whenp (is_verbose c) (log_msg E LOG_DEBUG f a))"

definition log_tick :: "env \<Rightarrow> string \<Rightarrow> farg list \<Rightarrow> ('s conf_state_scheme, unit) proc" where
  "log_tick E f a = bind (gets cfg) (\<lambda>c. whenp (verbose_tick c) (log_msg E LOG_DEBUG f a))"

section \<open>White space and numbers\<close>

definition is_white :: "char \<Rightarrow> bool" where
  "is_white c \<longleftrightarrow> c = CHR '' '' \<or> c = CHR 0x09 \<or> c = CHR 0x0D \<or> c = CHR 0x0A \<or> c = CHR 0x08"

definition is_number :: "char \<Rightarrow> bool" where
  "is_number c \<longleftrightarrow> isdigit c \<or> c = CHR ''-'' \<or> c = CHR ''+''"

text \<open>The loop from the end of the buffer; the position \<open>ii\<close> is the length of what is left.\<close>

fun trim_loop :: "nat \<Rightarrow> string \<Rightarrow> string" where
  "trim_loop 0 buf = buf"
| "trim_loop (Suc ii) buf =
     (if is_white (buf ! ii) then trim_loop ii (take ii buf) else buf)"

definition trim_white :: "string \<Rightarrow> string" where
  "trim_white buf = trim_loop (length buf) buf"

fun str_start :: "string \<Rightarrow> string" where
  "str_start [] = []"
| "str_start (c # cs) = (if is_white c then str_start cs else c # cs)"

section \<open>Reading values\<close>

text \<open>The limits \<open>read_int_func\<close> enforces when it is given any.\<close>

definition enforce_limits ::
  "env \<Rightarrow> string \<Rightarrow> int \<Rightarrow> int \<Rightarrow> int \<Rightarrow> ('s conf_state_scheme, int) proc" where
  "enforce_limits E arg ii imin imax =
     (if imax > imin then
        if ii > imax then
          andthen (log_msg E LOG_WARNING ''Warning: number too big'' [AStr arg, AInt ii, AInt imax])
          (ret imax)
        else if ii < imin then
          andthen (log_msg E LOG_WARNING ''Warning: number too small'' [AStr arg, AInt ii, AInt imin])
          (ret imin)
        else ret ii
      else ret ii)"

definition read_int_func ::
  "env \<Rightarrow> string \<Rightarrow> string option \<Rightarrow> string \<Rightarrow> int \<Rightarrow> int \<Rightarrow> (int \<Rightarrow> config \<Rightarrow> config) \<Rightarrow>
     ('s conf_state_scheme, int \<times> int option) proc"
where
  "read_int_func E arg val nm imin imax store =
     (if arg = nm then
        (case val of
           Some (c # cs) \<Rightarrow>
             if is_number c then
               bind (enforce_limits E arg (atoi (c # cs)) imin imax) (\<lambda>ii.
               andthen (modify (cfg_update (store ii)))
               (andthen (log_verbose E ''Integer found'' [AStr arg, AInt ii])
               (ret (0, Some ii))))
             else andthen (log_msg E LOG_WARNING ''Warning: number expected'' [AStr arg]) (ret (0, None))
         | _ \<Rightarrow> andthen (log_msg E LOG_WARNING ''Warning: number expected'' [AStr arg]) (ret (0, None)))
      else ret (- 1, None))"

datatype string_read_e = Read_allow_blank | Read_string_only | Read_invalid int

definition read_string_func ::
  "env \<Rightarrow> string \<Rightarrow> string option \<Rightarrow> string \<Rightarrow> string_read_e \<Rightarrow> (string option \<Rightarrow> config \<Rightarrow> config) \<Rightarrow>
     ('s conf_state_scheme, int) proc"
where
  "read_string_func E arg val nm mode store =
     (if arg = nm then
        (case val of
           Some (c # cs) \<Rightarrow>
             bind (xstrdup E (Some (c # cs))) (\<lambda>d.
             andthen (modify (cfg_update (store d)))
             (andthen (log_verbose E ''String found'' [AStr arg, AStr (c # cs)])
             (ret 0)))
         | _ \<Rightarrow>
             (case mode of
                Read_allow_blank \<Rightarrow>
                  andthen (modify (cfg_update (store None)))
                  (andthen (log_verbose E ''String found as blank'' [AStr arg]) (ret 0))
              | Read_string_only \<Rightarrow>
                  andthen (log_msg E LOG_WARNING ''Warning: blank string not allowed'' [AStr arg])
                  (ret 0)
              | Read_invalid m \<Rightarrow>
                  fatal_error E EX_SOFTWARE ''Invalid mode for read_string_func()'' [AInt m]))
      else ret (- 1))"

fun enum_lookup :: "string \<Rightarrow> (string \<times> int) list \<Rightarrow> int option" where
  "enum_lookup v [] = None"
| "enum_lookup v ((n, i) # rest) = (if strcaseeq v n then Some i else enum_lookup v rest)"

definition read_enumerated_func ::
  "env \<Rightarrow> string \<Rightarrow> string option \<Rightarrow> string \<Rightarrow> (string \<times> int) list \<Rightarrow> (int \<Rightarrow> config \<Rightarrow> config) \<Rightarrow>
     ('s conf_state_scheme, int) proc"
where
  "read_enumerated_func E arg val nm tab store =
     (if arg = nm then
        (case val of
           Some (c # cs) \<Rightarrow>
             (case enum_lookup (c # cs) tab of
                Some iv \<Rightarrow>
                  andthen (modify (cfg_update (store iv)))
                  (andthen (log_verbose E ''Variable found'' [AStr arg, AStr (c # cs), AInt iv])
                  (ret 0))
              | None \<Rightarrow>
                  andthen (log_verbose E ''Variable not matched'' [AStr arg, AStr (c # cs)])
                  (ret 0))
         | _ \<Rightarrow> andthen (log_verbose E ''Variable found as blank'' [AStr arg]) (ret 0))
      else ret (- 1))"

section \<open>Lists\<close>

text \<open>\<open>sizeof(struct list)\<close> on the 64-bit targets, and the zeroed node with its name.\<close>

definition sizeof_list :: int where "sizeof_list = 72"

definition new_entry :: "string \<Rightarrow> int \<Rightarrow> entry" where
  "new_entry nm ver = \<lparr>e_name = nm, e_version = ver, last_time = 0, repair_count = 0,
     f_mtime = 0, if_bytes = 0, t_in_use = False, have1 = False, have2 = False, have3 = False,
     net_to = 0, sock_fp = 0, packet = []\<rparr>"

text \<open>Walking to the end of a non-empty list to link the new node there.\<close>

fun link_at_end :: "entry list \<Rightarrow> entry \<Rightarrow> entry list" where
  "link_at_end [] new = [new]"
| "link_at_end (act # rest) new = act # link_at_end rest new"

definition add_list ::
  "env \<Rightarrow> entry list \<Rightarrow> string option \<Rightarrow> int \<Rightarrow> ('s log_state_scheme, entry list) proc" where
  "add_list E lst nm ver =
     (case nm of
        None \<Rightarrow> ret lst
      | Some n \<Rightarrow>
          bind (xcalloc E 1 sizeof_list) (\<lambda>_.
          bind (xstrdup E (Some n)) (\<lambda>d.
          ret (link_at_end lst (new_entry (case d of Some n' \<Rightarrow> n' | None \<Rightarrow> []) ver)))))"

definition read_list_func ::
  "env \<Rightarrow> string \<Rightarrow> string option \<Rightarrow> string \<Rightarrow> int \<Rightarrow> entry list \<Rightarrow>
     ('s conf_state_scheme, int \<times> entry list) proc"
where
  "read_list_func E arg val nm ver lst =
     (if arg = nm then
        (case val of
           Some (c # cs) \<Rightarrow>
             bind (add_list E lst (Some (c # cs)) ver) (\<lambda>lst'.
             andthen (log_verbose E ''List added'' [AStr arg, AStr (c # cs)])
             (ret (0, lst')))
         | _ \<Rightarrow> andthen (log_msg E LOG_WARNING ''Warning: string expected'' [AStr arg]) (ret (0, lst)))
      else ret (- 1, lst))"

definition free_list :: "entry list \<Rightarrow> entry list" where
  "free_list lst = []"

section \<open>Facts\<close>

lemma is_white_nul [simp]: "\<not> is_white NUL"
  by (simp add: is_white_def)

lemma is_number_nul [simp]: "\<not> is_number NUL"
  by (simp add: is_number_def isdigit_def)

lemma str_start_dropWhile: "str_start s = dropWhile is_white s"
  by (induction s) auto

lemma trim_loop_dropWhile:
  "trim_loop (length buf) buf = rev (dropWhile is_white (rev buf))"
proof (induction "length buf" arbitrary: buf)
  case (Suc n)
  then obtain b c where b: "buf = b @ [c]" "length b = n"
    by (metis append_butlast_last_id length_butlast diff_Suc_1 length_0_conv nat.distinct(1))
  have "(b @ [c]) ! length b = c" by simp
  with b Suc(1) [of b] show ?case by auto
qed simp

lemma trim_white_dropWhile: "trim_white buf = rev (dropWhile is_white (rev buf))"
  by (simp add: trim_white_def trim_loop_dropWhile)

lemma link_at_end_append: "link_at_end lst new = lst @ [new]"
  by (induction lst) auto

lemma log_verbose_apply_cfg: "keeps cfg (log_verbose E f a)"
  unfolding log_verbose_def by (intro keeps_intro) (simp add: log_frame_def)

lemma log_verbose_keeps [keeps_intro]: "log_frame g \<Longrightarrow> keeps g (log_verbose E f a)"
  unfolding log_verbose_def by (intro keeps_intro)

lemma log_tick_keeps [keeps_intro]: "log_frame g \<Longrightarrow> keeps g (log_tick E f a)"
  unfolding log_tick_def by (intro keeps_intro)

lemma log_verbose_returns [returns_intro, simp]: "returns (log_verbose E f a)"
  unfolding log_verbose_def by (intro returns_intro)

lemma log_tick_returns [returns_intro, simp]: "returns (log_tick E f a)"
  unfolding log_tick_def by (intro returns_intro)

lemma log_verbose_emits [emits_intro]:
  "(\<And>c. is_log_call c \<Longrightarrow> P c) \<Longrightarrow> emits P (log_verbose E f a)"
  unfolding log_verbose_def by (intro emits_intro)

lemma log_tick_emits [emits_intro]:
  "(\<And>c. is_log_call c \<Longrightarrow> P c) \<Longrightarrow> emits P (log_tick E f a)"
  unfolding log_tick_def by (intro emits_intro)

lemma log_verbose_runs [runs_intro]:
  "log_frame I \<Longrightarrow> (\<And>c. is_log_call c \<Longrightarrow> Q c) \<Longrightarrow> runs I Q (log_verbose E f a)"
  unfolding log_verbose_def by (intro runs_intro)

lemma log_tick_runs [runs_intro]:
  "log_frame I \<Longrightarrow> (\<And>c. is_log_call c \<Longrightarrow> Q c) \<Longrightarrow> runs I Q (log_tick E f a)"
  unfolding log_tick_def by (intro runs_intro)

lemma log_frame_cfg [simp]: "log_frame cfg"
  by (simp add: log_frame_def)

lemma cfg_logged [simp]: "cfg (logged E l f a s) = cfg s"
  by (rule logged_frame) simp

text \<open>The state after a message that only the verbose mode prints.\<close>

definition noted :: "env \<Rightarrow> string \<Rightarrow> farg list \<Rightarrow> 's conf_state_scheme \<Rightarrow> 's conf_state_scheme" where
  "noted E f a s = (if is_verbose (cfg s) then logged E LOG_DEBUG f a s else s)"

definition ticked :: "env \<Rightarrow> string \<Rightarrow> farg list \<Rightarrow> 's conf_state_scheme \<Rightarrow> 's conf_state_scheme" where
  "ticked E f a s = (if verbose_tick (cfg s) then logged E LOG_DEBUG f a s else s)"

lemma log_verbose_apply: "log_verbose E f a s = (Ret (), noted E f a s)"
  by (simp add: log_verbose_def noted_def log_run)

lemma log_tick_apply: "log_tick E f a s = (Ret (), ticked E f a s)"
  by (simp add: log_tick_def ticked_def log_run)

lemma log_verbose_run:
  "bind (log_verbose E f a) k s = k () (noted E f a s)"
  "andthen (log_verbose E f a) n s = n (noted E f a s)"
  "bind (log_tick E f a) k s = k () (ticked E f a s)"
  "andthen (log_tick E f a) n s = n (ticked E f a s)"
  by (simp_all add: log_verbose_apply log_tick_apply bind_apply_Ret andthen_apply_Ret)

lemmas logs_run = log_run log_verbose_apply log_tick_apply log_verbose_run

lemma noted_frame: "log_frame g \<Longrightarrow> g (noted E f a s) = g s"
  by (simp add: noted_def logged_frame)

lemma ticked_frame: "log_frame g \<Longrightarrow> g (ticked E f a s) = g s"
  by (simp add: ticked_def logged_frame)

lemma calls_noted: "(\<And>c. is_log_call c \<Longrightarrow> \<not> P c) \<Longrightarrow> calls P (noted E f a s) = calls P s"
  by (simp add: noted_def calls_logged)

lemma calls_ticked: "(\<And>c. is_log_call c \<Longrightarrow> \<not> P c) \<Longrightarrow> calls P (ticked E f a s) = calls P s"
  by (simp add: ticked_def calls_logged)

lemmas logs_frame = logged_frame noted_frame ticked_frame
lemmas calls_logs = calls_logged calls_noted calls_ticked

lemma cfg_logs [simp]: "cfg (noted E f a s) = cfg s" "cfg (ticked E f a s) = cfg s"
  by (simp_all add: logs_frame)

lemma returns_enforce_limits [returns_intro, simp]: "returns (enforce_limits E arg ii imin imax)"
  unfolding enforce_limits_def by (intro returns_intro)

lemma enforce_limits_keeps [keeps_intro]:
  "log_frame g \<Longrightarrow> keeps g (enforce_limits E arg ii imin imax)"
  unfolding enforce_limits_def by (intro keeps_intro)

definition clip :: "int \<Rightarrow> int \<Rightarrow> int \<Rightarrow> int" where
  "clip imin imax i = (if imin < imax then max imin (min imax i) else i)"

definition int_setting :: "string \<Rightarrow> string option \<Rightarrow> string \<Rightarrow> int \<Rightarrow> int \<Rightarrow> int option" where
  "int_setting arg val nm imin imax =
     (case val of
        Some (c # cs) \<Rightarrow> if arg = nm \<and> is_number c then Some (clip imin imax (atoi (c # cs))) else None
      | _ \<Rightarrow> None)"

lemma enforce_limits_yields:
  "yields (\<lambda>i. i = clip imin imax ii) (enforce_limits E arg ii imin imax)"
  unfolding enforce_limits_def by (intro yields_intro) (auto simp: clip_def)

lemma returns_read_int_func [returns_intro, simp]:
  "returns (read_int_func E arg val nm imin imax store)"
  unfolding read_int_func_def by (intro returns_intro)

lemma returns_read_enumerated_func [returns_intro, simp]:
  "returns (read_enumerated_func E arg val nm tab store)"
  unfolding read_enumerated_func_def by (intro returns_intro)

text \<open>\<open>trim_white\<close> removes exactly the trailing white space: the result is a prefix, what
  was cut off is white, and the result does not end in white space.\<close>

lemma trim_white_spec:
  "\<exists>ws. buf = trim_white buf @ ws \<and> list_all is_white ws \<and>
     (trim_white buf = [] \<or> \<not> is_white (last (trim_white buf)))"
proof -
  let ?w = "rev (takeWhile is_white (rev buf))"
  have "buf = trim_white buf @ ?w"
    unfolding trim_white_dropWhile
    by (metis rev_append rev_rev_ident takeWhile_dropWhile_id)
  moreover have "list_all is_white ?w"
    by (auto simp: list_all_iff dest: set_takeWhileD)
  moreover have "trim_white buf = [] \<or> \<not> is_white (last (trim_white buf))"
    unfolding trim_white_dropWhile by (metis hd_dropWhile last_rev rev_is_Nil_conv)
  ultimately show ?thesis by blast
qed

lemma read_int_func_run:
  "\<exists>s'. read_int_func E arg val nm imin imax store s =
       (Ret (if arg = nm then 0 else - 1, int_setting arg val nm imin imax), s') \<and>
     cfg s' = (case int_setting arg val nm imin imax of None \<Rightarrow> cfg s | Some i \<Rightarrow> store i (cfg s)) \<and>
     (arg \<noteq> nm \<longrightarrow> s' = s)"
proof (cases "arg = nm \<and> (\<exists>c cs. val = Some (c # cs) \<and> is_number c)")
  case True
  then obtain c cs where v: "val = Some (c # cs)" "is_number c" and nm: "arg = nm" by blast
  obtain i s1 where 1: "enforce_limits E arg (atoi (c # cs)) imin imax s = (Ret i, s1)"
    using returns_enforce_limits by (rule returnsE)
  then have i: "i = clip imin imax (atoi (c # cs))"
    using enforce_limits_yields by (rule yieldsD [rotated])
  have c1: "cfg s1 = cfg s" using enforce_limits_keeps [OF log_frame_cfg] 1 by (rule keepsD)
  let ?s2 = "cfg_update (store i) s1"
  obtain s3 where 3: "log_verbose E ''Integer found'' [AStr arg, AInt i] ?s2 = (Ret (), s3)"
    using log_verbose_returns by (rule returns_unitE)
  then have "cfg s3 = store i (cfg s)"
    using keepsD [OF log_verbose_apply_cfg 3] c1 by simp
  with 1 3 v nm i show ?thesis
    by (simp add: read_int_func_def int_setting_def bind_apply_Ret andthen_apply_Ret)
next
  case False
  obtain s1 where 1: "log_msg E LOG_WARNING ''Warning: number expected'' [AStr arg] s = (Ret (), s1)"
    using log_returns(5) by (rule returns_unitE)
  then have "cfg s1 = cfg s" using log_msg_keeps [OF log_frame_cfg] by (rule keepsD [rotated])
  with 1 False show ?thesis
    by (auto simp: read_int_func_def int_setting_def andthen_apply_Ret split: option.split list.split)
qed

text \<open>\<open>read_int_func\<close> on a matching name returns 0 and stores the number clipped to the
  limits when limits are given (\<open>imin < imax\<close>), the number itself otherwise; a value that does
  not look like a number stores nothing; a different name gives -1 and changes nothing at all.\<close>

lemma read_int_func_spec:
  "\<exists>s'. read_int_func E arg val nm imin imax store s =
       (Ret (if arg = nm then 0 else - 1, int_setting arg val nm imin imax), s') \<and>
     cfg s' = (case int_setting arg val nm imin imax of None \<Rightarrow> cfg s | Some i \<Rightarrow> store i (cfg s)) \<and>
     (arg \<noteq> nm \<longrightarrow> s' = s)"
  by (rule read_int_func_run)

end
