(* ===== verification/ConfigFile.thy ===== *)
theory ConfigFile
  imports ReadConf
begin

text \<open>
  \<^verbatim>\<open>src/configfile.c\<close>: the initial values of the global configuration, the parsing of the
  configuration file line by line, and the search for test binaries.

  A line is classified by \<open>split_line\<close>; an assignment runs down the source's chain of
  \<open>READ_*\<close> calls (\<open>config_chain\<close>) until one of them recognises the name. Compile-time
  settings have the defaults of \<^verbatim>\<open>configure.ac\<close>.
\<close>

unbundle bit_operations_syntax

section \<open>Defaults\<close>

definition TIMER_MARGIN :: int where "TIMER_MARGIN = 60"
definition MINLOAD :: int where "MINLOAD = 2"
definition PATH_MAX :: nat where "PATH_MAX = 4096"
definition TESTBIN_PATH :: string where "TESTBIN_PATH = ''/etc/watchdog.d''"
definition CONFIG_FILENAME :: string where "CONFIG_FILENAME = ''/etc/watchdog.conf''"

definition initial_config :: config where
  "initial_config = \<lparr>tint = 1, logtick = 1, ticker = 1, schedprio = 1, maxload1 = 0, maxload5 = 0,
     maxload15 = 0, minpages = 0, minalloc = 0, maxtemp = 90, pingcount = 3, temp_poweroff = 1,
     sigterm_delay = 5, repair_max = 1, devname = None, admin = Some ''root'',
     test_timeout = TIMER_MARGIN, repair_timeout = TIMER_MARGIN, dev_timeout = TIMER_MARGIN,
     retry_timeout = TIMER_MARGIN, logdir = Some ''/var/log/watchdog'', heartbeat = None,
     hbstamps = 300, refresh_use_settimeout = ENUM_AUTO, realtime = 0, tr_bin_list = [],
     file_list = [], target_list = [], pidfile_list = [], iface_list = [], temp_list = [],
     repair_bin = None, softboot = 0, verbose = 0, test_dir = Some TESTBIN_PATH\<rparr>"

definition Yes_No_list :: "(string \<times> int) list" where
  "Yes_No_list = [(''no'', 0), (''yes'', 1)]"

definition YN_Auto_list :: "(string \<times> int) list" where
  "YN_Auto_list = [(''no'', ENUM_NO), (''yes'', ENUM_YES), (''auto'', ENUM_AUTO)]"

section \<open>One line\<close>

datatype line_kind = Blank | NoAssign | Assign string string

definition split_line :: "string \<Rightarrow> line_kind" where
  "split_line line =
     (let arg = str_start (cstr line) in
      case arg of
        [] \<Rightarrow> Blank
      | c # _ \<Rightarrow>
          if c = CHR ''#'' then Blank
          else (case strchr arg (CHR ''='') of
                  None \<Rightarrow> NoAssign
                | Some v \<Rightarrow>
                    Assign (trim_white (take (length arg - length v) arg))
                           (trim_white (str_start (tl v)))))"

definition READ_INT ::
  "env \<Rightarrow> string \<Rightarrow> string \<Rightarrow> string \<Rightarrow> (int \<Rightarrow> config \<Rightarrow> config) \<Rightarrow> ('s conf_state_scheme, int) proc" where
  "READ_INT E arg val nm store =
     bind (read_int_func E arg (Some val) nm 0 0 store) (\<lambda>(r, _). ret r)"

definition READ_STRING ::
  "env \<Rightarrow> string \<Rightarrow> string \<Rightarrow> string \<Rightarrow> (string option \<Rightarrow> config \<Rightarrow> config) \<Rightarrow>
     ('s conf_state_scheme, int) proc" where
  "READ_STRING E arg val nm store = read_string_func E arg (Some val) nm Read_allow_blank store"

definition READ_ENUM ::
  "env \<Rightarrow> (string \<times> int) list \<Rightarrow> string \<Rightarrow> string \<Rightarrow> string \<Rightarrow> (int \<Rightarrow> config \<Rightarrow> config) \<Rightarrow>
     ('s conf_state_scheme, int) proc" where
  "READ_ENUM E tab arg val nm store = read_enumerated_func E arg (Some val) nm tab store"

definition READ_LIST ::
  "env \<Rightarrow> string \<Rightarrow> string \<Rightarrow> string \<Rightarrow> (config \<Rightarrow> entry list) \<Rightarrow> (entry list \<Rightarrow> config \<Rightarrow> config) \<Rightarrow>
     ('s conf_state_scheme, int) proc" where
  "READ_LIST E arg val nm get put =
     bind (gets cfg) (\<lambda>c.
     bind (read_list_func E arg (Some val) nm 0 (get c)) (\<lambda>(r, l).
     andthen (modify (cfg_update (put l)))
     (ret r)))"

text \<open>The \<open>change\<close> option belongs to the last file of the list.\<close>

definition READ_CHANGE :: "env \<Rightarrow> int \<Rightarrow> string \<Rightarrow> string \<Rightarrow> ('s conf_state_scheme, int) proc" where
  "READ_CHANGE E linecount arg val =
     bind (read_int_func E arg (Some val) ''change'' 0 0 (\<lambda>_ c. c)) (\<lambda>(r, v).
     if r = 0 then
       bind (gets (file_list \<circ> cfg)) (\<lambda>files.
       andthen
         (if files = [] then
            log_msg E LOG_WARNING ''Warning: file change interval, but no file (yet)'' [AInt linecount]
          else
            andthen
              (whenp (f_mtime (last files) \<noteq> 0)
                 (log_msg E LOG_WARNING ''Warning: duplicate change interval'' [AInt linecount]))
            (modify (cfg_update (file_list_update (\<lambda>_.
               butlast files @ [(last files)\<lparr>f_mtime := (case v of None \<Rightarrow> 0 | Some i \<Rightarrow> i)\<rparr>])))))
       (ret r))
     else ret r)"

definition READ_LOGTICK :: "env \<Rightarrow> string \<Rightarrow> string \<Rightarrow> ('s conf_state_scheme, int) proc" where
  "READ_LOGTICK E arg val =
     bind (READ_INT E arg val ''logtick'' (\<lambda>i. logtick_update (\<lambda>_. i))) (\<lambda>r.
     andthen (whenp (r = 0) (modify (cfg_update (\<lambda>c. c\<lparr>ticker := logtick c\<rparr>))))
     (ret r))"

text \<open>An \<open>if ... == 0 {} else if ...\<close> chain.\<close>

fun first_match :: "('s, int) proc list \<Rightarrow> ('s, unit) proc \<Rightarrow> ('s, unit) proc" where
  "first_match [] otherwise = otherwise"
| "first_match (m # ms) otherwise = bind m (\<lambda>r. if r = 0 then ret () else first_match ms otherwise)"

definition config_chain :: "env \<Rightarrow> int \<Rightarrow> string \<Rightarrow> string \<Rightarrow> ('s conf_state_scheme, int) proc list" where
  "config_chain E linecount arg val =
    [READ_LIST E arg val ''file'' file_list (\<lambda>l. file_list_update (\<lambda>_. l)),
     READ_CHANGE E linecount arg val,
     READ_LIST E arg val ''pidfile'' pidfile_list (\<lambda>l. pidfile_list_update (\<lambda>_. l)),
     READ_INT E arg val ''ping-count'' (\<lambda>i. pingcount_update (\<lambda>_. i)),
     READ_LIST E arg val ''ping'' target_list (\<lambda>l. target_list_update (\<lambda>_. l)),
     READ_LIST E arg val ''interface'' iface_list (\<lambda>l. iface_list_update (\<lambda>_. l)),
     READ_ENUM E Yes_No_list arg val ''realtime'' (\<lambda>i. realtime_update (\<lambda>_. i)),
     READ_INT E arg val ''priority'' (\<lambda>i. schedprio_update (\<lambda>_. i)),
     READ_STRING E arg val ''repair-binary'' (\<lambda>v. repair_bin_update (\<lambda>_. v)),
     READ_INT E arg val ''repair-timeout'' (\<lambda>i. repair_timeout_update (\<lambda>_. i)),
     READ_LIST E arg val ''test-binary'' tr_bin_list (\<lambda>l. tr_bin_list_update (\<lambda>_. l)),
     READ_INT E arg val ''test-timeout'' (\<lambda>i. test_timeout_update (\<lambda>_. i)),
     READ_STRING E arg val ''heartbeat-file'' (\<lambda>v. heartbeat_update (\<lambda>_. v)),
     READ_INT E arg val ''heartbeat-stamps'' (\<lambda>i. hbstamps_update (\<lambda>_. i)),
     READ_STRING E arg val ''admin'' (\<lambda>v. admin_update (\<lambda>_. v)),
     READ_INT E arg val ''interval'' (\<lambda>i. tint_update (\<lambda>_. i)),
     READ_LOGTICK E arg val,
     READ_STRING E arg val ''watchdog-device'' (\<lambda>v. devname_update (\<lambda>_. v)),
     READ_ENUM E YN_Auto_list arg val ''watchdog-refresh-use-settimeout''
       (\<lambda>i. refresh_use_settimeout_update (\<lambda>_. i)),
     READ_INT E arg val ''watchdog-timeout'' (\<lambda>i. dev_timeout_update (\<lambda>_. i)),
     READ_LIST E arg val ''temperature-sensor'' temp_list (\<lambda>l. temp_list_update (\<lambda>_. l)),
     READ_INT E arg val ''max-temperature'' (\<lambda>i. maxtemp_update (\<lambda>_. i)),
     READ_INT E arg val ''max-load-1'' (\<lambda>i. maxload1_update (\<lambda>_. i)),
     READ_INT E arg val ''max-load-5'' (\<lambda>i. maxload5_update (\<lambda>_. i)),
     READ_INT E arg val ''max-load-15'' (\<lambda>i. maxload15_update (\<lambda>_. i)),
     READ_INT E arg val ''min-memory'' (\<lambda>i. minpages_update (\<lambda>_. i)),
     READ_INT E arg val ''allocatable-memory'' (\<lambda>i. minalloc_update (\<lambda>_. i)),
     READ_STRING E arg val ''log-dir'' (\<lambda>v. logdir_update (\<lambda>_. v)),
     READ_STRING E arg val ''test-directory'' (\<lambda>v. test_dir_update (\<lambda>_. v)),
     READ_ENUM E Yes_No_list arg val ''softboot-option'' (\<lambda>i. softboot_update (\<lambda>_. i)),
     READ_ENUM E Yes_No_list arg val ''temp-power-off'' (\<lambda>i. temp_poweroff_update (\<lambda>_. i)),
     READ_INT E arg val ''sigterm-delay'' (\<lambda>i. sigterm_delay_update (\<lambda>_. i)),
     READ_INT E arg val ''retry-timeout'' (\<lambda>i. retry_timeout_update (\<lambda>_. i)),
     READ_INT E arg val ''repair-maximum'' (\<lambda>i. repair_max_update (\<lambda>_. i)),
     READ_ENUM E Yes_No_list arg val ''verbose'' (\<lambda>i. verbose_update (\<lambda>_. i))]"

definition config_line :: "env \<Rightarrow> int \<Rightarrow> string \<Rightarrow> ('s conf_state_scheme, unit) proc" where
  "config_line E linecount line =
     (case split_line line of
        Blank \<Rightarrow> ret ()
      | NoAssign \<Rightarrow> log_msg E LOG_WARNING ''Warning: no = assignment'' [AInt linecount]
      | Assign arg val \<Rightarrow>
          first_match (config_chain E linecount arg val)
            (log_msg E LOG_WARNING ''Ignoring invalid option'' [AInt linecount, AStr arg, AStr val]))"

section \<open>The whole file\<close>

fun config_lines :: "env \<Rightarrow> int \<Rightarrow> string list \<Rightarrow> ('s conf_state_scheme, unit) proc" where
  "config_lines E n [] = ret ()"
| "config_lines E n (l # ls) = andthen (config_line E (n + 1) l) (config_lines E (n + 1) ls)"

definition S_ISDIR :: "int \<Rightarrow> bool" where "S_ISDIR m \<longleftrightarrow> m AND 61440 = 16384"
definition S_ISREG :: "int \<Rightarrow> bool" where "S_ISREG m \<longleftrightarrow> m AND 61440 = 32768"
definition S_ISLNK :: "int \<Rightarrow> bool" where "S_ISLNK m \<longleftrightarrow> m AND 61440 = 40960"
definition S_IXUSR :: int where "S_IXUSR = 64"
definition S_IRUSR :: int where "S_IRUSR = 256"

definition append_test_binary :: "env \<Rightarrow> string \<Rightarrow> ('s conf_state_scheme, unit) proc" where
  "append_test_binary E fname =
     andthen (log_verbose E ''adding to list of auto-repair binaries'' [AStr fname])
     (bind (gets (tr_bin_list \<circ> cfg)) (\<lambda>l.
      bind (add_list E l (Some fname) 1) (\<lambda>l'.
      modify (cfg_update (tr_bin_list_update (\<lambda>_. l'))))))"

definition test_binary_entry :: "env \<Rightarrow> string \<Rightarrow> string \<Rightarrow> ('s conf_state_scheme, unit) proc" where
  "test_binary_entry E path d_name =
     (let fname = path @ ''/'' @ d_name in
      if length fname \<ge> PATH_MAX then ret ()
      else bind (fsys E (Stat fname)) (\<lambda>r.
        if rv r < 0 then ret ()
        else if \<not> S_ISREG (v1 r) then ret ()
        else if d_name \<noteq> [] \<and> hd d_name = CHR ''.'' then
          log_msg E LOG_WARNING ''skipping hidden file'' [AStr fname]
        else if v1 r AND S_IXUSR = 0 then ret ()
        else if v1 r AND S_IRUSR = 0 then ret ()
        else append_test_binary E fname))"

definition add_test_binaries :: "env \<Rightarrow> string option \<Rightarrow> ('s conf_state_scheme, unit) proc" where
  "add_test_binaries E path =
     (case path of
        None \<Rightarrow> ret ()
      | Some p \<Rightarrow>
          bind (fsys E (Stat p)) (\<lambda>r.
          if rv r < 0 then ret ()
          else if \<not> S_ISDIR (v1 r) then ret ()
          else bind (fsys E (Opendir p)) (\<lambda>d.
            if rv d = 0 then ret ()
            else andthen (run_all (map (test_binary_entry E p) (names d)))
                 (do_sys E (FileCall (Closedir (rv d)))))))"

definition default_loads :: "config \<Rightarrow> config" where
  "default_loads c =
     (let c1 = (if maxload1 c \<noteq> 0 \<and> maxload5 c = 0
                then c\<lparr>maxload5 := int32 (maxload1 c * 3) sdiv 4\<rparr> else c)
      in if maxload1 c1 \<noteq> 0 \<and> maxload15 c1 = 0
         then c1\<lparr>maxload15 := maxload1 c1 sdiv 2\<rparr> else c1)"

definition read_config :: "env \<Rightarrow> string \<Rightarrow> ('s conf_state_scheme, unit) proc" where
  "read_config E configfile =
     andthen (modify (cfg_update (\<lambda>c. c\<lparr>maxload5 := 0, maxload15 := 0\<rparr>)))
     (bind (fsys E (Fopen configfile ''r'')) (\<lambda>wc.
      if rv wc = 0 then fatal_error E EX_SYSERR ''Cannot open config file'' [AStr configfile, AInt (err wc)]
      else
        andthen (config_lines E 0 (getlines (dat wc)))
        (bind (fsys E (Fclose (rv wc))) (\<lambda>r.
         if rv r \<noteq> 0 then fatal_error E EX_SYSERR ''Error closing file'' [AStr configfile, AInt (err r)]
         else
           bind (gets (test_dir \<circ> cfg)) (\<lambda>td.
           andthen (add_test_binaries E td)
           (bind (gets (tint \<circ> cfg)) (\<lambda>t.
            if t \<le> 0 then
              fatal_error E EX_SYSERR ''Parameter must be > 0'' [AStr ''interval'', AInt t, AStr configfile]
            else modify (cfg_update default_loads))))))))"

section \<open>Parsing a line\<close>

text \<open>A key and a value that the line syntax can carry unchanged.\<close>

definition plain_key :: "string \<Rightarrow> bool" where
  "plain_key k \<longleftrightarrow> k \<noteq> [] \<and> hd k \<noteq> CHR ''#'' \<and>
     list_all (\<lambda>c. c \<noteq> NUL \<and> c \<noteq> CHR ''='' \<and> \<not> is_white c) k"

definition plain_value :: "string \<Rightarrow> bool" where
  "plain_value v \<longleftrightarrow> v \<noteq> [] \<and> list_all (\<lambda>c. c \<noteq> NUL \<and> \<not> is_white c) v"

definition assignment :: "string \<Rightarrow> string \<Rightarrow> string" where
  "assignment k v = k @ '' = '' @ v @ [CHR 0x0A]"

lemma dropWhile_white_plain: "list_all (\<lambda>c. c \<noteq> x \<and> \<not> is_white c) v \<Longrightarrow> dropWhile is_white v = v"
  by (cases v) auto

lemma trim_white_snoc: "\<not> is_white c \<Longrightarrow> list_all is_white ws \<Longrightarrow> trim_white (v @ c # ws) = v @ [c]"
  by (simp add: trim_white_dropWhile dropWhile_append list_all_iff)

lemma trim_white_plain:
  assumes "v \<noteq> []" and "list_all (\<lambda>c. \<not> is_white c) v" and "list_all is_white ws"
  shows "trim_white (v @ ws) = v"
proof -
  obtain w c where "v = w @ [c]" using assms(1) by (meson rev_exhaust)
  then show ?thesis using assms(2,3) trim_white_snoc [of c ws w] by simp
qed

lemma split_line_assignment:
  assumes "plain_key k" and "plain_value v"
  shows "split_line (assignment k v) = Assign k v"
proof -
  obtain a k' where k: "k = a # k'" using assms(1) by (auto simp: plain_key_def neq_Nil_conv)
  obtain b v' where v: "v = b # v'" using assms(2) by (auto simp: plain_value_def neq_Nil_conv)
  have nul: "NUL \<notin> set (assignment k v)"
    using assms by (auto simp: assignment_def plain_key_def plain_value_def list_all_iff)
  have start: "str_start (assignment k v) = assignment k v"
    using assms(1) k by (simp add: plain_key_def assignment_def)
  have eq: "strchr (assignment k v) (CHR ''='') = Some (''= '' @ v @ [CHR 0x0A])"
    using strchr_append [of "CHR ''=''" "k @ '' ''" "'' '' @ v @ [CHR 0x0A]"] assms(1)
    by (auto simp: assignment_def plain_key_def list_all_iff)
  have white: "is_white (CHR '' '')" "is_white (CHR 0x0A)" by (simp_all add: is_white_def)
  have "trim_white (k @ '' '') = k"
    using assms(1) white by (intro trim_white_plain) (auto simp: plain_key_def list_all_iff)
  moreover have "trim_white (v @ [CHR 0x0A]) = v"
    using assms(2) white by (intro trim_white_plain) (auto simp: plain_value_def list_all_iff)
  moreover have "str_start ('' '' @ v @ [CHR 0x0A]) = v @ [CHR 0x0A]"
    using assms(2) v white by (simp add: plain_value_def)
  moreover have "a \<noteq> CHR ''#''" using assms(1) k by (simp add: plain_key_def)
  moreover have "take (length (assignment k v) - length (''= '' @ v @ [CHR 0x0A])) (assignment k v) = k @ '' ''"
    by (simp add: assignment_def)
  moreover obtain l where l: "assignment k v = a # l" by (simp add: assignment_def k)
  ultimately show ?thesis
    using eq unfolding split_line_def cstr_id [OF nul] start Let_def
    unfolding l by (simp del: strchr.simps)
qed

lemma plain_value_show_int: "plain_value (show_int i)"
proof -
  have "list_all (\<lambda>c. c \<noteq> NUL \<and> \<not> is_white c) (show_nat n)" for n
    using show_nat_digits [of n] by (auto simp: list_all_iff isdigit_def is_white_def)
  then show ?thesis by (auto simp: plain_value_def show_int_def is_white_def)
qed

lemma is_number_show_int: "is_number (hd (show_int i))"
proof -
  have "isdigit (hd (show_nat n))" for n
    using show_nat_digits [of n] show_nat_nonempty [of n] by (cases "show_nat n") auto
  then show ?thesis by (simp add: show_int_def is_number_def)
qed

lemma show_int_nonempty [simp]: "show_int i \<noteq> []"
  by (simp add: show_int_def)

text \<open>A \<open>READ_*\<close> call for another name does nothing; for its own name it stores.\<close>

lemma READ_INT_other [simp]: "arg \<noteq> nm \<Longrightarrow> READ_INT E arg val nm st s = (Ret (- 1), s)"
  by (simp add: READ_INT_def read_int_func_def)

lemma READ_STRING_other [simp]: "arg \<noteq> nm \<Longrightarrow> READ_STRING E arg val nm st s = (Ret (- 1), s)"
  by (simp add: READ_STRING_def read_string_func_def)

lemma READ_ENUM_other [simp]: "arg \<noteq> nm \<Longrightarrow> READ_ENUM E tab arg val nm st s = (Ret (- 1), s)"
  by (simp add: READ_ENUM_def read_enumerated_func_def)

lemma READ_LIST_other [simp]:
  "arg \<noteq> nm \<Longrightarrow> (\<And>c. put (get c) c = c) \<Longrightarrow> READ_LIST E arg val nm get put s = (Ret (- 1), s)"
  by (simp add: READ_LIST_def read_list_func_def)

lemma READ_CHANGE_other [simp]: "arg \<noteq> ''change'' \<Longrightarrow> READ_CHANGE E n arg val s = (Ret (- 1), s)"
  by (simp add: READ_CHANGE_def read_int_func_def)

lemma READ_LOGTICK_other [simp]: "arg \<noteq> ''logtick'' \<Longrightarrow> READ_LOGTICK E arg val s = (Ret (- 1), s)"
  by (simp add: READ_LOGTICK_def bind_apply_Ret)

lemma READ_INT_match:
  assumes "val \<noteq> []" and "is_number (hd val)"
  shows "\<exists>s'. READ_INT E nm val nm st s = (Ret 0, s') \<and> cfg s' = st (atoi val) (cfg s)"
proof -
  obtain c cs where "val = c # cs" using assms(1) by (meson neq_Nil_conv)
  then have "int_setting nm (Some val) nm 0 0 = Some (atoi val)"
    using assms(2) by (simp add: int_setting_def clip_def)
  with read_int_func_run [of E nm "Some val" nm 0 0 st s] show ?thesis
    by (auto simp: READ_INT_def bind_apply_Ret)
qed

lemma first_match_skip: "m s = (Ret (- 1), s) \<Longrightarrow> first_match (m # ms) d s = first_match ms d s"
  by (simp add: bind_apply_Ret)

lemma first_match_hit: "m s = (Ret 0, s') \<Longrightarrow> first_match (m # ms) d s = (Ret (), s')"
  by (simp add: bind_apply_Ret)

text \<open>The options that \<open>READ_INT\<close> reads, with the variable each one sets.\<close>

definition int_options :: "(string \<times> (int \<Rightarrow> config \<Rightarrow> config)) list" where
  "int_options =
    [(''ping-count'', \<lambda>i. pingcount_update (\<lambda>_. i)),
     (''priority'', \<lambda>i. schedprio_update (\<lambda>_. i)),
     (''repair-timeout'', \<lambda>i. repair_timeout_update (\<lambda>_. i)),
     (''test-timeout'', \<lambda>i. test_timeout_update (\<lambda>_. i)),
     (''heartbeat-stamps'', \<lambda>i. hbstamps_update (\<lambda>_. i)),
     (''interval'', \<lambda>i. tint_update (\<lambda>_. i)),
     (''watchdog-timeout'', \<lambda>i. dev_timeout_update (\<lambda>_. i)),
     (''max-temperature'', \<lambda>i. maxtemp_update (\<lambda>_. i)),
     (''max-load-1'', \<lambda>i. maxload1_update (\<lambda>_. i)),
     (''max-load-5'', \<lambda>i. maxload5_update (\<lambda>_. i)),
     (''max-load-15'', \<lambda>i. maxload15_update (\<lambda>_. i)),
     (''min-memory'', \<lambda>i. minpages_update (\<lambda>_. i)),
     (''allocatable-memory'', \<lambda>i. minalloc_update (\<lambda>_. i)),
     (''sigterm-delay'', \<lambda>i. sigterm_delay_update (\<lambda>_. i)),
     (''retry-timeout'', \<lambda>i. retry_timeout_update (\<lambda>_. i)),
     (''repair-maximum'', \<lambda>i. repair_max_update (\<lambda>_. i))]"

lemma int_options_plain: "(k, st) \<in> set int_options \<Longrightarrow> plain_key k"
  by (auto simp: int_options_def plain_key_def is_white_def)

lemma config_chain_int_option:
  assumes "(k, st) \<in> set int_options" and "READ_INT E k val k st s = (Ret 0, s')"
  shows "first_match (config_chain E n k val) d s = (Ret (), s')"
  using assms
  by (auto simp: int_options_def config_chain_def first_match_skip first_match_hit
      simp del: first_match.simps)

text \<open>Writing an integer option and reading it back: for each integer option of the
  configuration file, the line \<open>name = number\<close> sets that variable to exactly that number
  and leaves every other variable as it was, for every number of the range of \<open>int\<close>.\<close>

lemma config_line_int_roundtrip:
  assumes "(k, st) \<in> set int_options" and "INT_MIN \<le> i" and "i \<le> INT_MAX"
  shows "\<exists>s'. config_line E n (assignment k (show_int i)) s = (Ret (), s') \<and>
     cfg s' = st i (cfg s)"
proof -
  have "split_line (assignment k (show_int i)) = Assign k (show_int i)"
    using int_options_plain [OF assms(1)] plain_value_show_int by (rule split_line_assignment)
  moreover obtain s' where run: "READ_INT E k (show_int i) k st s = (Ret 0, s')"
    and "cfg s' = st (atoi (show_int i)) (cfg s)"
    using READ_INT_match [of "show_int i" E k st s] is_number_show_int by auto
  moreover have "atoi (show_int i) = i"
    using atoi_show_int [of i "[]"] assms(2,3) by simp
  ultimately show ?thesis
    by (auto simp: config_line_def config_chain_int_option [OF assms(1) run])
qed

section \<open>What a read configuration satisfies\<close>

lemma default_loads_sel [simp]:
  "tint (default_loads c) = tint c" "maxload1 (default_loads c) = maxload1 c"
  by (simp_all add: default_loads_def Let_def)

lemma default_loads_active:
  assumes "2 \<le> maxload1 c" and "maxload1 c \<le> INT_MAX div 3"
  shows "maxload5 (default_loads c) \<noteq> 0 \<and> maxload15 (default_loads c) \<noteq> 0"
proof -
  have "int32 (maxload1 c * 3) = maxload1 c * 3"
    using assms by (intro int32_id) (auto simp: int_limits)
  with assms(1) show ?thesis
    by (auto simp: default_loads_def Let_def signed_divide_int_def)
qed

lemma read_config_final:
  assumes "read_config E f s = (Ret (), s')"
  shows "\<exists>c. cfg s' = default_loads c \<and> 0 < tint c"
  using assms unfolding read_config_def
  by (auto simp: andthen_def fatal_error_def not_le split: if_splits elim!: bind_RetE) blast

text \<open>C31. A configuration that \<open>read_config\<close> accepts can drive the daemon: the polling
  interval is positive, and with a one-minute load limit from the smallest sensible value on
  the five- and fifteen-minute limits are set too, so all three load checks are active.\<close>

theorem read_config_establishes:
  assumes "read_config E f s = (Ret (), s')"
  shows "0 < tint (cfg s') \<and>
     (MINLOAD \<le> maxload1 (cfg s') \<and> maxload1 (cfg s') \<le> INT_MAX div 3 \<longrightarrow>
        maxload5 (cfg s') \<noteq> 0 \<and> maxload15 (cfg s') \<noteq> 0)"
proof -
  from read_config_final [OF assms] obtain c where "cfg s' = default_loads c" "0 < tint c"
    by blast
  then show ?thesis using default_loads_active [of c] by (simp add: MINLOAD_def)
qed

section \<open>Test binaries\<close>

definition test_binary_ok :: "string \<Rightarrow> string list \<Rightarrow> entry \<Rightarrow> bool" where
  "test_binary_ok p ds e \<longleftrightarrow> e_version e = 1 \<and> length (e_name e) < PATH_MAX \<and>
     (\<exists>d \<in> set ds. e_name e = p @ ''/'' @ d \<and> (d = [] \<or> hd d \<noteq> CHR ''.''))"

definition binaries_added :: "string \<Rightarrow> string list \<Rightarrow> config \<Rightarrow> config \<Rightarrow> bool" where
  "binaries_added p ds c c' \<longleftrightarrow> (\<exists>new. c' = c\<lparr>tr_bin_list := tr_bin_list c @ new\<rparr> \<and>
     (\<forall>e \<in> set new. test_binary_ok p ds e))"

lemma xstrdup_keeps [keeps_intro]: "log_frame g \<Longrightarrow> keeps g (xstrdup E v)"
  unfolding xstrdup_def by (intro keeps_intro) (simp_all add: log_frame_def)

lemma xcalloc_keeps [keeps_intro]: "log_frame g \<Longrightarrow> keeps g (xcalloc E n k)"
  unfolding xcalloc_def by (intro keeps_intro) (simp_all add: log_frame_def)

lemma add_list_keeps [keeps_intro]: "log_frame g \<Longrightarrow> keeps g (add_list E l nm ver)"
  unfolding add_list_def by (intro keeps_intro)

lemma xstrdup_yields: "yields (\<lambda>d. d = v) (xstrdup E v)"
  unfolding xstrdup_def by (cases v) (auto intro!: yields_intro simp: fatal_error_def)

lemma add_list_yields: "yields (\<lambda>l'. l' = l @ [new_entry n ver]) (add_list E l (Some n) ver)"
  unfolding add_list_def option.case link_at_end_append
  by (rule yields_bind) (rule yields_bind_strong [OF xstrdup_yields], simp add: yields_ret)

abbreviation adds_binaries :: "string \<Rightarrow> string list \<Rightarrow>
    'a conf_state_scheme \<Rightarrow> 'a conf_state_scheme \<Rightarrow> bool" where
  "adds_binaries p ds s s' \<equiv> binaries_added p ds (cfg s) (cfg s')"

lemma binaries_added_refl: "binaries_added p ds c c"
  unfolding binaries_added_def by (rule exI [of _ "[]"]) simp

lemma binaries_added_trans:
  assumes "binaries_added p ds c c1" and "binaries_added p ds c1 c2"
  shows "binaries_added p ds c c2"
proof -
  obtain l1 l2 where "c1 = c\<lparr>tr_bin_list := tr_bin_list c @ l1\<rparr>" "\<forall>e \<in> set l1. test_binary_ok p ds e"
    and "c2 = c1\<lparr>tr_bin_list := tr_bin_list c1 @ l2\<rparr>" "\<forall>e \<in> set l2. test_binary_ok p ds e"
    using assms unfolding binaries_added_def by metis
  then show ?thesis
    unfolding binaries_added_def by (intro exI [of _ "l1 @ l2"]) auto
qed

interpretation binaries: state_preorder "adds_binaries p ds"
  by unfold_locales (rule binaries_added_refl, erule (1) binaries_added_trans)

lemma cfg_kept_adds_binaries: "keeps cfg m \<Longrightarrow> moves (adds_binaries p ds) m"
  by (erule keeps_moves) (rule binaries_added_refl)

lemma append_test_binary_moves:
  assumes "test_binary_ok p ds (new_entry n 1)"
  shows "moves (adds_binaries p ds) (append_test_binary E n)"
proof (rule movesI)
  fix s r s'
  assume run: "append_test_binary E n s = (r, s')"
  obtain s0 where 0: "log_verbose E ''adding to list of auto-repair binaries'' [AStr n] s = (Ret (), s0)"
    using log_verbose_returns by (rule returns_unitE)
  obtain r1 s1 where a: "add_list E (tr_bin_list (cfg s0)) (Some n) 1 s0 = (r1, s1)" by fastforce
  have c: "cfg s1 = cfg s" "cfg s0 = cfg s"
    using keepsD [OF add_list_keeps [OF log_frame_cfg] a] keepsD [OF log_verbose_apply_cfg 0] by simp_all
  have step: "append_test_binary E n s =
      bind (add_list E (tr_bin_list (cfg s0)) (Some n) 1)
        (\<lambda>l'. modify (cfg_update (tr_bin_list_update (\<lambda>_. l')))) s0"
    using 0 by (simp add: append_test_binary_def andthen_apply_Ret)
  show "adds_binaries p ds s s'"
  proof (cases r1)
    case (Ret l')
    have "l' = tr_bin_list (cfg s0) @ [new_entry n 1]"
      by (rule yieldsD [OF add_list_yields]) (use a Ret in simp)
    with run a Ret have "cfg s' = (cfg s)\<lparr>tr_bin_list := tr_bin_list (cfg s) @ [new_entry n 1]\<rparr>"
      unfolding step by (auto simp: bind_apply_Ret c)
    then show ?thesis
      unfolding binaries_added_def by (intro exI [of _ "[new_entry n 1]"]) (simp add: assms)
  qed (use run a c in \<open>auto simp: step bind_def binaries_added_refl\<close>)
qed

lemma test_binary_entry_moves:
  assumes "d \<in> set ds"
  shows "moves (adds_binaries p ds) (test_binary_entry E p d)"
proof -
  have "test_binary_ok p ds (new_entry (p @ ''/'' @ d) 1)"
    if "length (p @ ''/'' @ d) < PATH_MAX" "d = [] \<or> hd d \<noteq> CHR ''.''"
    using that assms by (auto simp: test_binary_ok_def new_entry_def)
  then show ?thesis
    unfolding test_binary_entry_def
    by (intro binaries.rules append_test_binary_moves cfg_kept_adds_binaries keeps_sysc
        log_msg_keeps log_frame_cfg) auto
qed

lemma add_test_binaries_moves:
  assumes "names (kern E (trace s @ [(FileCall (Stat p), kern E (trace s) (FileCall (Stat p)))])
     (FileCall (Opendir p))) = ds"
  shows "adds_binaries p ds s (snd (add_test_binaries E (Some p) s))"
proof -
  have "moves (adds_binaries p ds)
      (andthen (run_all (map (test_binary_entry E p) ds)) (do_sys E (FileCall (Closedir h))))" for h
    by (rule binaries.andthen, rule binaries.run_all)
      (auto simp: test_binary_entry_moves intro!: cfg_kept_adds_binaries [OF keeps_do_sys])
  from movesD [OF this surjective_pairing, where s = "s\<lparr>trace := t\<rparr>" for t]
  have "binaries_added p ds (cfg s)
      (cfg (snd (andthen (run_all (map (test_binary_entry E p) ds)) (do_sys E (FileCall (Closedir h)))
         (s\<lparr>trace := t\<rparr>))))" for h t
    by simp
  then show ?thesis
    using assms by (simp add: add_test_binaries_def binaries_added_refl)
qed

text \<open>\<open>add_test_binaries\<close> only ever appends to the list of test/repair binaries and touches
  no other setting; every binary it adds is called with the version-1 protocol, comes from the
  listed directory, is not a hidden file and has a path that fits in \<open>PATH_MAX\<close>.\<close>

lemma add_test_binaries_safe:
  assumes "add_test_binaries E (Some p) s = (r, s')"
  shows "\<exists>ds. binaries_added p ds (cfg s) (cfg s')"
  using add_test_binaries_moves [of E s p] assms by auto

end
