(* ===== verification/DaemonPid.thy ===== *)
theory DaemonPid
  imports ConfigFile
begin

text \<open>
  \<^verbatim>\<open>src/daemon-pid.c\<close> and \<^verbatim>\<open>src/lock_mem.c\<close>: the PID file, the double fork into the
  background, and the locking of the process memory. Both daemons use them. \<open>_POSIX_MEMLOCK\<close>,
  \<open>OOM_SCORE_ADJ_MIN\<close> and \<open>OOM_DISABLE\<close> are defined on the Linux targets.
\<close>

record pid_state = conf_state +
  daemon_pid :: int
  saved_fname :: "string option"
  mlocked :: bool

section \<open>The PID file\<close>

text \<open>\<open>fscanf\<close> with the format \<open>%d\<close>: nothing when no digit follows the sign.\<close>

definition scan_int :: "string \<Rightarrow> int option" where
  "scan_int s =
     (let s1 = dropWhile isspace s;
          s2 = (case s1 of c # cs \<Rightarrow> if c = CHR ''-'' \<or> c = CHR ''+'' then cs else s1 | [] \<Rightarrow> [])
      in if s2 \<noteq> [] \<and> isdigit (hd s2) then Some (atoi s) else None)"

definition check_pid_file :: "env \<Rightarrow> string \<Rightarrow> ('s pid_state_scheme, int) proc" where
  "check_pid_file E fname =
     bind (fsys E (Fopen fname ''r'')) (\<lambda>fp.
     if rv fp \<noteq> 0 then
       (let pid = (case scan_int (dat fp) of None \<Rightarrow> 0 | Some p \<Rightarrow> p) in
        andthen (do_sys E (FileCall (Fclose (rv fp))))
        (bind (gets daemon_pid) (\<lambda>dp.
         if pid \<noteq> 0 \<and> pid \<noteq> dp then
           bind (psys E (Kill pid 0)) (\<lambda>r.
           if rv r = 0 then
             andthen (log_msg E LOG_WARNING ''PID file already used'' [AStr fname, AInt pid]) (ret (- 1))
           else ret 0)
         else ret 0)))
     else ret 0)"

definition remove_pid_file :: "env \<Rightarrow> ('s pid_state_scheme, int) proc" where
  "remove_pid_file E =
     bind (gets saved_fname) (\<lambda>sf.
     bind
       (case sf of
          None \<Rightarrow> ret 0
        | Some f \<Rightarrow>
            bind (fsys E (Unlink f)) (\<lambda>r.
            if rv r < 0 then
              andthen (log_msg E LOG_ERR ''cannot remove PID file'' [AStr f, AInt (err r)]) (ret (- 1))
            else ret 0)) (\<lambda>r.
     andthen (modify (saved_fname_update (\<lambda>_. None)))
     (ret r)))"

definition create_pid_file :: "env \<Rightarrow> string \<Rightarrow> ('s pid_state_scheme, int) proc" where
  "create_pid_file E f =
     bind (remove_pid_file E) (\<lambda>_.
     bind (fsys E (Fopen f ''w'')) (\<lambda>fp.
     if rv fp \<noteq> 0 then
       bind (gets daemon_pid) (\<lambda>dp.
       andthen (do_sys E (FileCall (Fprintf (rv fp) (show_int dp @ [CHR 0x0A]))))
       (andthen (do_sys E (FileCall (Fclose (rv fp))))
       (bind (xstrdup E (Some f)) (\<lambda>d.
        andthen (modify (saved_fname_update (\<lambda>_. d)))
        (ret 0)))))
     else
       andthen (log_msg E LOG_ERR ''cannot open PID file'' [AStr f, AInt (err fp)]) (ret (- 1))))"

definition write_pid_file :: "env \<Rightarrow> string option \<Rightarrow> ('s pid_state_scheme, int) proc" where
  "write_pid_file E fname =
     bind (psys E Getpid) (\<lambda>p.
     andthen (modify (daemon_pid_update (\<lambda>_. rv p)))
     (case fname of
        None \<Rightarrow> ret (- 1)
      | Some f \<Rightarrow>
          bind (check_pid_file E f) (\<lambda>c.
          if c \<noteq> 0 then ret (- 1) else create_pid_file E f)))"

section \<open>Going into the background\<close>

definition reopen_console :: "env \<Rightarrow> ('s pid_state_scheme, int) proc" where
  "reopen_console E =
     bind (fsys E (Freopen ''/dev/null'' ''r'' 0)) (\<lambda>r0.
     if rv r0 = 0 then ret (- 1)
     else
       bind (fsys E (Freopen ''/dev/null'' ''w'' 1)) (\<lambda>r1.
       if rv r1 = 0 then ret (- 1)
       else
         bind (fsys E (Freopen ''/dev/null'' ''w'' 2)) (\<lambda>r2.
         if rv r2 = 0 then ret (- 1) else ret 0)))"

text \<open>What the second child does: its own session, and no console.\<close>

definition new_session :: "env \<Rightarrow> bool \<Rightarrow> ('s pid_state_scheme, int) proc" where
  "new_session E noclose =
     bind (psys E Setsid) (\<lambda>r.
     if rv r = - 1 then ret (- 1)
     else if \<not> noclose then reopen_console E
     else ret 0)"

definition double_fork :: "env \<Rightarrow> bool \<Rightarrow> ('s pid_state_scheme, int) proc" where
  "double_fork E noclose =
     bind (psys E Fork) (\<lambda>c1.
     if rv c1 < 0 then ret (- 1)
     else if rv c1 > 0 then
       bind (psys E (Waitpid (rv c1) False)) (\<lambda>w.
       if rv w \<noteq> rv c1 then stop 1 else stop 0)
     else
       bind (psys E Fork) (\<lambda>c2.
       if rv c2 < 0 then stop 1
       else if rv c2 > 0 then andthen (do_sys E (ProcCall (Usleep 10000))) (stop 0)
       else new_session E noclose))"

definition wd_daemon :: "env \<Rightarrow> bool \<Rightarrow> bool \<Rightarrow> ('s pid_state_scheme, int) proc" where
  "wd_daemon E nochdir noclose =
     bind (if \<not> nochdir then bind (fsys E (Chdir ''/'')) (\<lambda>r. ret (rv r < 0)) else ret False) (\<lambda>failed.
     if failed then ret (- 1)
     else
       andthen (do_sys E (FileCall (Fflush 1)))
       (andthen (do_sys E (FileCall (Fflush 2)))
       (double_fork E noclose)))"

section \<open>Locking the memory (lock_mem.c)\<close>

definition OOM_SCORE_ADJ_MIN :: int where "OOM_SCORE_ADJ_MIN = - 1000"
definition OOM_DISABLE :: int where "OOM_DISABLE = - 17"

definition unlock_our_memory :: "env \<Rightarrow> ('s pid_state_scheme, unit) proc" where
  "unlock_our_memory E =
     bind (gets mlocked) (\<lambda>m.
     if m then
       bind (psys E Munlockall) (\<lambda>r.
       andthen (whenp (rv r \<noteq> 0) (log_msg E LOG_ERR ''cannot unlock realtime memory'' [AInt (err r)]))
       (modify (mlocked_update (\<lambda>_. False))))
     else ret ())"

text \<open>One attempt at the out-of-memory killer: whether the file took the value.\<close>

definition adjust_oom :: "env \<Rightarrow> string \<Rightarrow> int \<Rightarrow> ('s pid_state_scheme, bool) proc" where
  "adjust_oom E fname val =
     bind (fsys E (Stat fname)) (\<lambda>r.
     if rv r = 0 then
       bind (fsys E (Fopen fname ''w'')) (\<lambda>fp.
       if rv fp \<noteq> 0 then
         andthen (do_sys E (FileCall (Fprintf (rv fp) (show_int val @ [CHR 0x0A]))))
         (andthen (do_sys E (FileCall (Fclose (rv fp))))
         (ret True))
       else ret False)
     else ret False)"

definition lock_our_memory :: "env \<Rightarrow> int \<Rightarrow> int \<Rightarrow> int \<Rightarrow> ('s pid_state_scheme, unit) proc" where
  "lock_our_memory E do_lock priority pid =
     andthen
       (if do_lock = 1 then
          andthen (unlock_our_memory E)
          (bind (psys E Mlockall) (\<lambda>r.
           if rv r \<noteq> 0 then log_msg E LOG_ERR ''cannot lock realtime memory'' [AInt (err r)]
           else
             bind (psys E (Sched_setscheduler priority)) (\<lambda>q.
             if rv q \<noteq> 0 then log_msg E LOG_ERR ''cannot set scheduler'' [AInt (err q)]
             else modify (mlocked_update (\<lambda>_. True)))))
        else ret ())
     (if pid > 0 then
        bind (adjust_oom E (''/proc/'' @ show_int pid @ ''/oom_score_adj'') OOM_SCORE_ADJ_MIN) (\<lambda>a.
        bind (if \<not> a then adjust_oom E (''/proc/'' @ show_int pid @ ''/oom_adj'') OOM_DISABLE
              else ret True) (\<lambda>b.
        whenp (\<not> b) (log_msg E LOG_WARNING ''unable to disable oom handling!'' [])))
      else ret ())"

section \<open>Facts\<close>

lemma pid_logs [simp]:
  "daemon_pid (logged E l f a s) = daemon_pid s" "saved_fname (logged E l f a s) = saved_fname s"
  "mlocked (logged E l f a s) = mlocked s"
  by (rule logs_frame, simp add: log_frame_def)+

lemma calls_pid_update [simp]:
  "calls P (daemon_pid_update f s) = calls P s" "calls P (saved_fname_update g s) = calls P s"
  "calls P (mlocked_update h s) = calls P s"
  by (simp_all add: calls_def)

text \<open>A call that changes the file system.\<close>

fun changes_files :: "syscall \<Rightarrow> bool" where
  "changes_files (FileCall (Unlink f)) = True"
| "changes_files (FileCall (Fopen f m)) = (m \<noteq> ''r'')"
| "changes_files (FileCall (Fprintf h t)) = True"
| "changes_files c = False"

lemma log_call_changes_nothing [simp]: "is_log_call c \<Longrightarrow> \<not> changes_files c"
  by (cases c rule: is_log_call.cases) auto

lemma show_nat_head: "\<exists>c cs. show_nat n = c # cs \<and> isdigit c"
  using show_nat_digits [of n] show_nat_nonempty [of n] by (cases "show_nat n") auto

lemma scan_int_show_int:
  assumes "INT_MIN \<le> i" "i \<le> INT_MAX"
  shows "scan_int (show_int i @ [CHR 0x0A]) = Some i"
proof -
  have a: "atoi (show_int i @ [CHR 0x0A]) = i"
    using atoi_show_int [of i "[CHR 0x0A]"] assms by (simp add: isdigit_def)
  obtain c cs where n: "show_nat (nat \<bar>i\<bar>) = c # cs" "isdigit c" using show_nat_head by blast
  show ?thesis
  proof (cases "i < 0")
    case True
    then have "show_int i = CHR ''-'' # c # cs" using n by (simp add: show_int_def)
    with a n(2) show ?thesis by (simp add: scan_int_def isspace_def)
  next
    case False
    then have "show_int i = c # cs" using n by (simp add: show_int_def)
    with a n(2) isdigit_not_space [OF n(2)] isdigit_not_sign [OF n(2)] show ?thesis
      by (simp add: scan_int_def)
  qed
qed

text \<open>The PID file excludes a second daemon: when the file names another process and that process
  is alive, \<open>write_pid_file\<close> fails, and it neither removes nor writes any file.\<close>

lemma write_pid_file_exclusive:
  assumes "\<forall>tr. rv (kern E tr (FileCall (Fopen f ''r''))) \<noteq> 0 \<and>
      scan_int (dat (kern E tr (FileCall (Fopen f ''r'')))) = Some p"
    and "\<forall>tr. rv (kern E tr (ProcCall (Kill p 0))) = 0"
    and "p \<noteq> 0" and "\<forall>tr. rv (kern E tr (ProcCall Getpid)) \<noteq> p"
  shows "\<exists>s'. write_pid_file E (Some f) s = (Ret (- 1), s') \<and>
     calls changes_files s' = calls changes_files s \<and> saved_fname s' = saved_fname s"
proof -
  have "p \<noteq> rv (kern E tr (ProcCall Getpid))" for tr using assms(4) by metis
  with assms show ?thesis
    by (simp add: write_pid_file_def check_pid_file_def Let_def logs_run proc_assoc calls_logs)
qed

text \<open>Without another owner the file is written: it holds the decimal PID of this process, which
  is what \<open>check_pid_file\<close> of a second daemon reads back, and the daemon remembers the file so that
  \<open>remove_pid_file\<close> deletes it, exactly once however often it is called.\<close>

lemma write_pid_file_roundtrip:
  assumes "\<forall>tr. rv (kern E tr (FileCall (Fopen f ''r''))) = 0" and "memory_ok E"
    and "\<forall>tr. rv (kern E tr (FileCall (Fopen f ''w''))) = h" and "h \<noteq> 0"
    and "\<forall>tr. rv (kern E tr (ProcCall Getpid)) = p" and "INT_MIN \<le> p" "p \<le> INT_MAX"
    and "saved_fname s = None"
  shows "\<exists>s1 s2 s3 txt r r'. write_pid_file E (Some f) s = (Ret 0, s1) \<and>
     remove_pid_file E s1 = (Ret r, s2) \<and> remove_pid_file E s2 = (Ret r', s3) \<and>
     daemon_pid s1 = p \<and> scan_int txt = Some p \<and>
     calls changes_files s3 = calls changes_files s @
       [FileCall (Fopen f ''w''), FileCall (Fprintf h txt), FileCall (Unlink f)]"
proof -
  let ?txt = "show_int p @ [CHR 0x0A]"
  obtain s1 where 1: "write_pid_file E (Some f) s = (Ret 0, s1)" "daemon_pid s1 = p"
    "saved_fname s1 = Some f"
    "calls changes_files s1 = calls changes_files s @ [FileCall (Fopen f ''w''), FileCall (Fprintf h ?txt)]"
    using assms by (simp add: write_pid_file_def check_pid_file_def create_pid_file_def
        remove_pid_file_def xstrdup_run bind_apply_Ret) 
  have "\<exists>r s2. remove_pid_file E s1 = (Ret r, s2) \<and> saved_fname s2 = None \<and>
    calls changes_files s2 = calls changes_files s1 @ [FileCall (Unlink f)]"
    using 1(3) by (simp add: remove_pid_file_def logs_run proc_assoc calls_logs)
  then obtain r s2 where 2: "remove_pid_file E s1 = (Ret r, s2)" "saved_fname s2 = None"
    "calls changes_files s2 = calls changes_files s1 @ [FileCall (Unlink f)]" by blast
  then have "remove_pid_file E s2 = (Ret 0, s2\<lparr>saved_fname := None\<rparr>)"
    by (simp add: remove_pid_file_def)
  with 1 2 scan_int_show_int [OF assms(6,7)] show ?thesis
    by (intro exI [of _ s1] exI [of _ s2] exI [of _ "s2\<lparr>saved_fname := None\<rparr>"] exI [of _ ?txt] exI) auto
qed

section \<open>Who survives the double fork\<close>

definition fork_replies :: "'s os_state_scheme \<Rightarrow> int list" where
  "fork_replies s = map (\<lambda>e. rv (snd e)) (filter (\<lambda>e. fst e = ProcCall Fork) (trace s))"

lemma new_session_forks:
  "new_session E noclose s = (Ret r, s') \<Longrightarrow> fork_replies s' = fork_replies s"
  by (auto simp: new_session_def reopen_console_def fork_replies_def split: if_splits)

text \<open>C35. \<open>wd_daemon\<close> succeeds only in the grandchild: when it returns 0, both forks were seen from
  the child's side, so the process that continues as the daemon is neither the one the user
  started nor its child; when the first fork works in the parent, the parent exits.\<close>

theorem wd_daemon_grandchild:
  assumes "wd_daemon E nochdir noclose s = (Ret 0, s')"
  shows "fork_replies s' = fork_replies s @ [0, 0]"
  using assms
  by (auto simp: wd_daemon_def double_fork_def fork_replies_def proc_assoc bind_apply_Ret
      split: if_splits dest!: new_session_forks)

end
