(* ===== verification/Device.thy ===== *)
theory Device
  imports DaemonPid
begin

text \<open>
  \<^verbatim>\<open>src/keep_alive.c\<close>: opening, refreshing and closing the watchdog device.

  The three static variables extend the state. The file is linked into two programs with two
  different \<open>write_heartbeat\<close> functions (\<^verbatim>\<open>heartbeat.c\<close> for the watchdog, an empty one for
  \<^verbatim>\<open>wd_keepalive\<close>), so the functions that refresh the device take it as an argument; the
  locale \<open>heartbeat_writer\<close> is the contract they rely on.
\<close>

section \<open>State and operations\<close>

record dev_state = pid_state +
  watchdog_fd :: int
  timeout_used :: int
  Refresh_using_ioctl :: bool

definition close_watchdog :: "env \<Rightarrow> ('s dev_state_scheme, int) proc" where
  "close_watchdog E =
     bind (gets watchdog_fd) (\<lambda>fd.
     bind
       (if fd \<noteq> - 1 then
          bind (fsys E (Write fd ''V'')) (\<lambda>w.
          andthen
            (whenp (rv w < 0)
               (log_msg E LOG_ERR ''write watchdog device gave error'' [AInt (err w)]))
          (bind (fsys E (Close fd)) (\<lambda>c.
           andthen
             (whenp (rv c = - 1) (log_msg E LOG_ALERT ''cannot close watchdog'' [AInt (err c)]))
           (ret (if rv w < 0 \<or> rv c = - 1 then - 1 else 0)))))
        else ret 0) (\<lambda>r.
     andthen (modify (watchdog_fd_update (\<lambda>_. - 1)))
     (ret r)))"

definition try_values :: "int list" where
  "try_values = [3, 5, 10]"

fun try_times :: "env \<Rightarrow> int \<Rightarrow> int list \<Rightarrow> ('s dev_state_scheme, int) proc" where
  "try_times E timeout [] = ret (- 1)"
| "try_times E timeout (tmp # rest) =
     (if tmp > timeout then
        bind (gets watchdog_fd) (\<lambda>fd.
        bind (dsys E (Ioctl fd WDIOC_SETTIMEOUT tmp)) (\<lambda>r.
        if rv r \<ge> 0 then
          andthen (log_msg E LOG_ERR ''trying watchdog time-out success'' [AInt tmp]) (ret 0)
        else try_times E timeout rest))
      else try_times E timeout rest)"

definition try_other_times :: "env \<Rightarrow> int \<Rightarrow> ('s dev_state_scheme, int) proc" where
  "try_other_times E timeout = try_times E timeout try_values"

definition set_watchdog_timeout :: "env \<Rightarrow> int \<Rightarrow> ('s dev_state_scheme, int) proc" where
  "set_watchdog_timeout E timeout =
     bind (gets watchdog_fd) (\<lambda>fd.
     if fd \<noteq> - 1 then
       if timeout > 0 then
         andthen (modify (timeout_used_update (\<lambda>_. timeout)))
         (bind (dsys E (Ioctl fd WDIOC_SETTIMEOUT timeout)) (\<lambda>r.
          if rv r < 0 then
            andthen (log_msg E LOG_ERR ''cannot set timeout'' [AInt timeout, AInt (err r)])
            (bind (try_other_times E timeout) (\<lambda>_. ret (- 1)))
          else
            bind (gets (tint \<circ> cfg)) (\<lambda>t.
            andthen
              (if timeout \<le> int32 (t * 2) then
                 log_msg E LOG_WARNING
                   ''Warning: watchdog now set, should be more than double interval'' [AInt timeout, AInt t]
               else log_msg E LOG_INFO ''watchdog now set'' [AInt timeout])
            (ret 0))))
       else
         bind (dsys E (Ioctl fd WDIOC_GETTIMEOUT 0)) (\<lambda>r.
         if rv r < 0 then
           andthen (log_msg E LOG_ERR ''cannot get timeout'' [AInt (err r)]) (ret (- 1))
         else andthen (log_msg E LOG_INFO ''watchdog was set'' [AInt (v1 r)]) (ret 0))
     else ret (- 1))"

text \<open>The identity string of \<open>struct watchdog_info\<close>, cut at its last byte.\<close>

definition IDENTITY_SIZE :: nat where "IDENTITY_SIZE = 32"

definition identify :: "env \<Rightarrow> int \<Rightarrow> ('s dev_state_scheme, string) proc" where
  "identify E fd =
     bind (dsys E (Ioctl fd WDIOC_GETSUPPORT 0)) (\<lambda>r.
     if rv r < 0 then
       andthen (log_msg E LOG_ERR ''cannot get watchdog identity'' [AInt (err r)]) (ret [])
     else
       (let identity = cstr (take (IDENTITY_SIZE - 1) (dat r)) in
        andthen (log_msg E LOG_INFO ''hardware watchdog identity'' [AStr identity]) (ret identity)))"

definition select_refresh :: "env \<Rightarrow> string \<Rightarrow> ('s dev_state_scheme, unit) proc" where
  "select_refresh E identity =
     andthen (modify (Refresh_using_ioctl_update (\<lambda>_. False)))
     (bind (gets (refresh_use_settimeout \<circ> cfg)) (\<lambda>m.
      if m = ENUM_NO then ret ()
      else if m = ENUM_YES then
        andthen (modify (Refresh_using_ioctl_update (\<lambda>_. True)))
        (log_msg E LOG_INFO ''Running ioctl-based refresh'' [])
      else if m = ENUM_AUTO then
        andthen (modify (Refresh_using_ioctl_update (\<lambda>_. False)))
        (whenp (''IT87 WDT'' = identity)
          (andthen (modify (Refresh_using_ioctl_update (\<lambda>_. True)))
          (log_msg E LOG_INFO ''Running IT87 module fix-up'' [])))
      else log_msg E LOG_ERR ''Unknown ioctl selection mode'' [AInt m]))"

definition open_watchdog :: "env \<Rightarrow> string option \<Rightarrow> int \<Rightarrow> ('s dev_state_scheme, int) proc" where
  "open_watchdog E nm timeout =
     bind (close_watchdog E) (\<lambda>_.
     bind
       (case nm of
          None \<Rightarrow> ret (0, [])
        | Some n \<Rightarrow>
            bind (fsys E (Open n O_WRONLY_CLOEXEC)) (\<lambda>r.
            andthen (modify (watchdog_fd_update (\<lambda>_. rv r)))
            (if rv r = - 1 then
               andthen (log_msg E LOG_ERR ''cannot open'' [AStr n, AInt (err r)])
               (ret (- 1, []))
             else
               bind (set_watchdog_timeout E timeout) (\<lambda>_.
               bind (identify E (rv r)) (\<lambda>identity.
               ret (0, identity)))))) (\<lambda>(r, identity).
     andthen (select_refresh E identity)
     (ret r)))"

definition keep_alive ::
  "env \<Rightarrow> ('s dev_state_scheme, int) proc \<Rightarrow> ('s dev_state_scheme, int) proc" where
  "keep_alive E write_hb =
     bind (gets watchdog_fd) (\<lambda>fd.
     if fd = - 1 then ret ENOERR
     else
       bind (gets Refresh_using_ioctl) (\<lambda>use_ioctl.
       bind
         (if use_ioctl then
            bind (gets timeout_used) (\<lambda>timeout.
            bind (dsys E (Ioctl fd WDIOC_SETTIMEOUT timeout)) (\<lambda>r.
            if rv r < 0 then
              andthen (log_msg E LOG_ERR ''set watchdog timeout gave error'' [AInt (err r)])
              (ret (err r))
            else ret ENOERR))
          else
            bind (fsys E (Write fd [NUL])) (\<lambda>r.
            if rv r < 0 then
              andthen (log_msg E LOG_ERR ''write watchdog device gave error'' [AInt (err r)])
              (ret (err r))
            else ret ENOERR)) (\<lambda>er.
       bind write_hb (\<lambda>_.
       ret er))))"

definition get_watchdog_fd :: "('s dev_state_scheme, int) proc" where
  "get_watchdog_fd = gets watchdog_fd"

definition keep_alive_stmt ::
  "env \<Rightarrow> ('s dev_state_scheme, int) proc \<Rightarrow> ('s dev_state_scheme, unit) proc" where
  "keep_alive_stmt E write_hb = bind (keep_alive E write_hb) (\<lambda>_. ret ())"

definition safe_sleep ::
  "env \<Rightarrow> ('s dev_state_scheme, int) proc \<Rightarrow> int \<Rightarrow> ('s dev_state_scheme, unit) proc" where
  "safe_sleep E write_hb sec =
     andthen (keep_alive_stmt E write_hb)
     (repeat (nat sec)
        (andthen (do_sys E (ProcCall (Sleep 1))) (keep_alive_stmt E write_hb)))"

section \<open>Calls to the device\<close>

text \<open>A call that reaches the watchdog driver: a \<open>write\<close> to a descriptor or an \<open>ioctl\<close>.
  The other files the daemon writes go through streams.\<close>

fun is_dev_call :: "syscall \<Rightarrow> bool" where
  "is_dev_call (FileCall (Write fd b)) = True"
| "is_dev_call (DevCall c) = True"
| "is_dev_call c = False"

fun is_pace_call :: "syscall \<Rightarrow> bool" where
  "is_pace_call (ProcCall (Sleep n)) = True"
| "is_pace_call c = is_dev_call c"

lemma log_call_not_dev [simp]: "is_log_call c \<Longrightarrow> \<not> is_dev_call c"
  by (cases c rule: is_log_call.cases) auto

lemma log_call_not_pace [simp]: "is_log_call c \<Longrightarrow> \<not> is_pace_call c"
  by (cases c rule: is_log_call.cases) auto

lemma dev_call_pace [simp]: "is_dev_call c \<Longrightarrow> is_pace_call c"
  by (cases c rule: is_dev_call.cases) auto

abbreviation dev_part :: "'s dev_state_scheme \<Rightarrow> int \<times> int \<times> bool" where
  "dev_part s \<equiv> (watchdog_fd s, timeout_used s, Refresh_using_ioctl s)"

text \<open>What one refresh sends to the driver.\<close>

definition refresh_calls :: "int \<times> int \<times> bool \<Rightarrow> syscall list" where
  "refresh_calls d = (case d of (fd, timeout, use_ioctl) \<Rightarrow>
     if fd = - 1 then []
     else if use_ioctl then [DevCall (Ioctl fd WDIOC_SETTIMEOUT timeout)]
     else [FileCall (Write fd [NUL])])"

lemma refresh_calls_pace: "filter is_pace_call (refresh_calls d) = refresh_calls d"
  by (simp add: refresh_calls_def split: prod.split)

lemma log_frame_dev_part [simp]: "log_frame dev_part"
  by (simp add: log_frame_def)

lemma dev_logs [simp]:
  "watchdog_fd (logged E l f a s) = watchdog_fd s" "timeout_used (logged E l f a s) = timeout_used s"
  "Refresh_using_ioctl (logged E l f a s) = Refresh_using_ioctl s"
  "watchdog_fd (noted E f a s) = watchdog_fd s" "timeout_used (noted E f a s) = timeout_used s"
  "Refresh_using_ioctl (noted E f a s) = Refresh_using_ioctl s"
  "watchdog_fd (ticked E f a s) = watchdog_fd s" "timeout_used (ticked E f a s) = timeout_used s"
  "Refresh_using_ioctl (ticked E f a s) = Refresh_using_ioctl s"
  by (rule logs_frame, simp add: log_frame_def)+

lemma calls_dev_update [simp]:
  "calls P (watchdog_fd_update f s) = calls P s" "calls P (timeout_used_update f s) = calls P s"
  "calls P (Refresh_using_ioctl_update g s) = calls P s"
  by (simp_all add: calls_def)

text \<open>The contract of the heartbeat writer: under its own invariant \<open>ok\<close> it returns, touches
  neither the device variables nor the configuration, and neither sleeps nor calls the driver.\<close>

locale heartbeat_writer =
  fixes write_hb :: "env \<Rightarrow> ('s dev_state_scheme, int) proc"
    and ok :: "env \<Rightarrow> 's dev_state_scheme \<Rightarrow> bool"
  assumes write_hb_run: "ok E s \<Longrightarrow> \<exists>r s'. write_hb E s = (Ret r, s') \<and> ok E s' \<and>
      dev_part s' = dev_part s \<and> cfg s' = cfg s \<and> calls is_pace_call s' = calls is_pace_call s"
    and ok_frame: "log_frame (ok E)"
begin

abbreviation stable :: "env \<Rightarrow> int \<times> int \<times> bool \<Rightarrow> config \<Rightarrow> 's dev_state_scheme \<Rightarrow> bool" where
  "stable E d c s \<equiv> ok E s \<and> dev_part s = d \<and> cfg s = c"

lemma stable_frame: "log_frame (stable E d c)"
  by (intro log_frame_conj ok_frame log_frame_eq log_frame_dev_part log_frame_cfg)

lemma stable_trace: "stable E d c (s\<lparr>trace := t\<rparr>) = stable E d c s"
  using stable_frame by (rule log_frame_trace)

text \<open>After the call to the driver comes a message at most, and the heartbeat.\<close>

lemma write_hb_then:
  assumes "stable E d c s" and "calls is_pace_call s = cs"
  shows "\<exists>s'. bind (write_hb E) (\<lambda>_. ret x) s = (Ret x, s') \<and> stable E d c s' \<and>
     calls is_pace_call s' = cs"
  using write_hb_run [of E s] assms by (auto simp: bind_apply_Ret)

lemma after_refresh:
  assumes "stable E d c s" and "call = DevCall x \<or> call = FileCall (Write y z)"
  shows "\<exists>r s'. bind (bind (sysc E call) (\<lambda>r. if rv r < 0
            then andthen (log_msg E l f [AInt (err r)]) (ret (err r)) else ret ENOERR))
          (\<lambda>er. bind (write_hb E) (\<lambda>_. ret er)) s = (Ret r, s') \<and> stable E d c s' \<and>
     calls is_pace_call s' = calls is_pace_call s @ [call]"
proof -
  let ?r = "kern E (trace s) call"
  let ?s0 = "s\<lparr>trace := trace s @ [(call, ?r)]\<rparr>"
  let ?s1 = "logged E l f [AInt (err ?r)] ?s0"
  have 0: "stable E d c ?s0" using assms(1) by (simp only: stable_trace)
  have 1: "stable E d c ?s1" using 0 logged_frame [OF ok_frame] by simp
  have c: "calls is_pace_call ?s0 = calls is_pace_call s @ [call]"
    "calls is_pace_call ?s1 = calls is_pace_call s @ [call]"
    using assms(2) by (auto simp: calls_logged)
  show ?thesis
    using write_hb_then [OF 0 c(1), of ENOERR] write_hb_then [OF 1 c(2), of "err ?r"]
    by (cases "rv ?r < 0") (auto simp: bind_assoc andthen_def log_run)
qed

lemma keep_alive_run:
  assumes "stable E d c s"
  shows "\<exists>r s'. keep_alive E (write_hb E) s = (Ret r, s') \<and> stable E d c s' \<and>
     calls is_pace_call s' = calls is_pace_call s @ refresh_calls d"
proof (cases "watchdog_fd s = - 1")
  case True
  with assms show ?thesis by (auto simp: keep_alive_def refresh_calls_def)
next
  case False
  obtain fd to use where d: "d = (fd, to, use)" by (cases d)
  show ?thesis
  proof (cases use)
    case True
    then show ?thesis
      using False assms after_refresh [OF assms, of "DevCall (Ioctl fd WDIOC_SETTIMEOUT to)"]
      by (auto simp: keep_alive_def refresh_calls_def d)
  next
    case nouse: False
    then show ?thesis
      using False assms after_refresh [OF assms, of "FileCall (Write fd [NUL])"]
      by (auto simp: keep_alive_def refresh_calls_def d)
  qed
qed

lemma keep_alive_stmt_run:
  assumes "stable E d c s"
  shows "\<exists>s'. keep_alive_stmt E (write_hb E) s = (Ret (), s') \<and> stable E d c s' \<and>
     calls is_pace_call s' = calls is_pace_call s @ refresh_calls d"
  using keep_alive_run [OF assms] by (auto simp: keep_alive_stmt_def bind_apply_Ret)

lemma sleep_loop_run:
  assumes "stable E d c s"
  shows "\<exists>s'. repeat n (andthen (do_sys E (ProcCall (Sleep 1))) (keep_alive_stmt E (write_hb E))) s
      = (Ret (), s') \<and> stable E d c s' \<and> calls is_pace_call s' =
        calls is_pace_call s @ concat (replicate n (ProcCall (Sleep 1) # refresh_calls d))"
  using assms
proof (induction n arbitrary: s)
  case (Suc n)
  let ?c = "ProcCall (Sleep 1)"
  let ?s0 = "s\<lparr>trace := trace s @ [(?c, kern E (trace s) ?c)]\<rparr>"
  have "stable E d c ?s0" using Suc.prems by (simp only: stable_trace)
  from keep_alive_stmt_run [OF this] obtain s1
    where 1: "keep_alive_stmt E (write_hb E) ?s0 = (Ret (), s1)" "stable E d c s1"
      "calls is_pace_call s1 = calls is_pace_call ?s0 @ refresh_calls d" by blast
  from Suc.IH [OF 1(2)] obtain s2 where 2: "repeat n (andthen (do_sys E ?c)
       (keep_alive_stmt E (write_hb E))) s1 = (Ret (), s2)" "stable E d c s2"
      "calls is_pace_call s2 = calls is_pace_call s1 @ concat (replicate n (?c # refresh_calls d))"
    by blast
  have "repeat (Suc n) (andthen (do_sys E ?c) (keep_alive_stmt E (write_hb E))) s = (Ret (), s2)"
    by (rule repeat_step [OF _ 2(1)]) (use 1(1) in simp)
  moreover have "calls is_pace_call s2 =
      calls is_pace_call s @ concat (replicate (Suc n) (?c # refresh_calls d))"
    using 1(3) 2(3) by simp
  ultimately show ?case using 2(2) by blast
qed auto

lemma safe_sleep_run:
  assumes "stable E d c s"
  shows "\<exists>s'. safe_sleep E (write_hb E) sec s = (Ret (), s') \<and> stable E d c s' \<and>
     calls is_pace_call s' = calls is_pace_call s @
       refresh_calls d @ concat (replicate (nat sec) (ProcCall (Sleep 1) # refresh_calls d))"
proof -
  from keep_alive_stmt_run [OF assms] obtain s1
    where 1: "keep_alive_stmt E (write_hb E) s = (Ret (), s1)" "stable E d c s1"
      "calls is_pace_call s1 = calls is_pace_call s @ refresh_calls d" by blast
  from sleep_loop_run [OF 1(2), of "nat sec"] 1 show ?thesis
    by (auto simp: safe_sleep_def andthen_apply_Ret)
qed

end

section \<open>Opening and closing\<close>

lemmas dev_run = logs_run calls_logs

definition closing_calls :: "int \<Rightarrow> syscall list" where
  "closing_calls fd = (if fd = - 1 then [] else [FileCall (Write fd ''V'')])"

lemma close_watchdog_run:
  "\<exists>r s'. close_watchdog E s = (Ret r, s') \<and> watchdog_fd s' = - 1 \<and> cfg s' = cfg s \<and>
     timeout_used s' = timeout_used s \<and>
     calls is_dev_call s' = calls is_dev_call s @ closing_calls (watchdog_fd s)"
  by (auto simp: close_watchdog_def closing_calls_def bind_assoc dev_run andthen_def
      whenp_def bind_def)

lemma try_times_run:
  "\<exists>r s' n. try_times E timeout ts s = (Ret r, s') \<and> dev_part s' = dev_part s \<and> cfg s' = cfg s \<and>
     calls is_dev_call s' = calls is_dev_call s @
       map (\<lambda>t. DevCall (Ioctl (watchdog_fd s) WDIOC_SETTIMEOUT t)) (take n (filter (\<lambda>t. timeout < t) ts))"
proof (induction ts arbitrary: s)
  case (Cons t ts)
  let ?c = "DevCall (Ioctl (watchdog_fd s) WDIOC_SETTIMEOUT t)"
  let ?s0 = "s\<lparr>trace := trace s @ [(?c, kern E (trace s) ?c)]\<rparr>"
  from Cons [of ?s0] obtain r s' n where IH: "try_times E timeout ts ?s0 = (Ret r, s')"
    "dev_part s' = dev_part s" "cfg s' = cfg s" "calls is_dev_call s' = calls is_dev_call s @ [?c] @
       map (\<lambda>t. DevCall (Ioctl (watchdog_fd s) WDIOC_SETTIMEOUT t)) (take n (filter (\<lambda>t. timeout < t) ts))"
    by auto
  show ?case
  proof (cases "timeout < t")
    case True
    then show ?thesis
      using IH by (cases "rv (kern E (trace s) ?c) \<ge> 0")
        (auto simp: dev_run intro: exI [of _ "1::nat"] exI [of _ "Suc n"])
  next
    case False
    then show ?thesis using Cons [of s] by simp
  qed
qed auto

lemma set_watchdog_timeout_run:
  assumes "watchdog_fd s \<noteq> - 1" and "0 < timeout"
  shows "\<exists>r s' n. set_watchdog_timeout E timeout s = (Ret r, s') \<and> cfg s' = cfg s \<and>
     watchdog_fd s' = watchdog_fd s \<and> timeout_used s' = timeout \<and> (r = 0 \<longrightarrow> n = 0) \<and>
     (r = 0 \<longleftrightarrow> 0 \<le> rv (kern E (trace s) (DevCall (Ioctl (watchdog_fd s) WDIOC_SETTIMEOUT timeout)))) \<and>
     calls is_dev_call s' = calls is_dev_call s @
       map (\<lambda>t. DevCall (Ioctl (watchdog_fd s) WDIOC_SETTIMEOUT t))
         (timeout # take n (filter (\<lambda>t. timeout < t) try_values))"
proof -
  let ?c = "DevCall (Ioctl (watchdog_fd s) WDIOC_SETTIMEOUT timeout)"
  let ?r = "kern E (trace s) ?c"
  let ?s0 = "s\<lparr>timeout_used := timeout, trace := trace s @ [(?c, ?r)]\<rparr>"
  let ?s1 = "logged E LOG_ERR ''cannot set timeout'' [AInt timeout, AInt (err ?r)] ?s0"
  have c0: "calls is_dev_call ?s0 = calls is_dev_call s @ [?c]"
    using calls_trace [of is_dev_call "s\<lparr>timeout_used := timeout\<rparr>" "[(?c, ?r)]"] by simp
  then have c1: "calls is_dev_call ?s1 = calls is_dev_call s @ [?c]" by (simp add: calls_logs)
  obtain r s' n where t: "try_times E timeout try_values ?s1 = (Ret r, s')"
    "dev_part s' = dev_part ?s1" "cfg s' = cfg ?s1" "calls is_dev_call s' = calls is_dev_call ?s1 @
       map (\<lambda>t. DevCall (Ioctl (watchdog_fd s) WDIOC_SETTIMEOUT t))
         (take n (filter (\<lambda>t. timeout < t) try_values))"
    using try_times_run [of E timeout try_values ?s1] by auto
  show ?thesis
  proof (cases "rv ?r < 0")
    case True
    with assms t c1 show ?thesis
      by (intro exI [of _ "- 1"] exI [of _ s'] exI [of _ n])
        (auto simp: set_watchdog_timeout_def try_other_times_def dev_run bind_apply_Ret)
  next
    case False
    with assms c0 show ?thesis
      by (auto simp: set_watchdog_timeout_def dev_run intro!: exI [of _ "0::nat"])
  qed
qed


text \<open>\<open>close_watchdog\<close> disarms an open device with the magic character before it closes it,
  sends nothing when no device is open, and always leaves the daemon without a device.\<close>

lemma close_watchdog_disarms:
  "\<exists>r s'. close_watchdog E s = (Ret r, s') \<and> watchdog_fd s' = - 1 \<and>
     calls is_dev_call s' = calls is_dev_call s @
       (if watchdog_fd s = - 1 then [] else [FileCall (Write (watchdog_fd s) ''V'')])"
  using close_watchdog_run [of E s] by (auto simp: closing_calls_def)

end
