(* ===== verification/Heartbeat.thy ===== *)
theory Heartbeat
  imports Device
begin

text \<open>
  \<^verbatim>\<open>src/heartbeat.c\<close>: the rolling buffer of time stamps and the file it is written to.

  The buffer is the flat array of \<open>hbstamps\<close> records of \<open>TS_SIZE\<close> bytes that the C code
  allocates, addressed by byte offsets; it refines a list that keeps the last
  \<open>hbstamps\<close> records (locale \<open>bounded_log\<close>). The end of the theory shows that this
  \<open>write_heartbeat\<close> meets the contract that \<open>keep_alive\<close> relies on.
\<close>

section \<open>State and operations\<close>

record hb_state = dev_state +
  hb :: int
  lastts :: int
  nrts :: int
  timestamps :: "string option"

definition TS_SIZE :: nat where "TS_SIZE = 12"

text \<open>\<open>memcpy\<close> into a buffer: outside its bounds the behaviour is undefined.\<close>

definition memcpy_at :: "string \<Rightarrow> nat \<Rightarrow> string \<Rightarrow> string" where
  "memcpy_at buf off src = take off buf @ src @ drop (off + length src) buf"

definition put_stamp :: "string \<Rightarrow> ('s hb_state_scheme, unit) proc" where
  "put_stamp src =
     bind (gets timestamps) (\<lambda>ts.
     bind (gets lastts) (\<lambda>l.
     case ts of
       None \<Rightarrow> fault
     | Some buf \<Rightarrow>
         if l < 0 \<or> nat l * TS_SIZE + length src > length buf then fault
         else modify (timestamps_update (\<lambda>_. Some (memcpy_at buf (nat l * TS_SIZE) src)))))"

definition next_value :: "('s hb_state_scheme, unit) proc" where
  "next_value =
     andthen (modify (\<lambda>s. if nrts s < hbstamps (cfg s) then s\<lparr>nrts := int32 (nrts s + 1)\<rparr> else s))
     (andthen (modify (\<lambda>s. s\<lparr>lastts := int32 (lastts s + 1)\<rparr>))
     (bind (gets (hbstamps \<circ> cfg)) (\<lambda>n.
      if n = 0 then fault
      else modify (\<lambda>s. s\<lparr>lastts := lastts s smod n\<rparr>))))"

definition close_heartbeat :: "env \<Rightarrow> ('s hb_state_scheme, int) proc" where
  "close_heartbeat E =
     bind (gets hb) (\<lambda>h.
     bind
       (if h \<noteq> 0 then
          bind (fsys E (Fclose h)) (\<lambda>r.
          if rv r = - 1 then
            bind (gets (heartbeat \<circ> cfg)) (\<lambda>nm.
            andthen (log_msg E LOG_ALERT ''cannot close''
                       [AStr (case nm of None \<Rightarrow> ''(null)'' | Some n \<Rightarrow> n), AInt (err r)])
            (ret (- 1)))
          else ret 0)
        else ret 0) (\<lambda>r.
     andthen (modify (hb_update (\<lambda>_. 0)))
     (andthen (modify (timestamps_update (\<lambda>_. None)))
     (ret r))))"

text \<open>The loop that reads the records of an earlier run; \<open>rbuf\<close> keeps bytes of the previous
  line behind a line that is shorter.\<close>

fun load_stamps :: "string \<Rightarrow> string list \<Rightarrow> ('s hb_state_scheme, unit) proc" where
  "load_stamps rbuf [] = ret ()"
| "load_stamps rbuf (l # ls) =
     (let rbuf' = l @ [NUL] @ drop (length l + 1) rbuf in
      andthen (put_stamp (take TS_SIZE rbuf'))
      (andthen next_value (load_stamps rbuf' ls)))"

text \<open>\<open>sprintf\<close> with \<open>%*s\<close> and a newline.\<close>

definition pad_line :: "nat \<Rightarrow> string \<Rightarrow> string" where
  "pad_line w t = replicate (w - length t) (CHR '' '') @ t @ [CHR 0x0A]"

definition restart_line :: string where
  "restart_line = pad_line (TS_SIZE - 1) ''--restart--''"

definition open_hb_stream :: "env \<Rightarrow> string \<Rightarrow> ('s hb_state_scheme, reply) proc" where
  "open_hb_stream E h =
     bind (fsys E (Fopen h ''r+'')) (\<lambda>r.
     if rv r = 0 then bind (fsys E (Fopen h ''w+'')) (\<lambda>w. ret (w\<lparr>dat := []\<rparr>))
     else ret r)"

definition load_heartbeat :: "env \<Rightarrow> config \<Rightarrow> reply \<Rightarrow> ('s hb_state_scheme, int) proc" where
  "load_heartbeat E c r =
     andthen (modify (\<lambda>s. s\<lparr>nrts := 0, lastts := 0\<rparr>))
     (bind (xcalloc E (hbstamps c) (int TS_SIZE)) (\<lambda>p.
      andthen (modify (timestamps_update (\<lambda>_.
                 if p then Some (replicate (nat (hbstamps c) * TS_SIZE) NUL) else None)))
      (andthen (do_sys E (FileCall (Rewind (rv r))))
      (andthen (load_stamps (uninit E (TS_SIZE + 1)) (fgets_lines (TS_SIZE + 1) (dat r)))
      (andthen (put_stamp (take TS_SIZE restart_line))
      (andthen next_value
      (ret 0)))))))"

definition open_heartbeat :: "env \<Rightarrow> ('s hb_state_scheme, int) proc" where
  "open_heartbeat E =
     bind (close_heartbeat E) (\<lambda>_.
     bind (gets cfg) (\<lambda>c.
     case heartbeat c of
       None \<Rightarrow> ret 0
     | Some h \<Rightarrow>
         bind (open_hb_stream E h) (\<lambda>r.
         andthen (modify (hb_update (\<lambda>_. rv r)))
         (if rv r = 0 then
            andthen (log_msg E LOG_ERR ''cannot open'' [AStr h, AInt (err r)]) (ret (- 1))
          else load_heartbeat E c r))))"

text \<open>One \<open>fwrite\<close> of \<open>n\<close> records; a short count is only reported.\<close>

definition fwrite_stamps :: "env \<Rightarrow> string \<Rightarrow> nat \<Rightarrow> int \<Rightarrow> ('s hb_state_scheme, unit) proc" where
  "fwrite_stamps E buf off n =
     bind (gets hb) (\<lambda>h.
     bind (fsys E (Fwrite h (take (nat n * TS_SIZE) (drop off buf)))) (\<lambda>r.
     whenp (rv r \<noteq> n) (log_msg E LOG_ERR ''write heartbeat file gave error'' [AInt (err r)])))"

text \<open>The time stamp: \<open>strftime\<close> fails, and leaves its buffer undefined, when the number and
  its terminator exceed \<open>TS_SIZE - 1\<close> bytes.\<close>

definition stamp_text :: "env \<Rightarrow> int \<Rightarrow> string option" where
  "stamp_text E timenow =
     (let t = show_int (utc_mktime E timenow) in
      if length t + 1 > TS_SIZE - 1 then None else Some (pad_line (TS_SIZE - 1) t))"

definition write_stamps :: "env \<Rightarrow> ('s hb_state_scheme, unit) proc" where
  "write_stamps E =
     bind (gets hb) (\<lambda>h.
     bind (gets (hbstamps \<circ> cfg)) (\<lambda>cap.
     bind (gets lastts) (\<lambda>l.
     bind (gets nrts) (\<lambda>n.
     bind (gets timestamps) (\<lambda>ts.
     case ts of
       None \<Rightarrow> fault
     | Some buf \<Rightarrow>
         andthen (do_sys E (FileCall (Rewind h)))
         (andthen
           (if n = cap then
              andthen (fwrite_stamps E buf (nat l * TS_SIZE) (cap - l))
              (fwrite_stamps E buf 0 l)
            else fwrite_stamps E buf 0 n)
         (do_sys E (FileCall (Fflush h)))))))))"

definition write_heartbeat :: "env \<Rightarrow> ('s hb_state_scheme, int) proc" where
  "write_heartbeat E =
     bind (gets hb) (\<lambda>h.
     if h = 0 then ret ENOERR
     else
       bind (psys E Time) (\<lambda>r.
       if v1 r \<noteq> - 1 then
         (case stamp_text E (v1 r) of
            None \<Rightarrow> fault
          | Some tbufw \<Rightarrow>
              andthen (put_stamp (take TS_SIZE tbufw))
              (andthen next_value
              (andthen (write_stamps E)
              (ret ENOERR))))
       else ret ENOERR))"

section \<open>A log of bounded length\<close>

definition keep_last :: "nat \<Rightarrow> 'a list \<Rightarrow> 'a list" where
  "keep_last n xs = drop (length xs - n) xs"

lemma keep_last_short [simp]: "length xs \<le> n \<Longrightarrow> keep_last n xs = xs"
  by (simp add: keep_last_def)

lemma length_keep_last [simp]: "length (keep_last n xs) = min n (length xs)"
  by (simp add: keep_last_def)

lemma keep_last_append: "keep_last n (keep_last n xs @ ys) = keep_last n (xs @ ys)"
  by (cases "length xs \<le> n") (auto simp: keep_last_def add.commute)

locale bounded_log =
  fixes cap :: nat
    and good :: "'a \<Rightarrow> bool"
    and inv :: "'r \<Rightarrow> bool"
    and items :: "'r \<Rightarrow> 'a list"
    and push :: "'a \<Rightarrow> 'r \<Rightarrow> 'r"
  assumes inv_push: "inv r \<Longrightarrow> good x \<Longrightarrow> inv (push x r)"
    and items_push: "inv r \<Longrightarrow> good x \<Longrightarrow> items (push x r) = keep_last cap (items r @ [x])"
    and items_bound: "inv r \<Longrightarrow> length (items r) \<le> cap"
begin

lemma fold_push:
  assumes "inv r" and "list_all good xs"
  shows "inv (fold push xs r) \<and> items (fold push xs r) = keep_last cap (items r @ xs)"
  using assms
proof (induction xs arbitrary: r)
  case (Cons x xs)
  then have "inv (push x r)" by (simp add: inv_push)
  with Cons show ?case by (simp add: items_push keep_last_append)
qed (simp add: items_bound)

end

text \<open>The ring: the buffer, the position of the next write and the number of records so far.\<close>

type_synonym ring = "string \<times> nat \<times> nat"

definition stamps :: "string \<Rightarrow> string list" where
  "stamps buf = map (\<lambda>i. take TS_SIZE (drop (i * TS_SIZE) buf)) [0..<length buf div TS_SIZE]"

fun ring_inv :: "nat \<Rightarrow> ring \<Rightarrow> bool" where
  "ring_inv cap (buf, l, n) \<longleftrightarrow> length buf = cap * TS_SIZE \<and> l < cap \<and> n \<le> cap \<and> (n < cap \<longrightarrow> l = n)"

fun ring_items :: "nat \<Rightarrow> ring \<Rightarrow> string list" where
  "ring_items cap (buf, l, n) =
     (if n = cap then drop l (stamps buf) @ take l (stamps buf) else take n (stamps buf))"

fun ring_push :: "nat \<Rightarrow> string \<Rightarrow> ring \<Rightarrow> ring" where
  "ring_push cap x (buf, l, n) =
     (memcpy_at buf (l * TS_SIZE) x, (l + 1) mod cap, if n < cap then n + 1 else n)"

abbreviation is_stamp :: "string \<Rightarrow> bool" where
  "is_stamp x \<equiv> length x = TS_SIZE"

lemma length_stamps [simp]: "length (stamps buf) = length buf div TS_SIZE"
  by (simp add: stamps_def)

lemma TS_SIZE_pos [simp]: "0 < TS_SIZE"
  by (simp add: TS_SIZE_def)

lemma length_memcpy_at: "off + length src \<le> length buf \<Longrightarrow> length (memcpy_at buf off src) = length buf"
  by (simp add: memcpy_at_def)

lemma nth_memcpy_at:
  assumes "off + length src \<le> length buf" and "i < length buf"
  shows "memcpy_at buf off src ! i =
     (if off \<le> i \<and> i < off + length src then src ! (i - off) else buf ! i)"
  using assms by (auto simp: memcpy_at_def nth_append)

lemma slot_bound:
  assumes "i < (cap::nat)" shows "i * k + k \<le> cap * k"
  using assms by (metis Suc_leI add.commute mult_Suc mult_le_mono1)

lemma stamps_memcpy_at:
  assumes "is_stamp x" and "length buf = cap * TS_SIZE" and "l < cap"
  shows "stamps (memcpy_at buf (l * TS_SIZE) x) = (stamps buf)[l := x]"
proof (rule nth_equalityI)
  have len: "length (memcpy_at buf (l * TS_SIZE) x) = length buf"
    using assms slot_bound [of l cap TS_SIZE] by (intro length_memcpy_at) simp
  show "length (stamps (memcpy_at buf (l * TS_SIZE) x)) = length ((stamps buf)[l := x])"
    by (simp add: len)
  fix i
  assume "i < length (stamps (memcpy_at buf (l * TS_SIZE) x))"
  then have i: "i < cap" using assms(2) by (simp add: len)
  have bi: "i * TS_SIZE + TS_SIZE \<le> length buf" and bl: "l * TS_SIZE + TS_SIZE \<le> length buf"
    using slot_bound [OF i, of TS_SIZE] slot_bound [OF assms(3), of TS_SIZE] assms(2) by simp_all
  have "take TS_SIZE (drop (i * TS_SIZE) (memcpy_at buf (l * TS_SIZE) x)) =
      (if i = l then x else take TS_SIZE (drop (i * TS_SIZE) buf))"
  proof (rule nth_equalityI)
    fix j
    assume "j < length (take TS_SIZE (drop (i * TS_SIZE) (memcpy_at buf (l * TS_SIZE) x)))"
    then have j: "j < TS_SIZE" by simp
    have "i \<noteq> l \<Longrightarrow> \<not> (l * TS_SIZE \<le> i * TS_SIZE + j \<and> i * TS_SIZE + j < l * TS_SIZE + TS_SIZE)"
      using slot_bound [of i l TS_SIZE] slot_bound [of l i TS_SIZE] j by (auto simp: nat_neq_iff)
    then show "take TS_SIZE (drop (i * TS_SIZE) (memcpy_at buf (l * TS_SIZE) x)) ! j =
        (if i = l then x else take TS_SIZE (drop (i * TS_SIZE) buf)) ! j"
      using j bi bl assms(1) len by (cases "i = l") (auto simp: nth_memcpy_at)
  qed (use bi len assms(1) in simp)
  then show "stamps (memcpy_at buf (l * TS_SIZE) x) ! i = (stamps buf)[l := x] ! i"
    using i assms(2) by (simp add: stamps_def len nth_list_update)
qed

lemma ring_inv_push:
  assumes "ring_inv cap r" and "is_stamp x"
  shows "ring_inv cap (ring_push cap x r)"
proof (cases r)
  case (fields buf l n)
  with assms have "l * TS_SIZE + length x \<le> length buf"
    using slot_bound [of l cap TS_SIZE] by simp
  with assms fields show ?thesis by (auto simp: length_memcpy_at)
qed

lemma rotate_update:
  assumes "l < length S"
  shows "tl (drop l S @ take l S @ [x]) = drop (Suc l) S @ take l S @ [x]"
  using assms by (simp add: Cons_nth_drop_Suc [symmetric])

lemma ring_items_push:
  assumes "ring_inv cap r" and x: "is_stamp x"
  shows "ring_items cap (ring_push cap x r) = keep_last cap (ring_items cap r @ [x])"
proof (cases r)
  case (fields buf l n)
  let ?S = "stamps buf"
  from assms fields have inv: "length buf = cap * TS_SIZE" "l < cap" "n \<le> cap" "n < cap \<Longrightarrow> l = n"
    by auto
  have S': "stamps (memcpy_at buf (l * TS_SIZE) x) = ?S[l := x]" "length ?S = cap"
    using stamps_memcpy_at [OF x inv(1,2)] inv(1) by simp_all
  have full: "drop (Suc l) (?S[l := x]) @ take (Suc l) (?S[l := x]) = drop (Suc l) ?S @ take l ?S @ [x]"
    using inv(2) S'(2) by (simp add: take_Suc_conv_app_nth)
  show ?thesis
  proof (cases "n < cap")
    case True
    with inv S' fields show ?thesis
      by (auto simp: take_Suc_conv_app_nth Suc_leI le_antisym upd_conv_take_nth_drop)
  next
    case False
    then have n: "n = cap" using inv(3) by simp
    have "keep_last cap (drop l ?S @ take l ?S @ [x]) = tl (drop l ?S @ take l ?S @ [x])"
      using inv(2) S'(2) by (simp add: keep_last_def drop_Suc tl_drop)
    then have k: "keep_last cap (drop l ?S @ take l ?S @ [x]) = drop (Suc l) ?S @ take l ?S @ [x]"
      using rotate_update [of l ?S x] inv(2) S'(2) by simp
    show ?thesis
    proof (cases "Suc l = cap")
      case True
      with n k S' full fields inv(2) show ?thesis by (simp add: True)
    next
      case False
      with inv(2) have "Suc l mod cap = Suc l" by simp
      with n k S' full fields show ?thesis by simp
    qed
  qed
qed

lemma ring_items_bound: "ring_inv cap r \<Longrightarrow> length (ring_items cap r) \<le> cap"
  by (cases r) auto

interpretation ring: bounded_log cap is_stamp "ring_inv cap" "ring_items cap" "ring_push cap"
  by unfold_locales (rule ring_inv_push ring_items_push ring_items_bound; assumption)+

section \<open>The C code refines the ring\<close>

abbreviation hb_cap :: "'s hb_state_scheme \<Rightarrow> nat" where
  "hb_cap s \<equiv> nat (hbstamps (cfg s))"

definition ring_of :: "'s hb_state_scheme \<Rightarrow> ring" where
  "ring_of s = (case timestamps s of None \<Rightarrow> [] | Some buf \<Rightarrow> buf, nat (lastts s), nat (nrts s))"

text \<open>The invariant of an open heartbeat file.\<close>

definition hb_inv :: "'s hb_state_scheme \<Rightarrow> bool" where
  "hb_inv s \<longleftrightarrow> timestamps s \<noteq> None \<and> 0 \<le> lastts s \<and> 0 \<le> nrts s \<and> hbstamps (cfg s) \<le> INT_MAX \<and>
     ring_inv (hb_cap s) (ring_of s)"

definition stamp_list :: "'s hb_state_scheme \<Rightarrow> string list" where
  "stamp_list s = ring_items (hb_cap s) (ring_of s)"

text \<open>One record stored and the indices moved on.\<close>

definition pushed :: "string \<Rightarrow> 's hb_state_scheme \<Rightarrow> 's hb_state_scheme" where
  "pushed x s = (case ring_push (hb_cap s) x (ring_of s) of (buf, l, n) \<Rightarrow>
     s\<lparr>timestamps := Some buf, nrts := int n, lastts := int l\<rparr>)"

lemma push_run:
  assumes "hb_inv s" and "is_stamp x"
  shows "andthen (put_stamp x) (andthen next_value k) s = k (pushed x s)"
proof -
  let ?N = "hbstamps (cfg s)"
  obtain buf where buf: "timestamps s = Some buf" using assms(1) by (auto simp: hb_inv_def)
  with assms(1) have i: "length buf = nat ?N * TS_SIZE" "nat (lastts s) < nat ?N" "nat (nrts s) \<le> nat ?N"
    "0 \<le> lastts s" "0 \<le> nrts s" "?N \<le> INT_MAX"
    by (auto simp: hb_inv_def ring_of_def)
  have b: "nat (lastts s) * TS_SIZE + TS_SIZE \<le> length buf"
    using slot_bound [OF i(2), of TS_SIZE] i(1) by simp
  have l: "int32 (lastts s + 1) = lastts s + 1" using i by (intro int32_id) (auto simp: int_limits)
  have n: "nrts s < ?N \<Longrightarrow> int32 (nrts s + 1) = nrts s + 1"
    using i by (intro int32_id) (auto simp: int_limits)
  have m: "(lastts s + 1) smod ?N = int (Suc (nat (lastts s)) mod nat ?N)"
    using i by (simp add: signed_modulo_int_def zmod_int sgn_if add.commute)
  have c: "nat (nrts s) < nat ?N \<longleftrightarrow> nrts s < ?N" using i by auto
  let ?s1 = "s\<lparr>timestamps := Some (memcpy_at buf (nat (lastts s) * TS_SIZE) x)\<rparr>"
  have 1: "put_stamp x s = (Ret (), ?s1)"
    using i(4) b assms(2) buf by (simp add: put_stamp_def)
  have "?N \<noteq> 0" using i(2) by auto
  then have 2: "next_value ?s1 = (Ret (), pushed x s)"
    using i(4,5) buf l m n c by (simp add: next_value_def pushed_def ring_of_def)
  show ?thesis by (rule run_andthen, rule 1, rule run_andthen, rule 2, rule refl)
qed

lemma pushed_sel [simp]:
  "cfg (pushed x s) = cfg s" "hb (pushed x s) = hb s" "trace (pushed x s) = trace s"
  "watchdog_fd (pushed x s) = watchdog_fd s" "timeout_used (pushed x s) = timeout_used s"
  "Refresh_using_ioctl (pushed x s) = Refresh_using_ioctl s"
  by (simp_all add: pushed_def split: prod.split)

lemma ring_of_pushed: "ring_of (pushed x s) = ring_push (hb_cap s) x (ring_of s)"
  by (cases "ring_push (hb_cap s) x (ring_of s)") (simp add: pushed_def, simp add: ring_of_def)

lemma pushed_inv:
  assumes "hb_inv s" and "is_stamp x"
  shows "hb_inv (pushed x s)"
proof -
  have "ring_inv (hb_cap s) (ring_of (pushed x s))"
    using ring.inv_push [of "hb_cap s"] assms by (simp add: ring_of_pushed hb_inv_def)
  moreover have "timestamps (pushed x s) \<noteq> None" "0 \<le> lastts (pushed x s)" "0 \<le> nrts (pushed x s)"
    by (simp_all add: pushed_def split: prod.split)
  ultimately show ?thesis using assms(1) by (simp add: hb_inv_def)
qed

lemma stamp_list_pushed:
  assumes "hb_inv s" and "is_stamp x"
  shows "stamp_list (pushed x s) = keep_last (hb_cap s) (stamp_list s @ [x])"
  using ring.items_push [of "hb_cap s" "ring_of s" x] assms
  by (simp add: stamp_list_def ring_of_pushed hb_inv_def)

section \<open>Writing the file\<close>

fun is_fwrite :: "syscall \<Rightarrow> bool" where
  "is_fwrite (FileCall (Fwrite h b)) = True"
| "is_fwrite c = False"

fun fwrite_bytes :: "syscall \<Rightarrow> string" where
  "fwrite_bytes (FileCall (Fwrite h b)) = b"
| "fwrite_bytes c = []"

definition file_output :: "'s hb_state_scheme \<Rightarrow> string" where
  "file_output s = concat (map fwrite_bytes (calls is_fwrite s))"

lemma log_call_not_fwrite [simp]: "is_log_call c \<Longrightarrow> \<not> is_fwrite c"
  by (cases c rule: is_log_call.cases) auto

lemma hb_logs [simp]:
  "hb (logged E l f a s) = hb s" "lastts (logged E l f a s) = lastts s"
  "nrts (logged E l f a s) = nrts s" "timestamps (logged E l f a s) = timestamps s"
  by (rule logs_frame, simp add: log_frame_def)+

lemma calls_hb_update [simp]:
  "calls P (pushed x s) = calls P s" "calls P (hb_update f s) = calls P s"
  by (simp_all add: calls_def)

lemma concat_take_stamps:
  assumes "length buf = cap * TS_SIZE" and "k \<le> cap"
  shows "concat (take k (stamps buf)) = take (k * TS_SIZE) buf"
  using assms(2)
proof (induction k)
  case (Suc k)
  then have "stamps buf ! k = take TS_SIZE (drop (k * TS_SIZE) buf)" "k < length (stamps buf)"
    using assms(1) by (simp_all add: stamps_def)
  with Suc show ?case
    by (simp add: take_Suc_conv_app_nth) (metis add.commute take_add)
qed simp

lemma concat_drop_stamps:
  assumes "length buf = cap * TS_SIZE" and "k \<le> cap"
  shows "concat (drop k (stamps buf)) = drop (k * TS_SIZE) buf"
proof -
  have "concat (take k (stamps buf)) @ concat (drop k (stamps buf)) = concat (take cap (stamps buf))"
    using assms by (simp flip: concat_append)
  also have "\<dots> = take (k * TS_SIZE) buf @ drop (k * TS_SIZE) buf"
    using concat_take_stamps [OF assms(1), of cap] assms(1) by simp
  finally show ?thesis using concat_take_stamps [OF assms] by (simp del: append_take_drop_id)
qed

text \<open>The parts of the state that the output does not change.\<close>

abbreviation hb_part :: "'s hb_state_scheme \<Rightarrow> int \<times> int \<times> int \<times> string option" where
  "hb_part s \<equiv> (hb s, lastts s, nrts s, timestamps s)"

lemma hb_part_inv: "hb_part s = hb_part s' \<Longrightarrow> cfg s = cfg s' \<Longrightarrow> hb_inv s = hb_inv s'"
  by (simp add: hb_inv_def ring_of_def)

lemma hb_part_stamps: "hb_part s = hb_part s' \<Longrightarrow> cfg s = cfg s' \<Longrightarrow> stamp_list s = stamp_list s'"
  by (simp add: stamp_list_def ring_of_def)

lemma fwrite_stamps_run:
  "\<exists>s'. fwrite_stamps E buf off n s = (Ret (), s') \<and> hb_part s' = hb_part s \<and> cfg s' = cfg s \<and>
     dev_part s' = dev_part s \<and> calls is_pace_call s' = calls is_pace_call s \<and>
     file_output s' = file_output s @ take (nat n * TS_SIZE) (drop off buf)"
  by (auto simp: fwrite_stamps_def whenp_def logs_run file_output_def calls_logs)

lemma write_stamps_run:
  assumes "hb_inv s"
  shows "\<exists>s'. write_stamps E s = (Ret (), s') \<and> hb_part s' = hb_part s \<and> cfg s' = cfg s \<and>
     dev_part s' = dev_part s \<and> calls is_pace_call s' = calls is_pace_call s \<and>
     file_output s' = file_output s @ concat (stamp_list s)"
proof -
  let ?N = "hbstamps (cfg s)" and ?l = "nat (lastts s)" and ?n = "nat (nrts s)"
  let ?c = "FileCall (Rewind (hb s))"
  let ?s0 = "s\<lparr>trace := trace s @ [(?c, kern E (trace s) ?c)]\<rparr>"
  obtain buf where buf: "timestamps s = Some buf" using assms by (auto simp: hb_inv_def)
  with assms have i: "length buf = nat ?N * TS_SIZE" "?l < nat ?N" "?n \<le> nat ?N"
    "0 \<le> lastts s" "0 \<le> nrts s" and full: "nrts s = ?N \<longleftrightarrow> ?n = nat ?N"
    by (auto simp: hb_inv_def ring_of_def)
  have o0: "file_output ?s0 = file_output s" by (simp add: file_output_def)
  have fin: "\<exists>s''. do_sys E (FileCall (Fflush (hb s))) s' = (Ret (), s'') \<and> hb_part s'' = hb_part s' \<and>
      cfg s'' = cfg s' \<and> dev_part s'' = dev_part s' \<and>
      calls is_pace_call s'' = calls is_pace_call s' \<and> file_output s'' = file_output s'"
    for s' :: "'a hb_state_scheme" by (simp add: file_output_def)
  show ?thesis
  proof (cases "nrts s = ?N")
    case True
    have t: "take (nat (?N - lastts s) * TS_SIZE) (drop (?l * TS_SIZE) buf) = drop (?l * TS_SIZE) buf"
      using i by (intro take_all) (simp add: nat_diff_distrib diff_mult_distrib)
    obtain s1 where 1: "fwrite_stamps E buf (?l * TS_SIZE) (?N - lastts s) ?s0 = (Ret (), s1)"
      "hb_part s1 = hb_part s" "cfg s1 = cfg s" "dev_part s1 = dev_part s"
      "calls is_pace_call s1 = calls is_pace_call s"
      "file_output s1 = file_output s @ drop (?l * TS_SIZE) buf"
      using fwrite_stamps_run [of E buf "?l * TS_SIZE" "?N - lastts s" ?s0] o0 t by auto
    obtain s2 where 2: "fwrite_stamps E buf 0 (lastts s) s1 = (Ret (), s2)"
      "hb_part s2 = hb_part s" "cfg s2 = cfg s" "dev_part s2 = dev_part s"
      "calls is_pace_call s2 = calls is_pace_call s"
      "file_output s2 = file_output s @ drop (?l * TS_SIZE) buf @ take (?l * TS_SIZE) buf"
      using fwrite_stamps_run [of E buf 0 "lastts s" s1] 1 by auto
    have "concat (stamp_list s) = drop (?l * TS_SIZE) buf @ take (?l * TS_SIZE) buf"
      using full True buf concat_take_stamps [OF i(1) less_imp_le [OF i(2)]]
        concat_drop_stamps [OF i(1) less_imp_le [OF i(2)]]
      by (simp add: stamp_list_def ring_of_def)
    with 1 2 fin [of s2] True buf show ?thesis
      by (simp add: write_stamps_def andthen_apply_Ret)
  next
    case False
    obtain s1 where 1: "fwrite_stamps E buf 0 (nrts s) ?s0 = (Ret (), s1)"
      "hb_part s1 = hb_part s" "cfg s1 = cfg s" "dev_part s1 = dev_part s"
      "calls is_pace_call s1 = calls is_pace_call s"
      "file_output s1 = file_output s @ take (?n * TS_SIZE) buf"
      using fwrite_stamps_run [of E buf 0 "nrts s" ?s0] o0 by auto
    have "concat (stamp_list s) = take (?n * TS_SIZE) buf"
      using full False buf i concat_take_stamps [of buf "nat ?N" ?n]
      by (simp add: stamp_list_def ring_of_def)
    with 1 fin [of s1] False buf show ?thesis
      by (simp add: write_stamps_def andthen_apply_Ret)
  qed
qed

lemma stamp_text_is_stamp: "stamp_text E t = Some x \<Longrightarrow> is_stamp x"
  by (auto simp: stamp_text_def Let_def pad_line_def TS_SIZE_def split: if_splits)

lemma write_heartbeat_run:
  assumes "hb s \<noteq> 0" and "hb_inv s" and "v1 (kern E (trace s) (ProcCall Time)) \<noteq> - 1"
    and x: "stamp_text E (v1 (kern E (trace s) (ProcCall Time))) = Some x"
  shows "\<exists>s'. write_heartbeat E s = (Ret ENOERR, s') \<and> hb_inv s' \<and> hb s' = hb s \<and> cfg s' = cfg s \<and>
     dev_part s' = dev_part s \<and> calls is_pace_call s' = calls is_pace_call s \<and>
     stamp_list s' = keep_last (hb_cap s) (stamp_list s @ [x]) \<and>
     file_output s' = file_output s @ concat (stamp_list s')"
proof -
  let ?c = "ProcCall Time"
  let ?s0 = "s\<lparr>trace := trace s @ [(?c, kern E (trace s) ?c)]\<rparr>"
  have st: "is_stamp x" "take TS_SIZE x = x" using stamp_text_is_stamp [OF x] by simp_all
  have i0: "hb_inv ?s0" using assms(2) hb_part_inv [of ?s0 s] by simp
  have o0: "file_output (pushed x ?s0) = file_output s" "stamp_list ?s0 = stamp_list s"
    by (simp_all add: file_output_def hb_part_stamps [of ?s0 s])
  obtain s1 where 1: "write_stamps E (pushed x ?s0) = (Ret (), s1)" "hb_part s1 = hb_part (pushed x ?s0)"
    "cfg s1 = cfg s" "dev_part s1 = dev_part s" "calls is_pace_call s1 = calls is_pace_call s"
    "file_output s1 = file_output s @ concat (stamp_list (pushed x ?s0))"
    using write_stamps_run [OF pushed_inv [OF i0 st(1)], of E] o0 by auto
  have same: "stamp_list s1 = stamp_list (pushed x ?s0)" "hb_inv s1"
    using 1 pushed_inv [OF i0 st(1)] hb_part_stamps [of s1 "pushed x ?s0"] hb_part_inv [of s1 "pushed x ?s0"]
    by simp_all
  have "andthen (put_stamp x) (andthen next_value (andthen (write_stamps E) (ret ENOERR))) ?s0 =
      (Ret ENOERR, s1)"
    by (subst push_run [OF i0 st(1)]) (use 1(1) in \<open>simp add: andthen_apply_Ret\<close>)
  then have "write_heartbeat E s = (Ret ENOERR, s1)"
    using assms st by (simp add: write_heartbeat_def)
  then show ?thesis
    using 1 same stamp_list_pushed [OF i0 st(1)] o0 by simp
qed

text \<open>C32. Writing the heartbeat: the buffer keeps exactly the last \<open>hbstamps\<close> time stamps in order,
  whatever the position of the ring, and the file receives exactly these records, oldest first.\<close>

theorem write_heartbeat_file:
  assumes "hb s \<noteq> 0" and "hb_inv s" and "v1 (kern E (trace s) (ProcCall Time)) \<noteq> - 1"
    and "stamp_text E (v1 (kern E (trace s) (ProcCall Time))) = Some x"
  shows "\<exists>s'. write_heartbeat E s = (Ret ENOERR, s') \<and> hb_inv s' \<and>
     stamp_list s' = keep_last (hb_cap s) (stamp_list s @ [x]) \<and>
     file_output s' = file_output s @ concat (stamp_list s')"
  using write_heartbeat_run [OF assms] by blast

section \<open>The contract with \<open>keep_alive\<close>\<close>

definition stamps_fit :: "env \<Rightarrow> bool" where
  "stamps_fit E \<longleftrightarrow> (\<forall>t. stamp_text E t \<noteq> None)"

definition hb_ok :: "env \<Rightarrow> 's hb_state_scheme \<Rightarrow> bool" where
  "hb_ok E s \<longleftrightarrow> hb s = 0 \<or> hb_inv s \<and> stamps_fit E"

lemma write_heartbeat_contract:
  assumes "hb_ok E s"
  shows "\<exists>r s'. write_heartbeat E s = (Ret r, s') \<and> hb_ok E s' \<and> dev_part s' = dev_part s \<and>
     cfg s' = cfg s \<and> calls is_pace_call s' = calls is_pace_call s"
proof -
  let ?t = "v1 (kern E (trace s) (ProcCall Time))"
  consider "hb s = 0" | "hb s \<noteq> 0" "?t = - 1" | x where "hb s \<noteq> 0" "?t \<noteq> - 1" "stamp_text E ?t = Some x"
    using assms by (auto simp: hb_ok_def stamps_fit_def)
  then show ?thesis
  proof cases
    case 1
    with assms show ?thesis by (simp add: write_heartbeat_def)
  next
    case 2
    with assms show ?thesis
      using hb_part_inv [of "s\<lparr>trace := t\<rparr>" s for t] by (simp add: write_heartbeat_def hb_ok_def)
  next
    case 3
    with assms have "hb_inv s" "stamps_fit E" by (auto simp: hb_ok_def)
    with write_heartbeat_run [OF 3(1) _ 3(2,3)] show ?thesis by (auto simp: hb_ok_def)
  qed
qed

lemma hb_ok_frame: "log_frame (hb_ok E)"
  by (simp add: log_frame_def hb_ok_def hb_inv_def ring_of_def)

interpretation wd: heartbeat_writer write_heartbeat hb_ok
  by unfold_locales (rule write_heartbeat_contract hb_ok_frame; assumption?)+

text \<open>The refreshing functions as the watchdog daemon links them.\<close>

definition wd_keep_alive :: "env \<Rightarrow> ('s hb_state_scheme, int) proc" where
  "wd_keep_alive E = keep_alive E (write_heartbeat E)"

definition wd_safe_sleep :: "env \<Rightarrow> int \<Rightarrow> ('s hb_state_scheme, unit) proc" where
  "wd_safe_sleep E sec = safe_sleep E (write_heartbeat E) sec"

text \<open>\<open>keep_alive\<close> refreshes an open device exactly once, with the call the refresh mode asks
  for, and sends nothing when there is no device; it returns whatever the driver answers, and
  changes neither the device variables nor the configuration.\<close>

lemma keep_alive_refreshes_once:
  assumes "hb_ok E s"
  shows "\<exists>r s'. wd_keep_alive E s = (Ret r, s') \<and> hb_ok E s' \<and> dev_part s' = dev_part s \<and>
     cfg s' = cfg s \<and> calls is_pace_call s' = calls is_pace_call s @ refresh_calls (dev_part s)"
  using wd.keep_alive_run [of E s "dev_part s" "cfg s"] assms by (simp add: wd_keep_alive_def)

text \<open>C29. \<open>safe_sleep\<close> keeps the watchdog device alive: it refreshes at once and after each of its
  one-second sleeps, so between two refreshes the daemon never sleeps for more than a second.\<close>

theorem safe_sleep_paced:
  assumes "hb_ok E s"
  shows "\<exists>s'. wd_safe_sleep E sec s = (Ret (), s') \<and> hb_ok E s' \<and> dev_part s' = dev_part s \<and>
     calls is_pace_call s' = calls is_pace_call s @ refresh_calls (dev_part s) @
       concat (replicate (nat sec) (ProcCall (Sleep 1) # refresh_calls (dev_part s)))"
  using wd.safe_sleep_run [of E s "dev_part s" "cfg s" sec] assms by (simp add: wd_safe_sleep_def) blast

section \<open>Reading the file back\<close>

definition is_line :: "string \<Rightarrow> bool" where
  "is_line x \<longleftrightarrow> is_stamp x \<and> last x = CHR 0x0A \<and> CHR 0x0A \<notin> set (butlast x)"

lemma fgets_line:
  "CHR 0x0A \<notin> set y \<Longrightarrow> fgets (length y + 2) (y @ CHR 0x0A # rest) = (y @ [CHR 0x0A], rest)"
  by (induction y) auto

lemma fgets_lines_concat: "list_all is_line xs \<Longrightarrow> fgets_lines (TS_SIZE + 1) (concat xs) = xs"
proof (induction xs)
  case Nil
  then show ?case by (simp add: fgets_lines.simps)
next
  case (Cons x xs)
  then have l: "is_stamp x" "last x = CHR 0x0A" "CHR 0x0A \<notin> set (butlast x)"
    by (simp_all add: is_line_def)
  then have "x \<noteq> []" by (auto simp: TS_SIZE_def)
  with l have x: "x = butlast x @ [CHR 0x0A]" "length (butlast x) + 2 = TS_SIZE + 1"
    by (auto simp: TS_SIZE_def) (metis append_butlast_last_id)
  then have "fgets (TS_SIZE + 1) (x @ concat xs) = (x, concat xs)"
    using fgets_line [OF l(3), of "concat xs"] by (metis append.assoc append_Cons append_Nil)
  with Cons \<open>x \<noteq> []\<close> show ?case by (subst fgets_lines.simps) (simp add: TS_SIZE_def)
qed

lemma pad_line_is_line:
  assumes "length t \<le> TS_SIZE - 1" and "CHR 0x0A \<notin> set t"
  shows "is_line (pad_line (TS_SIZE - 1) t)"
  using assms by (auto simp: is_line_def pad_line_def TS_SIZE_def butlast_append)

lemma show_int_no_newline: "CHR 0x0A \<notin> set (show_int i)"
  using plain_value_show_int [of i] by (auto simp: plain_value_def list_all_iff is_white_def)

lemma stamp_text_is_line: "stamp_text E t = Some x \<Longrightarrow> is_line x"
  using pad_line_is_line [OF _ show_int_no_newline]
  by (auto simp: stamp_text_def Let_def split: if_splits)

lemma restart_line_is_line: "is_line restart_line"
  unfolding restart_line_def by (rule pad_line_is_line) (simp_all add: TS_SIZE_def)

lemma ring_of_fold_pushed:
  "ring_of (fold pushed xs s) = fold (ring_push (hb_cap s)) xs (ring_of s) \<and> cfg (fold pushed xs s) = cfg s"
  by (induction xs arbitrary: s) (simp_all add: ring_of_pushed)

lemma fold_pushed_inv: "hb_inv s \<Longrightarrow> list_all is_stamp xs \<Longrightarrow> hb_inv (fold pushed xs s)"
  by (induction xs arbitrary: s) (simp_all add: pushed_inv)

lemma fold_pushed_hb: "hb (fold pushed xs s) = hb s"
  by (induction xs arbitrary: s) simp_all

lemma stamp_list_fold_pushed:
  assumes "hb_inv s" and "list_all is_stamp xs"
  shows "stamp_list (fold pushed xs s) = keep_last (hb_cap s) (stamp_list s @ xs)"
  using ring.fold_push [of "hb_cap s" "ring_of s" xs] assms
  by (simp add: stamp_list_def ring_of_fold_pushed hb_inv_def)

lemma load_stamps_run:
  assumes "hb_inv s" and "list_all is_stamp xs"
  shows "load_stamps rbuf xs s = (Ret (), fold pushed xs s)"
  using assms
proof (induction xs arbitrary: rbuf s)
  case (Cons x xs)
  have t: "take TS_SIZE (x @ [NUL] @ drop (length x + 1) rbuf) = x" using Cons.prems(2) by simp
  show ?case
    unfolding load_stamps.simps Let_def t
    by (subst push_run) (use Cons in \<open>simp_all add: pushed_inv\<close>)
qed simp

text \<open>The environments in which the heartbeat file can be read.\<close>

definition file_has :: "env \<Rightarrow> string \<Rightarrow> string \<Rightarrow> bool" where
  "file_has E h cs \<longleftrightarrow> (\<forall>tr. rv (kern E tr (FileCall (Fopen h ''r+''))) \<noteq> 0 \<and>
     dat (kern E tr (FileCall (Fopen h ''r+''))) = cs)"

lemma close_heartbeat_run:
  "\<exists>r s'. close_heartbeat E s = (Ret r, s') \<and> hb s' = 0 \<and> timestamps s' = None \<and> cfg s' = cfg s \<and>
     dev_part s' = dev_part s"
  by (auto simp: close_heartbeat_def proc_assoc logs_run)

lemma fresh_ring:
  assumes "timestamps s = Some (replicate (hb_cap s * TS_SIZE) NUL)" and "lastts s = 0" "nrts s = 0"
    and "0 < hbstamps (cfg s)" "hbstamps (cfg s) \<le> INT_MAX"
  shows "hb_inv s \<and> stamp_list s = []"
  using assms by (simp add: hb_inv_def stamp_list_def ring_of_def)

lemma load_heartbeat_run:
  assumes n: "0 < hbstamps (cfg s)" "hbstamps (cfg s) \<le> INT_MAX"
    and f: "dat r = concat xs" "list_all is_line xs" and m: "memory_ok E"
  shows "\<exists>s'. load_heartbeat E (cfg s) r s = (Ret 0, s') \<and> hb s' = hb s \<and> hb_inv s' \<and>
     cfg s' = cfg s \<and> stamp_list s' = keep_last (hb_cap s) (xs @ [restart_line])"
proof -
  let ?s0 = "s\<lparr>nrts := 0, lastts := 0\<rparr>" and ?rew = "FileCall (Rewind (rv r))"
  obtain t where alloc: "xcalloc E (hbstamps (cfg s)) (int TS_SIZE) ?s0 = (Ret True, ?s0\<lparr>trace := t\<rparr>)"
    using xcalloc_run [OF m, of "hbstamps (cfg s)" "int TS_SIZE" ?s0] n by (auto simp: TS_SIZE_def)
  define s2 where "s2 = ?s0\<lparr>timestamps := Some (replicate (hb_cap s * TS_SIZE) NUL),
     trace := t @ [(?rew, kern E t ?rew)]\<rparr>"
  have i: "hb_inv s2" "stamp_list s2 = []" "hb_cap s2 = hb_cap s" "cfg s2 = cfg s" "hb s2 = hb s"
    using fresh_ring [of s2] n by (simp_all add: s2_def)
  have st: "list_all is_stamp (xs @ [restart_line])"
    using f(2) restart_line_is_line by (auto simp: list_all_iff is_line_def)
  let ?s3 = "fold pushed (xs @ [restart_line]) s2"
  have load: "load_stamps (uninit E (TS_SIZE + 1)) (fgets_lines (TS_SIZE + 1) (dat r)) s2 =
      (Ret (), fold pushed xs s2)"
    using load_stamps_run [OF i(1)] st f fgets_lines_concat [OF f(2)] by simp
  have rest: "andthen (put_stamp (take TS_SIZE restart_line)) (andthen next_value (ret 0))
      (fold pushed xs s2) = (Ret 0, ?s3)"
    using push_run [OF fold_pushed_inv [OF i(1)], of xs restart_line "ret 0"] st by simp
  have "load_heartbeat E (cfg s) r s =
      andthen (load_stamps (uninit E (TS_SIZE + 1)) (fgets_lines (TS_SIZE + 1) (dat r)))
      (andthen (put_stamp (take TS_SIZE restart_line)) (andthen next_value (ret 0))) s2"
    using alloc by (simp add: load_heartbeat_def bind_apply_Ret s2_def)
  also have "\<dots> = (Ret 0, ?s3)" by (rule run_andthen, rule load, rule rest)
  finally show ?thesis
    using fold_pushed_inv [OF i(1) st] stamp_list_fold_pushed [OF i(1) st] i
      ring_of_fold_pushed [of "xs @ [restart_line]" s2] fold_pushed_hb [of "xs @ [restart_line]" s2]
    by (simp del: fold_append)
qed

text \<open>The heartbeat file survives a restart: opening a file that holds complete records loads
  the last \<open>hbstamps\<close> of them in order and then records the restart, so what was written to the
  file is what the next run continues from.\<close>

lemma open_heartbeat_reloads:
  assumes h: "heartbeat (cfg s) = Some h" and n: "0 < hbstamps (cfg s)" "hbstamps (cfg s) \<le> INT_MAX"
    and f: "file_has E h (concat xs)" "list_all is_line xs" and m: "memory_ok E"
  shows "\<exists>s'. open_heartbeat E s = (Ret 0, s') \<and> hb s' \<noteq> 0 \<and> hb_inv s' \<and> cfg s' = cfg s \<and>
     stamp_list s' = keep_last (hb_cap s) (xs @ [restart_line])"
proof -
  obtain r1 s1 where 1: "close_heartbeat E s = (Ret r1, s1)" "cfg s1 = cfg s"
    using close_heartbeat_run [of E s] by auto
  let ?fo = "FileCall (Fopen h ''r+'')"
  let ?r = "kern E (trace s1) ?fo"
  let ?s2 = "s1\<lparr>trace := trace s1 @ [(?fo, ?r)], hb := rv ?r\<rparr>"
  have r: "rv ?r \<noteq> 0" "dat ?r = concat xs" using f(1) by (auto simp: file_has_def)
  have "open_heartbeat E s = load_heartbeat E (cfg ?s2) ?r ?s2"
    using 1 h r by (simp add: open_heartbeat_def open_hb_stream_def bind_apply_Ret bind_assoc)
  then show ?thesis
    using load_heartbeat_run [of ?s2 ?r xs E] n f(2) m r 1 by auto
qed

text \<open>A record that \<open>write_heartbeat\<close> produced is a complete line, so \<open>open_heartbeat_reloads\<close>
  applies to every file the daemon wrote.\<close>

lemma stamp_lines:
  assumes "list_all is_line xs" and "stamp_text E t = Some x"
  shows "list_all is_line (keep_last n (xs @ [x]))"
  using assms stamp_text_is_line [OF assms(2)] by (auto simp: keep_last_def list_all_iff dest: in_set_dropD)

lemma put_stamp_null: "timestamps s = None \<Longrightarrow> put_stamp x s = (Fault, s)"
  by (simp add: put_stamp_def)

lemma load_heartbeat_zero:
  assumes "hbstamps c = 0"
  shows "\<exists>s'. load_heartbeat E c r s = (Fault, s')"
proof (cases "fgets_lines (TS_SIZE + 1) (dat r)")
  case Nil
  with assms show ?thesis
    by (simp add: load_heartbeat_def xcalloc_def andthen_def bind_def put_stamp_null)
next
  case (Cons l ls)
  with assms show ?thesis
    by (simp add: load_heartbeat_def xcalloc_def andthen_def bind_def put_stamp_null Let_def)
qed

text \<open>A configuration with \<open>heartbeat-stamps = 0\<close> and a heartbeat file crashes the daemon at
  start: \<open>xcalloc\<close> returns the null pointer for an empty buffer and the first record is copied
  through it.\<close>

lemma heartbeat_stamps_zero_faults:
  assumes "heartbeat (cfg s) = Some h" and "hbstamps (cfg s) = 0" and "file_has E h cs"
  shows "\<exists>s'. open_heartbeat E s = (Fault, s')"
proof -
  obtain r1 s1 where 1: "close_heartbeat E s = (Ret r1, s1)" "cfg s1 = cfg s"
    using close_heartbeat_run [of E s] by auto
  let ?fo = "FileCall (Fopen h ''r+'')"
  let ?r = "kern E (trace s1) ?fo"
  have "open_heartbeat E s = load_heartbeat E (cfg s) ?r (s1\<lparr>trace := trace s1 @ [(?fo, ?r)], hb := rv ?r\<rparr>)"
    using 1 assms by (simp add: open_heartbeat_def open_hb_stream_def bind_apply_Ret bind_assoc file_has_def)
  then show ?thesis using load_heartbeat_zero [OF assms(2)] by simp
qed

end
