(* ===== verification/Checks.thy ===== *)
theory Checks
  imports Heartbeat
begin

text \<open>
  The health checks that only look at the system: \<^verbatim>\<open>load.c\<close>, \<^verbatim>\<open>memory.c\<close>,
  \<^verbatim>\<open>file_stat.c\<close>, \<^verbatim>\<open>file_table.c\<close>, \<^verbatim>\<open>pidfile.c\<close> and \<^verbatim>\<open>iface.c\<close>.

  The static descriptors and thresholds of these files extend the state. A check that updates
  the list node it is given returns the new node next to its result code. The locale
  \<open>health_check\<close> is the contract the main loop relies on.
\<close>

section \<open>State\<close>

record check_state = hb_state +
  load_fd :: int
  mem_fd :: int
  temp_fd :: int
  templevel1 :: int
  templevel2 :: int
  templevel3 :: int

text \<open>The string in a buffer of \<open>k + 1\<close> bytes after a \<open>read\<close> and the added terminator.\<close>

definition read_buf :: "nat \<Rightarrow> reply \<Rightarrow> string" where
  "read_buf k r = cstr (take (nat (rv r)) (take k (dat r)))"

section \<open>Load average (load.c)\<close>

definition load_name :: string where "load_name = ''/proc/loadavg''"

definition close_loadcheck :: "env \<Rightarrow> ('s check_state_scheme, int) proc" where
  "close_loadcheck E =
     bind (gets load_fd) (\<lambda>fd.
     bind
       (if fd \<noteq> - 1 then
          bind (fsys E (Close fd)) (\<lambda>r.
          if rv r = - 1 then
            andthen (log_msg E LOG_ALERT ''cannot close'' [AStr load_name, AInt (err r)]) (ret (- 1))
          else ret 0)
        else ret 0) (\<lambda>r.
     andthen (modify (load_fd_update (\<lambda>_. - 1)))
     (ret r)))"

definition open_loadcheck :: "env \<Rightarrow> ('s check_state_scheme, int) proc" where
  "open_loadcheck E =
     bind (close_loadcheck E) (\<lambda>_.
     bind (gets cfg) (\<lambda>c.
     if maxload1 c \<noteq> 0 \<or> maxload5 c \<noteq> 0 \<or> maxload15 c \<noteq> 0 then
       bind (fsys E (Open load_name O_RDONLY)) (\<lambda>r.
       andthen (modify (load_fd_update (\<lambda>_. rv r)))
       (if rv r = - 1 then
          andthen (log_msg E LOG_ERR ''cannot open'' [AStr load_name, AInt (err r)]) (ret (- 1))
        else ret 0))
     else ret (- 1)))"

text \<open>The three averages, or nothing when a blank is missing.\<close>

definition parse_load :: "string \<Rightarrow> (int \<times> int \<times> int) option" where
  "parse_load buf =
     (case strchr buf (CHR '' '') of
        None \<Rightarrow> None
      | Some p \<Rightarrow>
          (case strchr (tl p) (CHR '' '') of
             None \<Rightarrow> None
           | Some q \<Rightarrow> Some (atoi buf, atoi p, atoi q)))"

definition load_too_high :: "config \<Rightarrow> int \<Rightarrow> int \<Rightarrow> int \<Rightarrow> bool" where
  "load_too_high c avg1 avg5 avg15 \<longleftrightarrow>
     (maxload1 c > 0 \<and> avg1 > maxload1 c) \<or>
     (maxload5 c > 0 \<and> avg5 > maxload5 c) \<or>
     (maxload15 c > 0 \<and> avg15 > maxload15 c)"

definition check_load :: "env \<Rightarrow> ('s check_state_scheme, int) proc" where
  "check_load E =
     bind (gets load_fd) (\<lambda>fd.
     if fd = - 1 then ret ENOERR
     else
       bind (fsys E (Lseek fd)) (\<lambda>r.
       if rv r < 0 then
         andthen (log_msg E LOG_ERR ''lseek gave errno'' [AStr load_name, AInt (err r)]) (ret (err r))
       else
         bind (fsys E (Read fd 39)) (\<lambda>r.
         if rv r < 0 then
           andthen (log_msg E LOG_ERR ''read gave errno'' [AStr load_name, AInt (err r)]) (ret (err r))
         else
           (case parse_load (read_buf 39 r) of
              None \<Rightarrow>
                andthen (log_msg E LOG_ERR ''does not contain any data'' [AStr load_name, AStr (read_buf 39 r)])
                (ret ENOLOAD)
            | Some (avg1, avg5, avg15) \<Rightarrow>
                andthen (log_tick E ''current load'' [AInt avg1, AInt avg5, AInt avg15])
                (bind (gets cfg) (\<lambda>c.
                 if load_too_high c avg1 avg5 avg15 then
                   andthen (log_msg E LOG_ERR ''loadavg is higher than the given threshold''
                     [AInt avg1, AInt avg5, AInt avg15, AInt (maxload1 c), AInt (maxload5 c), AInt (maxload15 c)])
                   (ret EMAXLOAD)
                 else ret ENOERR))))))"

section \<open>Memory (memory.c)\<close>

definition FREEMEM :: string where "FREEMEM = ''MemFree:''"
definition FREESWAP :: string where "FREESWAP = ''SwapFree:''"
definition mem_name :: string where "mem_name = ''/proc/meminfo''"

definition close_memcheck :: "env \<Rightarrow> ('s check_state_scheme, int) proc" where
  "close_memcheck E =
     bind (gets mem_fd) (\<lambda>fd.
     bind
       (if fd \<noteq> - 1 then
          bind (fsys E (Close fd)) (\<lambda>r.
          if rv r = - 1 then
            andthen (log_msg E LOG_ALERT ''cannot close'' [AStr mem_name, AInt (err r)]) (ret (- 1))
          else ret 0)
        else ret 0) (\<lambda>r.
     andthen (modify (mem_fd_update (\<lambda>_. - 1)))
     (ret r)))"

definition open_memcheck :: "env \<Rightarrow> ('s check_state_scheme, int) proc" where
  "open_memcheck E =
     bind (close_memcheck E) (\<lambda>_.
     bind (gets (minpages \<circ> cfg)) (\<lambda>m.
     if m > 0 then
       bind (fsys E (Open mem_name O_RDONLY)) (\<lambda>r.
       andthen (modify (mem_fd_update (\<lambda>_. rv r)))
       (if rv r = - 1 then
          andthen (log_msg E LOG_ERR ''cannot open'' [AStr mem_name, AInt (err r)]) (ret (- 1))
        else ret 0))
     else ret (- 1)))"

text \<open>Free memory and swap in kB as \<open>unsigned int\<close>.\<close>

definition parse_meminfo :: "string \<Rightarrow> (int \<times> int) option" where
  "parse_meminfo buf =
     (case (strstr buf FREEMEM, strstr buf FREESWAP) of
        (Some p1, Some p2) \<Rightarrow>
          Some (uint32 (atoi (drop (length FREEMEM) p1)), uint32 (atoi (drop (length FREESWAP) p2)))
      | _ \<Rightarrow> None)"

definition memory_low :: "env \<Rightarrow> config \<Rightarrow> int \<Rightarrow> int \<Rightarrow> bool" where
  "memory_low E c freemem freeswap \<longleftrightarrow>
     uint32 (freemem + freeswap) < uint32 (int32 (minpages c * (exec_pagesize E sdiv 1024)))"

definition check_memory :: "env \<Rightarrow> ('s check_state_scheme, int) proc" where
  "check_memory E =
     bind (gets mem_fd) (\<lambda>fd.
     if fd = - 1 then ret ENOERR
     else
       bind (fsys E (Lseek fd)) (\<lambda>r.
       if rv r < 0 then
         andthen (log_msg E LOG_ERR ''lseek gave errno'' [AStr mem_name, AInt (err r)]) (ret (err r))
       else
         bind (fsys E (Read fd 1023)) (\<lambda>r.
         if rv r < 0 then
           andthen (log_msg E LOG_ERR ''read gave errno'' [AStr mem_name, AInt (err r)]) (ret (err r))
         else
           (case parse_meminfo (read_buf 1023 r) of
              None \<Rightarrow>
                andthen (log_msg E LOG_ERR ''contains invalid data'' [AStr mem_name, AStr (read_buf 1023 r)])
                (ret EINVMEM)
            | Some (freemem, freeswap) \<Rightarrow>
                andthen (log_tick E ''kB of free memory+swap available'' [AInt freemem, AInt freeswap])
                (bind (gets cfg) (\<lambda>c.
                 if memory_low E c freemem freeswap then
                   andthen (log_msg E LOG_ERR ''memory is less than''
                     [AInt (int32 (freemem + freeswap)), AInt (minpages c)])
                   (ret ENOMEM)
                 else ret ENOERR))))))"

definition check_allocatable :: "env \<Rightarrow> ('s check_state_scheme, int) proc" where
  "check_allocatable E =
     bind (gets (minalloc \<circ> cfg)) (\<lambda>m.
     let len = uint64 (exec_pagesize E * uint64 m) in
     if m \<le> 0 then ret 0
     else
       bind (psys E (Mmap len)) (\<lambda>r.
       if rv r = - 1 then
         andthen (log_msg E LOG_ALERT ''cannot allocate'' [AInt len, AInt (err r)]) (ret (err r))
       else andthen (do_sys E (ProcCall (Munmap len))) (ret 0)))"

section \<open>Files (file_stat.c, file_table.c)\<close>

definition check_file_stat :: "env \<Rightarrow> entry option \<Rightarrow> ('s check_state_scheme, int) proc" where
  "check_file_stat E arg =
     (case arg of None \<Rightarrow> ret ENOERR | Some file \<Rightarrow>
     bind (fsys E (Stat (e_name file))) (\<lambda>buf.
     if rv buf = - 1 then
       andthen (log_msg E LOG_ERR ''cannot stat'' [AStr (e_name file), AInt (err buf)]) (ret (err buf))
     else if f_mtime file \<noteq> 0 then
       bind (psys E Time) (\<lambda>t.
       let twait = int32 (v1 t - v2 buf) in
       if twait > f_mtime file then
         andthen (log_msg E LOG_ERR ''file was not changed'' [AStr (e_name file), AInt twait, AInt (f_mtime file)])
         (ret ENOCHANGE)
       else
         andthen (log_tick E ''file was last changed at'' [AStr (e_name file), AInt (v2 buf), AInt twait])
         (ret ENOERR))
     else
       andthen (log_tick E ''file status OK'' [AStr (e_name file)]) (ret ENOERR)))"

definition check_file_table :: "env \<Rightarrow> ('s check_state_scheme, int) proc" where
  "check_file_table E =
     bind (fsys E (Open ''/proc/uptime'' O_RDONLY)) (\<lambda>fd.
     if rv fd = - 1 then
       andthen (log_msg E LOG_ERR ''cannot open'' [AStr ''/proc/uptime'', AInt (err fd)])
       (if err fd = ENFILE then
          andthen (log_msg E LOG_ERR ''file table overflow detected!'' []) (ret EREBOOT)
        else ret (err fd))
     else
       bind (fsys E (Close (rv fd))) (\<lambda>r.
       if rv r < 0 then
         andthen (log_msg E LOG_ERR ''close gave errno'' [AStr ''/proc/uptime'', AInt (err r)]) (ret (err r))
       else ret ENOERR))"

section \<open>Daemons with a PID file (pidfile.c)\<close>

definition check_pidfile :: "env \<Rightarrow> entry \<Rightarrow> ('s check_state_scheme, int) proc" where
  "check_pidfile E file =
     bind (fsys E (Open (e_name file) O_RDONLY)) (\<lambda>fd.
     if rv fd = - 1 then
       andthen (log_msg E LOG_ERR ''cannot open'' [AStr (e_name file), AInt (err fd)]) (ret (err fd))
     else
       bind (fsys E (Lseek (rv fd))) (\<lambda>r.
       if rv r < 0 then
         andthen (log_msg E LOG_ERR ''lseek gave errno'' [AStr (e_name file), AInt (err r)])
         (andthen (do_sys E (FileCall (Close (rv fd)))) (ret (err r)))
       else
         bind (fsys E (Read (rv fd) 19)) (\<lambda>r.
         if rv r < 0 then
           andthen (log_msg E LOG_ERR ''read gave errno'' [AStr (e_name file), AInt (err r)])
           (andthen (do_sys E (FileCall (Close (rv fd)))) (ret (err r)))
         else
           (let pid = atoi (read_buf 19 r) in
            bind (fsys E (Close (rv fd))) (\<lambda>r.
            if rv r = - 1 then
              andthen (log_msg E LOG_ERR ''could not close'' [AStr (e_name file), AInt (err r)]) (ret (err r))
            else
              bind (psys E (Kill pid 0)) (\<lambda>r.
              if rv r = - 1 then
                andthen (log_msg E LOG_ERR ''pinging process gave errno'' [AInt pid, AStr (e_name file), AInt (err r)])
                (ret (err r))
              else
                andthen (log_tick E ''was able to ping process'' [AInt pid, AStr (e_name file)])
                (ret ENOERR)))))))"

section \<open>Network interfaces (iface.c)\<close>

definition NETDEV_LINE_LEN :: nat where "NETDEV_LINE_LEN = 128"
definition netdev_name :: string where "netdev_name = ''/proc/net/dev''"

definition is_blank :: "char \<Rightarrow> bool" where
  "is_blank c \<longleftrightarrow> c = CHR '' '' \<or> c = CHR 0x09"

text \<open>The received bytes on a line of the device, nothing on another line.\<close>

definition iface_bytes :: "string \<Rightarrow> string \<Rightarrow> int option" where
  "iface_bytes nm line =
     (let l = dropWhile is_blank (cstr line) in
      if is_prefix nm l then Some (strtoul (drop (length nm + 1) l)) else None)"

text \<open>The loop over the lines: the interface has received nothing (\<open>None\<close>), or the end of the
  file is reached with the updated node.\<close>

fun iface_lines :: "env \<Rightarrow> entry \<Rightarrow> string list \<Rightarrow> ('s check_state_scheme, bool \<times> entry) proc" where
  "iface_lines E dev [] = ret (True, dev)"
| "iface_lines E dev (line # rest) =
     (case iface_bytes (e_name dev) line of
        None \<Rightarrow> iface_lines E dev rest
      | Some b \<Rightarrow>
          andthen (log_tick E ''device received bytes'' [AStr (e_name dev), AInt b])
          (if if_bytes dev = b then ret (False, dev)
           else iface_lines E (dev\<lparr>if_bytes := b\<rparr>) rest))"

definition check_iface :: "env \<Rightarrow> entry \<Rightarrow> ('s check_state_scheme, int \<times> entry) proc" where
  "check_iface E dev =
     bind (fsys E (Fopen netdev_name ''r'')) (\<lambda>file.
     if rv file = 0 then
       andthen (log_msg E LOG_ERR ''cannot open'' [AStr netdev_name, AInt (err file)]) (ret (err file, dev))
     else
       bind (iface_lines E dev (stream_lines NETDEV_LINE_LEN file)) (\<lambda>(alive, dev').
       if \<not> alive then
         andthen (do_sys E (FileCall (Fclose (rv file))))
         (andthen (log_msg E LOG_ERR ''device did not receive anything since last check'' [AStr (e_name dev)])
         (ret (ENETUNREACH, dev')))
       else if v1 file \<noteq> 0 then
         andthen (log_msg E LOG_ERR ''cannot read'' [AStr netdev_name, AInt (v1 file)])
         (andthen (do_sys E (FileCall (Fclose (rv file))))
         (ret (v1 file, dev')))
       else
         bind (fsys E (Fclose (rv file))) (\<lambda>r.
         if rv r \<noteq> 0 then
           andthen (log_msg E LOG_ERR ''cannot close'' [AStr netdev_name, AInt (err r)]) (ret (err r, dev'))
         else ret (ENOERR, dev'))))"

section \<open>The contract of a check\<close>

text \<open>The calls a check may make: it reads, it asks for the time, it allocates and frees, it logs,
  and it probes a process with the null signal. In particular it does not touch the watchdog
  device, start or signal processes, or change the system.\<close>

fun is_passive :: "syscall \<Rightarrow> bool" where
  "is_passive (LogCall c) = True"
| "is_passive (FileCall (Fflush f)) = (f = 2)"
| "is_passive (FileCall (Open n m)) = (m = O_RDONLY)"
| "is_passive (FileCall (Lseek f)) = True"
| "is_passive (FileCall (Read f n)) = True"
| "is_passive (FileCall (Close f)) = True"
| "is_passive (FileCall (Fopen n m)) = (m = ''r'')"
| "is_passive (FileCall (Fclose f)) = True"
| "is_passive (FileCall (Stat n)) = True"
| "is_passive (ProcCall Time) = True"
| "is_passive (ProcCall (Mmap n)) = True"
| "is_passive (ProcCall (Munmap n)) = True"
| "is_passive (ProcCall (Kill p g)) = (g = 0)"
| "is_passive c = False"

lemma log_call_passive [simp]: "is_log_call c \<Longrightarrow> is_passive c"
  by (cases c rule: is_log_call.cases) auto

lemma dev_call_not_passive: "is_passive c \<Longrightarrow> \<not> is_pace_call c"
  by (cases c rule: is_passive.cases) auto

locale health_check =
  fixes check :: "env \<Rightarrow> ('s check_state_scheme, 'r) proc"
  assumes check_returns: "returns (check E)"
    and check_passive: "emits is_passive (check E)"
    and check_frame: "log_frame (I :: 's check_state_scheme \<Rightarrow> bool) \<Longrightarrow> keeps I (check E)"
begin

lemma frame_run:
  assumes "log_frame I" and "I s"
  shows "\<exists>r s'. check E s = (Ret r, s') \<and> I s' \<and> calls is_pace_call s' = calls is_pace_call s"
proof -
  obtain r s' where run: "check E s = (Ret r, s')" using check_returns by (rule returnsE)
  moreover have "I s'" using keepsD [OF check_frame [OF assms(1)] run] assms(2) by simp
  moreover have "emits (\<lambda>c. \<not> is_pace_call c) (check E)"
    using check_passive by (rule emits_mono) (rule dev_call_not_passive)
  then have "calls is_pace_call s' = calls is_pace_call s"
    using run by (rule keepsD [OF emits_keeps_calls])
  ultimately show ?thesis by blast
qed

text \<open>The step of the main loop: a check is followed by a refresh, and in between nothing reaches
  the device.\<close>

lemma check_then_refresh:
  assumes "hb_ok E s"
  shows "\<exists>r s'. bind (check E) (\<lambda>r. bind (wd_keep_alive E) (\<lambda>_. ret r)) s = (Ret r, s') \<and>
     hb_ok E s' \<and> cfg s' = cfg s \<and> dev_part s' = dev_part s \<and>
     calls is_pace_call s' = calls is_pace_call s @ refresh_calls (dev_part s)"
proof -
  have "log_frame (wd.stable E (dev_part s) (cfg s))" by (rule wd.stable_frame)
  from frame_run [OF this, of s E] assms obtain r s1 where 1: "check E s = (Ret r, s1)" "hb_ok E s1"
    "dev_part s1 = dev_part s" "cfg s1 = cfg s" "calls is_pace_call s1 = calls is_pace_call s" by auto
  from wd.keep_alive_run [of E s1 "dev_part s" "cfg s"] 1 obtain x s2 where
    "wd_keep_alive E s1 = (Ret x, s2)" "hb_ok E s2" "dev_part s2 = dev_part s" "cfg s2 = cfg s"
    "calls is_pace_call s2 = calls is_pace_call s @ refresh_calls (dev_part s)"
    by (auto simp: wd_keep_alive_def)
  with 1 show ?thesis by (auto simp: bind_apply_Ret)
qed

end

lemma check_load_contract: "returns (check_load E)" "emits is_passive (check_load E)"
  "log_frame g \<Longrightarrow> keeps g (check_load E)"
  unfolding check_load_def by (intro returns_intro keeps_intro emits_intro; simp add: log_frame_def)+

lemma check_memory_contract: "returns (check_memory E)" "emits is_passive (check_memory E)"
  "log_frame g \<Longrightarrow> keeps g (check_memory E)"
  unfolding check_memory_def by (intro returns_intro keeps_intro emits_intro; simp add: log_frame_def)+

lemma check_allocatable_contract: "returns (check_allocatable E)" "emits is_passive (check_allocatable E)"
  "log_frame g \<Longrightarrow> keeps g (check_allocatable E)"
  unfolding check_allocatable_def by (intro returns_intro keeps_intro emits_intro; simp add: log_frame_def)+

lemma check_file_stat_contract: "returns (check_file_stat E a)" "emits is_passive (check_file_stat E a)"
  "log_frame g \<Longrightarrow> keeps g (check_file_stat E a)"
  unfolding check_file_stat_def by (intro returns_intro keeps_intro emits_intro; simp add: log_frame_def)+

lemma check_file_table_contract: "returns (check_file_table E)" "emits is_passive (check_file_table E)"
  "log_frame g \<Longrightarrow> keeps g (check_file_table E)"
  unfolding check_file_table_def by (intro returns_intro keeps_intro emits_intro; simp add: log_frame_def)+

lemma check_pidfile_contract: "returns (check_pidfile E e)" "emits is_passive (check_pidfile E e)"
  "log_frame g \<Longrightarrow> keeps g (check_pidfile E e)"
  unfolding check_pidfile_def by (intro returns_intro keeps_intro emits_intro; simp add: log_frame_def)+

lemma iface_lines_contract [returns_intro, emits_intro, keeps_intro]:
  "returns (iface_lines E e ls)" "emits is_passive (iface_lines E e ls)"
  "log_frame g \<Longrightarrow> keeps g (iface_lines E e ls)"
  by (induction ls arbitrary: e)
    (auto intro!: returns_intro keeps_intro emits_intro simp: log_frame_def split: option.split)

lemma check_iface_contract: "returns (check_iface E e)" "emits is_passive (check_iface E e)"
  "log_frame g \<Longrightarrow> keeps g (check_iface E e)"
  unfolding check_iface_def by (intro returns_intro keeps_intro emits_intro; simp add: log_frame_def)+

interpretation load_check: health_check check_load
  by unfold_locales (rule check_load_contract; assumption?)+

interpretation memory_check: health_check check_memory
  by unfold_locales (rule check_memory_contract; assumption?)+

interpretation allocatable_check: health_check check_allocatable
  by unfold_locales (rule check_allocatable_contract; assumption?)+

interpretation file_stat_check: health_check "\<lambda>E. check_file_stat E a"
  by unfold_locales (rule check_file_stat_contract; assumption?)+

interpretation file_table_check: health_check check_file_table
  by unfold_locales (rule check_file_table_contract; assumption?)+

interpretation pidfile_check: health_check "\<lambda>E. check_pidfile E e"
  by unfold_locales (rule check_pidfile_contract; assumption?)+

interpretation iface_check: health_check "\<lambda>E. check_iface E e"
  by unfold_locales (rule check_iface_contract; assumption?)+

section \<open>What the load check decides\<close>

text \<open>An environment in which rewinding and reading the descriptor \<open>fd\<close> gives a text.\<close>

definition reads_as :: "env \<Rightarrow> int \<Rightarrow> nat \<Rightarrow> string \<Rightarrow> bool" where
  "reads_as E fd n txt \<longleftrightarrow> length txt \<le> n \<and> NUL \<notin> set txt \<and>
     (\<forall>tr. 0 \<le> rv (kern E tr (FileCall (Lseek fd))) \<and>
        rv (kern E tr (FileCall (Read fd n))) = int (length txt) \<and>
        dat (kern E tr (FileCall (Read fd n))) = txt)"

lemma reads_as_buf: "reads_as E fd n txt \<Longrightarrow> read_buf n (kern E tr (FileCall (Read fd n))) = txt"
  by (simp add: reads_as_def read_buf_def)

lemma reads_as_ok:
  "reads_as E fd n txt \<Longrightarrow> \<not> rv (kern E tr (FileCall (Lseek fd))) < 0 \<and> \<not> rv (kern E tr (FileCall (Read fd n))) < 0"
  by (simp add: reads_as_def not_less)

text \<open>The line of \<^verbatim>\<open>/proc/loadavg\<close>: three numbers with a fraction, separated by blanks.\<close>

definition load_text :: "nat \<Rightarrow> string \<Rightarrow> nat \<Rightarrow> string \<Rightarrow> nat \<Rightarrow> string \<Rightarrow> string" where
  "load_text a fa b fb c rest =
     show_nat a @ CHR ''.'' # fa @ CHR '' '' # show_nat b @ CHR ''.'' # fb @ CHR '' '' # show_nat c @ CHR ''.'' # rest"

lemma atoi_blank: "atoi (CHR '' '' # s) = atoi s"
  by (simp add: atoi_def strtol_def decimal_value_def isspace_def)

lemma atoi_show_nat:
  "int n \<le> INT_MAX \<Longrightarrow> \<not> isdigit c \<Longrightarrow> atoi (show_nat n @ c # rest) = int n"
  using atoi_show_int [of "int n" "c # rest"] by (simp add: show_int_def int_limits)

lemma show_nat_no_blank: "CHR '' '' \<notin> set (show_nat n)"
  using show_nat_digits [of n] by (auto simp: list_all_iff isdigit_def)

lemma parse_load_text:
  assumes "CHR '' '' \<notin> set fa" "CHR '' '' \<notin> set fb"
    and "int a \<le> INT_MAX" "int b \<le> INT_MAX" "int c \<le> INT_MAX"
  shows "parse_load (load_text a fa b fb c rest) = Some (int a, int b, int c)"
proof -
  let ?q = "CHR '' '' # show_nat c @ CHR ''.'' # rest"
  let ?p = "CHR '' '' # show_nat b @ CHR ''.'' # fb @ ?q"
  have dot: "\<not> isdigit (CHR ''.'')" by (simp add: isdigit_def)
  have "strchr (load_text a fa b fb c rest) (CHR '' '') = Some ?p"
    using strchr_append [of "CHR '' ''" "show_nat a @ CHR ''.'' # fa" "tl ?p"] assms(1) show_nat_no_blank
    by (simp add: load_text_def)
  moreover have "strchr (tl ?p) (CHR '' '') = Some ?q"
    using strchr_append [of "CHR '' ''" "show_nat b @ CHR ''.'' # fb" "tl ?q"] assms(2) show_nat_no_blank
    by simp
  moreover have "atoi (load_text a fa b fb c rest) = int a" "atoi ?p = int b" "atoi ?q = int c"
    using assms(3-5) dot by (simp_all add: load_text_def atoi_blank atoi_show_nat)
  ultimately show ?thesis by (simp add: parse_load_def)
qed

text \<open>The load check asks for a reboot exactly when the integer part of one of the three
  averages exceeds its limit, a limit of 0 being no limit.\<close>

lemma check_load_verdict:
  assumes "load_fd s \<noteq> - 1" and "reads_as E (load_fd s) 39 (load_text a fa b fb c rest)"
    and "CHR '' '' \<notin> set fa" "CHR '' '' \<notin> set fb"
    and "int a \<le> INT_MAX" "int b \<le> INT_MAX" "int c \<le> INT_MAX"
  shows "\<exists>s'. check_load E s = (Ret (if
       0 < maxload1 (cfg s) \<and> maxload1 (cfg s) < int a \<or> 0 < maxload5 (cfg s) \<and> maxload5 (cfg s) < int b \<or>
       0 < maxload15 (cfg s) \<and> maxload15 (cfg s) < int c then EMAXLOAD else ENOERR), s') \<and> cfg s' = cfg s"
  using assms(1) reads_as_ok [OF assms(2)] reads_as_buf [OF assms(2)] parse_load_text [OF assms(3-7)]
  by (simp add: check_load_def logs_run load_too_high_def)

section \<open>What the memory check decides\<close>

text \<open>The memory check compares in 32-bit unsigned arithmetic: with both numbers and the limit
  in range it fails exactly when free memory and swap together are below the configured pages, but
  a machine with \<open>2\<^sup>3\<^sup>2\<close> kB or more free wraps around and can be reported as short of memory.\<close>

lemma memory_low_wraps:
  assumes "0 \<le> freemem" "freemem < 2 ^ 32" "0 \<le> freeswap" "freeswap < 2 ^ 32"
    and "0 < minpages c" "0 < exec_pagesize E" "minpages c * (exec_pagesize E div 1024) \<le> INT_MAX"
  shows "memory_low E c freemem freeswap \<longleftrightarrow>
     (if freemem + freeswap < 2 ^ 32 then freemem + freeswap else freemem + freeswap - 2 ^ 32)
       < minpages c * (exec_pagesize E div 1024)"
proof -
  let ?lim = "minpages c * (exec_pagesize E div 1024)"
  have d: "exec_pagesize E sdiv 1024 = exec_pagesize E div 1024"
    using assms(6) by (simp add: signed_divide_int_def sgn_if)
  have "0 \<le> ?lim" using assms(5,6) by (simp add: pos_imp_zdiv_nonneg_iff)
  then have lim: "uint32 (int32 ?lim) = ?lim"
    using assms(7) by (simp add: int_limits)
  have "uint32 x = x - 2 ^ 32" if "2 ^ 32 \<le> x" "x < 2 ^ 33" for x
    using that mod_pos_pos_trivial [of "x - 2 ^ 32" "2 ^ 32"] minus_mod_self2 [of x "2 ^ 32"]
    by (simp add: uint32_def)
  then have "uint32 (freemem + freeswap) =
      (if freemem + freeswap < 2 ^ 32 then freemem + freeswap else freemem + freeswap - 2 ^ 32)"
    using assms(1-4) by simp
  then show ?thesis by (simp add: memory_low_def d lim)
qed

section \<open>What the file checks decide\<close>

text \<open>The file check: a file that cannot be examined gives the error of \<open>stat\<close>; a file with a
  \<open>change\<close> interval gives \<open>ENOCHANGE\<close> exactly when its age (in 32 bits) exceeds the interval;
  any other file is fine.\<close>

lemma check_file_stat_verdict:
  "\<exists>s'. check_file_stat E (Some file) s =
     (let st = FileCall (Stat (e_name file));
          r = kern E (trace s) st;
          now = v1 (kern E (trace s @ [(st, r)]) (ProcCall Time))
      in (Ret (if rv r = - 1 then err r
               else if f_mtime file \<noteq> 0 \<and> f_mtime file < int32 (now - v2 r) then ENOCHANGE
               else ENOERR), s'))"
  by (simp add: check_file_stat_def logs_run Let_def)

section \<open>What the interface check decides\<close>

text \<open>The counters that the lines give for the device, and what the loop makes of them: it stops at
  the first counter that equals the one before it.\<close>

abbreviation counters :: "string \<Rightarrow> string list \<Rightarrow> int list" where
  "counters nm ls \<equiv> List.map_filter (iface_bytes nm) ls"

fun settle :: "int \<Rightarrow> int list \<Rightarrow> bool \<times> int" where
  "settle b [] = (True, b)"
| "settle b (c # cs) = (if b = c then (False, b) else settle c cs)"

lemma iface_lines_run:
  "\<exists>s'. iface_lines E dev ls s = (Ret (case settle (if_bytes dev) (counters (e_name dev) ls) of
       (alive, b) \<Rightarrow> (alive, dev\<lparr>if_bytes := b\<rparr>)), s')"
proof (induction ls arbitrary: dev s)
  case (Cons l ls)
  show ?case
  proof (cases "iface_bytes (e_name dev) l")
    case None
    then show ?thesis using Cons [of dev s] by (simp add: map_filter_simps)
  next
    case (Some b)
    then show ?thesis
      using Cons [of "dev\<lparr>if_bytes := b\<rparr>"] by (simp add: map_filter_simps logs_run)
  qed
qed (simp add: map_filter_simps)

lemma check_iface_run:
  assumes "\<forall>tr. rv (kern E tr (FileCall (Fopen netdev_name ''r''))) \<noteq> 0 \<and>
      stream_lines NETDEV_LINE_LEN (kern E tr (FileCall (Fopen netdev_name ''r''))) = ls \<and>
      v1 (kern E tr (FileCall (Fopen netdev_name ''r''))) = 0"
    and "\<forall>tr h. rv (kern E tr (FileCall (Fclose h))) = 0"
  shows "\<exists>s'. check_iface E dev s = (Ret (case settle (if_bytes dev) (counters (e_name dev) ls) of
       (alive, b) \<Rightarrow> (if alive then ENOERR else ENETUNREACH, dev\<lparr>if_bytes := b\<rparr>)), s')"
proof -
  let ?f = "FileCall (Fopen netdev_name ''r'')"
  obtain alive b where st: "settle (if_bytes dev) (counters (e_name dev) ls) = (alive, b)" by fastforce
  obtain s1 where "iface_lines E dev ls (s\<lparr>trace := trace s @ [(?f, kern E (trace s) ?f)]\<rparr>) =
      (Ret (alive, dev\<lparr>if_bytes := b\<rparr>), s1)"
    using iface_lines_run [of E dev ls "s\<lparr>trace := trace s @ [(?f, kern E (trace s) ?f)]\<rparr>"] st by auto
  with assms st show ?thesis by (cases alive) (simp_all add: check_iface_def bind_apply_Ret logs_run)
qed

text \<open>An environment in which \<^verbatim>\<open>/proc/net/dev\<close> can be read and has the given lines.\<close>

definition netdev_is :: "env \<Rightarrow> string list \<Rightarrow> bool" where
  "netdev_is E ls \<longleftrightarrow>
     (\<forall>tr. rv (kern E tr (FileCall (Fopen netdev_name ''r''))) \<noteq> 0 \<and>
        stream_lines NETDEV_LINE_LEN (kern E tr (FileCall (Fopen netdev_name ''r''))) = ls \<and>
        v1 (kern E tr (FileCall (Fopen netdev_name ''r''))) = 0) \<and>
     (\<forall>tr h. rv (kern E tr (FileCall (Fclose h))) = 0)"


text \<open>Names are compared as prefixes: when the lines of two devices match, as for \<open>eth1\<close> and
  \<open>eth10\<close>, and their counters differ, a complete standstill of both is never noticed.\<close>

lemma check_iface_prefix_blind:
  assumes "netdev_is E ls" and "counters (e_name dev) ls = [b, b']" and "b \<noteq> b'" and "if_bytes dev = b'"
  shows "\<exists>s'. check_iface E dev s = (Ret (ENOERR, dev), s')"
proof -
  have "dev\<lparr>if_bytes := b'\<rparr> = dev" using assms(4) by simp
  then show ?thesis using check_iface_run [of E ls dev s] assms by (auto simp: netdev_is_def)
qed

end
