(* ===== verification/Temperature.thy ===== *)
theory Temperature
  imports Checks
begin

text \<open>
  \<^verbatim>\<open>src/temp.c\<close>: the temperature sensors.

  The sensor value goes through single and double precision floating point. A finite binary
  floating point number is a pair of a mantissa and a power of two, and every operation of the
  source rounds to nearest, ties to even, at the precision C gives it; the values of a
  temperature sensor stay far inside the exponent range.
\<close>

section \<open>Floating point\<close>

type_synonym dyadic = "int \<times> int"

fun bitlen :: "nat \<Rightarrow> nat" where
  "bitlen n = (if n = 0 then 0 else Suc (bitlen (n div 2)))"

declare bitlen.simps [simp del]

definition round_even :: "nat \<Rightarrow> nat \<Rightarrow> nat" where
  "round_even m k =
     (let q = m div 2 ^ k; r = m mod 2 ^ k in
      if 2 * r > 2 ^ k \<or> (2 * r = 2 ^ k \<and> odd q) then q + 1 else q)"

definition fround :: "nat \<Rightarrow> dyadic \<Rightarrow> dyadic" where
  "fround p d = (case d of (m, e) \<Rightarrow>
     let k = bitlen (nat \<bar>m\<bar>) - p in (sgn m * int (round_even (nat \<bar>m\<bar>) k), e + int k))"

definition fmul :: "dyadic \<Rightarrow> dyadic \<Rightarrow> dyadic" where
  "fmul a b = (fst a * fst b, snd a + snd b)"

definition fadd :: "dyadic \<Rightarrow> dyadic \<Rightarrow> dyadic" where
  "fadd a b = (let e = min (snd a) (snd b) in
     (fst a * 2 ^ nat (snd a - e) + fst b * 2 ^ nat (snd b - e), e))"

text \<open>The conversion to \<open>int\<close> truncates; out of range it gives the value of the hardware
  instruction.\<close>

definition ftoi :: "dyadic \<Rightarrow> int" where
  "ftoi d = (case d of (m, e) \<Rightarrow>
     let v = (if 0 \<le> e then m * 2 ^ nat e else m sdiv 2 ^ nat (- e)) in
     if v < INT_MIN \<or> v > INT_MAX then INT_MIN else v)"

text \<open>The constants \<open>1.0e-3F\<close> and \<open>1.0e-5F\<close> as single precision numbers.\<close>

definition F_1em3 :: dyadic where "F_1em3 = (8589935, - 33)"
definition F_1em5 :: dyadic where "F_1em5 = (10995116, - 40)"

definition to_float :: "dyadic \<Rightarrow> dyadic" where "to_float = fround 24"
definition to_double :: "dyadic \<Rightarrow> dyadic" where "to_double = fround 53"

text \<open>\<open>1.0e-3F * atof(buf)\<close> stored in a \<open>float\<close>, and the truncation after the small addition.\<close>

definition milli_to_temp :: "dyadic \<Rightarrow> dyadic" where
  "milli_to_temp a = to_float (to_double (fmul F_1em3 a))"

definition whole_degrees :: "dyadic \<Rightarrow> int" where
  "whole_degrees temp = ftoi (to_float (fadd F_1em5 temp))"

section \<open>Operations\<close>

definition read_temp_sensor :: "env \<Rightarrow> string \<Rightarrow> ('s check_state_scheme, int \<times> int option) proc" where
  "read_temp_sensor E nm =
     bind (fsys E (Fopen nm ''r'')) (\<lambda>fp.
     if rv fp = 0 then
       andthen (log_msg E LOG_ERR ''failed to open'' [AStr nm, AInt (err fp)]) (ret (err fp, None))
     else
       andthen (do_sys E (FileCall (Fclose (rv fp))))
       (case stream_lines 127 fp of
          [] \<Rightarrow>
            (let er = (if v1 fp \<noteq> 0 then v1 fp else v2 fp) in
             andthen (log_msg E LOG_ERR ''failed to read'' [AStr nm, AInt er]) (ret (er, None)))
        | buf # _ \<Rightarrow>
            (let temp = milli_to_temp (atof E (cstr buf)) in
             andthen (log_tick E ''current temperature'' [AInt (fst temp), AInt (snd temp), AStr nm])
             (ret (ENOERR, Some (whole_degrees temp))))))"

definition close_tempcheck :: "('s check_state_scheme, int) proc" where
  "close_tempcheck =
     bind (gets temp_fd) (\<lambda>fd.
     andthen (modify (temp_fd_update (\<lambda>_. - 1)))
     (ret (if fd \<noteq> - 1 then 0 else - 1)))"

definition init_sensor :: "env \<Rightarrow> entry \<Rightarrow> ('s check_state_scheme, entry) proc" where
  "init_sensor E act =
     (let act1 = act\<lparr>have1 := False, have2 := False, have3 := False\<rparr> in
      bind (read_temp_sensor E (e_name act)) (\<lambda>(r, _).
      if r = ENOERR then ret (act1\<lparr>t_in_use := True\<rparr>)
      else
        andthen (log_msg E LOG_WARNING ''Disabling temperature check'' [AStr (e_name act)])
        (ret (act1\<lparr>t_in_use := False\<rparr>))))"

definition level3 :: "int \<Rightarrow> int" where
  "level3 mt = (let l = int32 (mt * 98) sdiv 100 in if l \<ge> mt then int32 (mt - 1) else l)"

definition level2 :: "int \<Rightarrow> int" where
  "level2 mt = (let l = int32 (mt * 95) sdiv 100 in if l \<ge> level3 mt then int32 (level3 mt - 1) else l)"

definition level1 :: "int \<Rightarrow> int" where
  "level1 mt = (let l = int32 (mt * 90) sdiv 100 in if l \<ge> level2 mt then int32 (level2 mt - 1) else l)"

definition open_tempcheck :: "env \<Rightarrow> entry list \<Rightarrow> ('s check_state_scheme, int \<times> entry list) proc" where
  "open_tempcheck E tlist =
     bind close_tempcheck (\<lambda>_.
     if tlist \<noteq> [] then
       andthen (modify (temp_fd_update (\<lambda>_. 0)))
       (bind (for_each (init_sensor E) tlist) (\<lambda>tlist'.
        andthen (modify (\<lambda>s. s\<lparr>templevel3 := level3 (maxtemp (cfg s)),
                               templevel2 := level2 (maxtemp (cfg s)),
                               templevel1 := level1 (maxtemp (cfg s))\<rparr>))
        (ret (- 1, tlist'))))
     else ret (- 1, tlist))"

text \<open>The warnings at the three thresholds, with the flags that keep them from repeating.\<close>

definition temp_warnings :: "env \<Rightarrow> entry \<Rightarrow> int \<Rightarrow> ('s check_state_scheme, entry) proc" where
  "temp_warnings E act temperature =
     bind (gets (\<lambda>s. (templevel1 s, templevel2 s, templevel3 s))) (\<lambda>(l1, l2, l3).
     if temperature > l3 then
       if \<not> have3 act then
         andthen (log_msg E LOG_WARNING ''temperature increases above'' [AInt l3, AStr (e_name act)])
         (ret (act\<lparr>have1 := True, have2 := True, have3 := True\<rparr>))
       else ret act
     else if temperature > l2 then
       if \<not> have2 act then
         andthen (log_msg E LOG_WARNING ''temperature increases above'' [AInt l2, AStr (e_name act)])
         (ret (act\<lparr>have1 := True, have2 := True, have3 := False\<rparr>))
       else ret (act\<lparr>have3 := False\<rparr>)
     else if temperature > l1 then
       if \<not> have1 act then
         andthen (log_msg E LOG_WARNING ''temperature increases above'' [AInt l1, AStr (e_name act)])
         (ret (act\<lparr>have1 := True, have2 := False, have3 := False\<rparr>))
       else ret (act\<lparr>have2 := False, have3 := False\<rparr>)
     else
       andthen
         (whenp (have1 act \<or> have2 act \<or> have3 act)
            (log_msg E LOG_INFO ''temperature now OK again'' [AStr (e_name act)]))
       (ret (act\<lparr>have1 := False, have2 := False, have3 := False\<rparr>)))"

definition check_temp :: "env \<Rightarrow> entry option \<Rightarrow> ('s check_state_scheme, int \<times> entry option) proc" where
  "check_temp E arg =
     (case arg of
        None \<Rightarrow> ret (ENOERR, None)
      | Some act \<Rightarrow>
          bind (gets temp_fd) (\<lambda>fd.
          if fd = - 1 \<or> \<not> t_in_use act then ret (ENOERR, Some act)
          else
            bind (read_temp_sensor E (e_name act)) (\<lambda>(er, val).
            if er \<noteq> ENOERR then ret (er, Some act)
            else
              (let temperature = (case val of None \<Rightarrow> 0 | Some v \<Rightarrow> v) in
               bind (temp_warnings E act temperature) (\<lambda>act'.
               bind (gets (maxtemp \<circ> cfg)) (\<lambda>mt.
               if temperature \<ge> mt then
                 andthen (log_msg E LOG_ERR ''it is too hot inside'' [AInt temperature, AInt mt, AStr (e_name act)])
                 (ret (ETOOHOT, Some act'))
               else ret (ENOERR, Some act')))))))"

section \<open>The contract of the check\<close>

lemma read_temp_sensor_contract:
  "returns (read_temp_sensor E nm)" "emits is_passive (read_temp_sensor E nm)"
  "log_frame g \<Longrightarrow> keeps g (read_temp_sensor E nm)"
  unfolding read_temp_sensor_def
  by (intro returns_intro keeps_intro emits_intro; simp add: log_frame_def)+

lemma temp_warnings_contract:
  "returns (temp_warnings E a t)" "emits is_passive (temp_warnings E a t)"
  "log_frame g \<Longrightarrow> keeps g (temp_warnings E a t)"
  unfolding temp_warnings_def
  by (intro returns_intro keeps_intro emits_intro; simp add: log_frame_def)+

lemma check_temp_contract:
  "returns (check_temp E a)" "emits is_passive (check_temp E a)"
  "log_frame g \<Longrightarrow> keeps g (check_temp E a)"
  unfolding check_temp_def
  by (intro returns_intro keeps_intro emits_intro read_temp_sensor_contract temp_warnings_contract;
      simp add: log_frame_def)+

interpretation temp_check: health_check "\<lambda>E. check_temp E a"
  by unfold_locales (rule check_temp_contract; assumption?)+

section \<open>Thresholds\<close>

lemma sdiv_100: "0 \<le> x \<Longrightarrow> x sdiv 100 = x div (100::int)"
  by (simp add: signed_divide_int_def sgn_if)

text \<open>The three warning levels are distinct and ordered below the maximum, as the comment in
  \<open>open_tempcheck\<close> promises, for every maximum for which the products do not overflow.\<close>

lemma temp_levels_ordered:
  assumes "0 \<le> mt" and "mt \<le> INT_MAX div 98"
  shows "level1 mt < level2 mt \<and> level2 mt < level3 mt \<and> level3 mt < mt"
proof -
  have o: "int32 (mt * 98) = mt * 98" "int32 (mt * 95) = mt * 95" "int32 (mt * 90) = mt * 90"
    using assms by (intro int32_id; simp add: int_limits)+
  have 3: "level3 mt < mt" "- 1 \<le> level3 mt"
    using assms by (auto simp: level3_def Let_def o sdiv_100 int_limits)
  then have 2: "level2 mt < level3 mt" "- 2 \<le> level2 mt"
    using assms by (auto simp: level2_def Let_def o sdiv_100 int_limits)
  then have "level1 mt < level2 mt"
    using assms by (auto simp: level1_def Let_def o sdiv_100 int_limits)
  with 2 3 show ?thesis by simp
qed

section \<open>The conversion agrees with integer division\<close>

lemma bitlen_bounds: "0 < n \<Longrightarrow> 2 ^ (bitlen n - 1) \<le> n \<and> n < 2 ^ bitlen n"
proof (induction n rule: bitlen.induct)
  case (1 n)
  show ?case
  proof (cases "n div 2 = 0")
    case True
    with 1(2) have "n = 1" by auto
    then show ?thesis by (simp add: bitlen.simps)
  next
    case False
    with 1 have IH: "2 ^ (bitlen (n div 2) - 1) \<le> n div 2" "n div 2 < 2 ^ bitlen (n div 2)" by simp_all
    obtain j where j: "bitlen (n div 2) = Suc j" using False by (simp add: bitlen.simps [of "n div 2"])
    have b: "bitlen n = Suc (Suc j)" using 1(2) j by (subst bitlen.simps) simp
    have "2 ^ j \<le> n div 2" "n div 2 < 2 ^ Suc j" using IH j by simp_all
    then have "2 * 2 ^ j \<le> n" "n < 2 * 2 ^ Suc j" by linarith+
    with b show ?thesis by simp
  qed
qed

lemma round_even_lower: "m div 2 ^ k \<le> round_even m k"
  by (simp add: round_even_def Let_def)

lemma round_even_upper: "2 * (round_even m k * 2 ^ k) \<le> 2 * m + 2 ^ k"
proof -
  have m: "m div 2 ^ k * 2 ^ k + m mod 2 ^ k = m" by (rule div_mult_mod_eq)
  show ?thesis
  proof (cases "2 * (m mod 2 ^ k) \<ge> 2 ^ k")
    case True
    have "round_even m k \<le> m div 2 ^ k + 1" by (simp add: round_even_def Let_def)
    then have "round_even m k * 2 ^ k \<le> m div 2 ^ k * 2 ^ k + 2 ^ k"
      by (metis add.commute add_mult_distrib mult_1 mult_le_mono1)
    with m True show ?thesis by linarith
  next
    case False
    then have "round_even m k = m div 2 ^ k" by (simp add: round_even_def Let_def)
    with m have "round_even m k * 2 ^ k \<le> m" by (metis le_add1)
    then show ?thesis by linarith
  qed
qed

text \<open>Rounding a positive number to \<open>p\<close> bits: the shift is at most \<open>m / 2\<^sup>p\<^sup>-\<^sup>1\<close>, so the result is
  close, and a multiple of the last place below it is not passed.\<close>

lemma shift_small:
  assumes "0 < m" and "k = bitlen m - 24" and "0 < k"
  shows "2 ^ 23 * 2 ^ k \<le> m"
proof -
  have "2 ^ 23 * 2 ^ k = (2::nat) ^ (bitlen m - 1)"
    unfolding power_add [symmetric] using assms(2,3) by (intro arg_cong [of _ _ "power 2"]) simp
  with bitlen_bounds [OF assms(1)] show ?thesis by simp
qed

lemma rounded_upper:
  assumes "0 < m" and "k = bitlen m - 24"
  shows "2 ^ 24 * (round_even m k * 2 ^ k) \<le> (2 ^ 24 + 1) * m"
proof (cases "k = 0")
  case True
  then show ?thesis by (simp add: round_even_def)
next
  case False
  then have "2 ^ 23 * 2 ^ k \<le> m" using shift_small [OF assms] by simp
  with round_even_upper [of m k] show ?thesis by simp
qed

lemma rounded_lower:
  assumes "d * 2 ^ j \<le> m" and "k \<le> j"
  shows "d * 2 ^ j \<le> round_even m k * 2 ^ k"
proof -
  have j: "(2::nat) ^ j = 2 ^ (j - k) * 2 ^ k" using assms(2) by (simp flip: power_add)
  have "d * 2 ^ (j - k) = (d * 2 ^ j) div 2 ^ k" by (simp add: j)
  also have "\<dots> \<le> m div 2 ^ k" using assms(1) by (rule div_le_mono)
  also have "\<dots> \<le> round_even m k" by (rule round_even_lower)
  finally have "d * 2 ^ (j - k) * 2 ^ k \<le> round_even m k * 2 ^ k" by (rule mult_le_mono1)
  then show ?thesis by (simp add: j mult.assoc)
qed

lemma bitlen_le: assumes "n < 2 ^ j" shows "bitlen n \<le> j"
proof (cases "n = 0")
  case True
  then show ?thesis by (simp add: bitlen.simps)
next
  case False
  then have "2 ^ (bitlen n - 1) < (2::nat) ^ j" using bitlen_bounds [of n] assms by linarith
  then have "bitlen n - 1 < j" by simp
  then show ?thesis by simp
qed

lemma fround_nat:
  "fround p (int m, e) = (int (round_even m (bitlen m - p)), e + int (bitlen m - p))"
  by (cases "m = 0") (simp_all add: fround_def Let_def round_even_def)

lemma to_double_exact: "m < 2 ^ 53 \<Longrightarrow> to_double (int m, e) = (int m, e)"
  using bitlen_le [of m 53] by (simp add: to_double_def fround_nat round_even_def)

lemma milli_to_temp_nat:
  assumes "n \<le> 1000000"
  shows "milli_to_temp (int n, 0) =
    (int (round_even (8589935 * n) (bitlen (8589935 * n) - 24)), int (bitlen (8589935 * n) - 24) - 33)"
proof -
  have "fmul F_1em3 (int n, 0) = (int (8589935 * n), - 33)"
    by (simp add: fmul_def F_1em3_def)
  moreover have "8589935 * n < 2 ^ 53" using assms by simp
  ultimately show ?thesis
    by (simp only: milli_to_temp_def to_double_exact to_float_def fround_nat) simp
qed

lemma whole_degrees_nat:
  assumes "k1 \<le> 20" and "m2 = 10995116 + 128 * (q1 * 2 ^ k1)" and "bitlen m2 - 24 \<le> 30"
    and "d * 2 ^ 40 \<le> round_even m2 (bitlen m2 - 24) * 2 ^ (bitlen m2 - 24)"
    and "round_even m2 (bitlen m2 - 24) * 2 ^ (bitlen m2 - 24) < (d + 1) * 2 ^ 40" and "d < 2000"
  shows "whole_degrees (int q1, int k1 - 33) = int d"
proof -
  let ?k = "bitlen m2 - 24"
  let ?q = "round_even m2 ?k"
  have p: "(2::nat) ^ 40 = 2 ^ (40 - ?k) * 2 ^ ?k"
    unfolding power_add [symmetric] using assms(3) by (intro arg_cong [of _ _ "power 2"]) simp
  have "d * 2 ^ (40 - ?k) \<le> ?q" "?q < (d + 1) * 2 ^ (40 - ?k)"
    using assms(4,5) unfolding p mult.assoc [symmetric] by simp_all
  then have "?q div 2 ^ (40 - ?k) = d" by (simp add: div_nat_eqI mult.commute)
  then have "int ?q div 2 ^ (40 - ?k) = int d"
    by (metis of_nat_div of_nat_numeral of_nat_power)
  then have q: "int ?q sdiv 2 ^ (40 - ?k) = int d"
    by (cases "?q = 0") (simp_all add: signed_divide_int_def)
  have e: "nat (int k1 + 7) = k1 + 7" by simp
  have "fadd F_1em5 (int q1, int k1 - 33) = (int m2, - 40)"
    using assms(1,2) by (simp add: fadd_def F_1em5_def Let_def e power_add algebra_simps)
  then have "whole_degrees (int q1, int k1 - 33) = ftoi (int ?q, - 40 + int ?k)"
    by (simp add: whole_degrees_def to_float_def fround_nat)
  moreover have "nat (40 - int ?k) = 40 - ?k" "- 40 + int ?k < 0" using assms(3) by auto
  ultimately show ?thesis
    using q assms(6) by (simp add: ftoi_def int_limits)
qed

lemma whole_degrees_milli:
  assumes "n \<le> 1000000"
  shows "whole_degrees (milli_to_temp (int n, 0)) = int (n div 1000)"
proof -
  define M where "M = 8589935 * n"
  define k where "k = bitlen M - 24"
  define T where "T = round_even M k * 2 ^ k"
  define m where "m = 10995116 + 128 * T"
  define j where "j = bitlen m - 24"
  define S where "S = round_even m j * 2 ^ j"
  have M: "M < 2 ^ 44" using assms by (simp add: M_def)
  then have k: "k \<le> 20" using bitlen_le [OF M] by (simp add: k_def)
  have T: "2 ^ 24 * T \<le> (2 ^ 24 + 1) * M"
    using rounded_upper [OF _ k_def] by (cases "M = 0") (simp_all add: round_even_def T_def)
  then have "m < 2 ^ 54" using M unfolding m_def by simp
  then have j: "j \<le> 30" using bitlen_le [of m 54] by (simp add: j_def)
  have D: "n = n div 1000 * 1000 + n mod 1000" "n mod 1000 < 1000" by simp_all
  have "n div 1000 * 2 ^ 33 \<le> M" using D unfolding M_def by simp
  then have "n div 1000 * 2 ^ 33 \<le> T" using k unfolding T_def by (intro rounded_lower) simp_all
  then have lo: "n div 1000 * 2 ^ 40 \<le> S" using j unfolding S_def m_def by (intro rounded_lower) simp_all
  have "2 ^ 24 * S \<le> (2 ^ 24 + 1) * m"
    unfolding S_def by (rule rounded_upper) (simp_all add: m_def j_def)
  then have hi: "S < (n div 1000 + 1) * 2 ^ 40"
    using T D assms unfolding m_def M_def by simp
  show ?thesis
    using whole_degrees_nat [OF k _ j [unfolded j_def] lo [unfolded S_def j_def] hi [unfolded S_def j_def],
        of "round_even M k"] assms milli_to_temp_nat [OF assms]
    by (simp add: m_def T_def M_def [symmetric] k_def [symmetric])
qed

text \<open>C34. The floating point conversion of a sensor value in millidegrees agrees with integer
  division by 1000, as the comment in \<open>read_temp_sensor\<close> asks, for every value from 0 to 1000
  degrees.\<close>

theorem millidegrees_exact:
  assumes "n \<le> 1000000"
  shows "whole_degrees (milli_to_temp (int n, 0)) = int (n div 1000)"
  using assms by (rule whole_degrees_milli)

section \<open>Warnings and the verdict\<close>

text \<open>Flags record which thresholds the last reading was above.\<close>

definition flags_ok :: "entry \<Rightarrow> bool" where
  "flags_ok a \<longleftrightarrow> (have3 a \<longrightarrow> have2 a) \<and> (have2 a \<longrightarrow> have1 a)"

definition flags_for :: "'s check_state_scheme \<Rightarrow> int \<Rightarrow> entry \<Rightarrow> entry" where
  "flags_for s t a = a\<lparr>have1 := t > templevel1 s, have2 := t > templevel2 s, have3 := t > templevel3 s\<rparr>"

lemma temp_warnings_run:
  assumes "flags_ok a" and "templevel1 s < templevel2 s" "templevel2 s < templevel3 s"
  shows "\<exists>s'. temp_warnings E a t s = (Ret (flags_for s t a), s') \<and> cfg s' = cfg s \<and>
     (flags_for s t a = a \<longrightarrow> s' = s)"
proof (cases a)
  case (fields nm ver lt rc mt ib iu h1 h2 h3 nt fp pk)
  consider "templevel3 s < t" | "templevel2 s < t" "t \<le> templevel3 s"
    | "templevel1 s < t" "t \<le> templevel2 s" | "t \<le> templevel1 s" by linarith
  then show ?thesis
  proof cases
    case 1
    with assms fields show ?thesis
      by (auto simp: temp_warnings_def flags_for_def flags_ok_def logs_run)
  next
    case 2
    with assms fields show ?thesis
      by (auto simp: temp_warnings_def flags_for_def flags_ok_def logs_run)
  next
    case 3
    with assms fields show ?thesis
      by (auto simp: temp_warnings_def flags_for_def flags_ok_def logs_run)
  next
    case 4
    with assms fields show ?thesis
      by (auto simp: temp_warnings_def flags_for_def flags_ok_def logs_run whenp_def)
  qed
qed

text \<open>An environment in which a sensor reads as \<open>n\<close> millidegrees: its file can be opened, and
  \<open>atof\<close> gives the integer on its first line.\<close>

definition sensor_reads :: "env \<Rightarrow> string \<Rightarrow> nat \<Rightarrow> bool" where
  "sensor_reads E nm n \<longleftrightarrow> (\<forall>tr. rv (kern E tr (FileCall (Fopen nm ''r''))) \<noteq> 0 \<and>
     (\<exists>buf ls. stream_lines 127 (kern E tr (FileCall (Fopen nm ''r''))) = buf # ls \<and>
        atof E (cstr buf) = (int n, 0)))"

lemma read_temp_sensor_run:
  assumes "sensor_reads E nm n"
  shows "\<exists>s'. read_temp_sensor E nm s = (Ret (ENOERR, Some (whole_degrees (milli_to_temp (int n, 0)))), s')"
proof -
  obtain buf ls where "stream_lines 127 (kern E (trace s) (FileCall (Fopen nm ''r''))) = buf # ls"
    "atof E (cstr buf) = (int n, 0)" "rv (kern E (trace s) (FileCall (Fopen nm ''r''))) \<noteq> 0"
    using assms unfolding sensor_reads_def by blast
  then show ?thesis by (simp add: read_temp_sensor_def logs_run Let_def)
qed

lemma levels_frame: "log_frame (\<lambda>s. (temp_fd s, templevel1 s, templevel2 s, templevel3 s))"
  by (simp add: log_frame_def)

lemma check_temp_run:
  assumes "temp_fd s \<noteq> - 1" "t_in_use a" "sensor_reads E (e_name a) n" "flags_ok a"
    and "templevel1 s < templevel2 s" "templevel2 s < templevel3 s"
  defines "t \<equiv> whole_degrees (milli_to_temp (int n, 0))"
  shows "\<exists>s'. check_temp E (Some a) s =
     (Ret (if maxtemp (cfg s) \<le> t then ETOOHOT else ENOERR, Some (flags_for s t a)), s')"
proof -
  obtain s1 where 1: "read_temp_sensor E (e_name a) s = (Ret (ENOERR, Some t), s1)"
    using read_temp_sensor_run [OF assms(3)] unfolding t_def by blast
  have k: "cfg s1 = cfg s"
    "(temp_fd s1, templevel1 s1, templevel2 s1, templevel3 s1) = (temp_fd s, templevel1 s, templevel2 s, templevel3 s)"
    using keepsD [OF read_temp_sensor_contract(3) 1] log_frame_cfg levels_frame by blast+
  then have f: "flags_for s1 t a = flags_for s t a" by (simp add: flags_for_def)
  obtain s2 where "temp_warnings E a t s1 = (Ret (flags_for s t a), s2)" "cfg s2 = cfg s"
    using temp_warnings_run [of a s1 E t] assms(4-6) k f by auto
  with 1 assms(1,2) show ?thesis
    by (auto simp: check_temp_def bind_apply_Ret logs_run Let_def)
qed

text \<open>The temperature check: it asks for a shutdown exactly when the reading in whole degrees
  reaches the maximum, and its flags then say exactly which warning levels the reading is above, so
  that each warning is given once per crossing.\<close>

lemma check_temp_verdict:
  assumes "temp_fd s \<noteq> - 1" "t_in_use a" "sensor_reads E (e_name a) n" "n \<le> 1000000" "flags_ok a"
    and "templevel1 s < templevel2 s" "templevel2 s < templevel3 s"
  shows "\<exists>s'. check_temp E (Some a) s =
     (Ret (if maxtemp (cfg s) \<le> int (n div 1000) then ETOOHOT else ENOERR,
           Some (a\<lparr>have1 := int (n div 1000) > templevel1 s, have2 := int (n div 1000) > templevel2 s,
                   have3 := int (n div 1000) > templevel3 s\<rparr>)), s')"
  using check_temp_run [OF assms(1-3,5-7)] whole_degrees_milli [OF assms(4)]
  by (simp add: flags_for_def)

end
