(* ===== verification/Net.thy ===== *)
theory Net
  imports Temperature
begin

text \<open>
  \<^verbatim>\<open>src/net.c\<close>: the ping check.

  Packets are byte strings; 16-bit words are read in the byte order of the (little-endian)
  targets, network order is written out byte by byte. A \<open>struct timeval\<close> is a pair of seconds and
  microseconds. The receive buffer belongs to the ping target and keeps its old contents behind a
  short packet, so \<open>check_net\<close> returns it next to its result. The inner loop waits for as long as
  packets keep coming and the clock does not reach the time-out; it is bounded by \<open>loop_bound\<close>.
\<close>

unbundle bit_operations_syntax

section \<open>Checksum\<close>

fun sum_words :: "int \<Rightarrow> string \<Rightarrow> int" where
  "sum_words acc (a # b # rest) = sum_words (int32 (acc + (of_char a + 256 * of_char b))) rest"
| "sum_words acc [a] = int32 (acc + of_char a)"
| "sum_words acc [] = acc"

definition in_cksum :: "string \<Rightarrow> int" where
  "in_cksum addr =
     (let sum0 = sum_words 0 addr;
          sum1 = drop_bit 16 sum0 + (sum0 AND 65535);
          sum2 = sum1 + drop_bit 16 sum1
      in NOT sum2 mod 65536)"

section \<open>Packets and times\<close>

definition DATALEN :: nat where "DATALEN = 56"
definition PKBUF_SIZE :: nat where "PKBUF_SIZE = 192"
definition ICMP_ECHO :: int where "ICMP_ECHO = 8"
definition ICMP_ECHOREPLY :: int where "ICMP_ECHOREPLY = 0"
definition USEC :: int where "USEC = 1000000"

definition byte :: "int \<Rightarrow> char" where
  "byte i = char_of (nat (i mod 256))"

text \<open>A 16-bit value in network order, and in the order of the host.\<close>

definition net16 :: "int \<Rightarrow> string" where
  "net16 i = [byte (i div 256), byte i]"

definition host16 :: "int \<Rightarrow> string" where
  "host16 i = [byte i, byte (i div 256)]"

text \<open>The echo request: type, code, checksum, identifier, sequence number and zero data.\<close>

definition echo_fields :: "string \<Rightarrow> int \<Rightarrow> int \<Rightarrow> string" where
  "echo_fields cksum ident sequence =
     [byte ICMP_ECHO, byte 0] @ cksum @ net16 ident @ net16 sequence @ replicate DATALEN NUL"

definition echo_packet :: "int \<Rightarrow> int \<Rightarrow> string" where
  "echo_packet ident sequence =
     echo_fields (host16 (in_cksum (echo_fields [NUL, NUL] ident sequence))) ident sequence"

type_synonym timeval = "int \<times> int"

fun timeradd :: "timeval \<Rightarrow> timeval \<Rightarrow> timeval" where
  "timeradd (s1, u1) (s2, u2) =
     (if u1 + u2 \<ge> USEC then (s1 + s2 + 1, u1 + u2 - USEC) else (s1 + s2, u1 + u2))"

fun timersub :: "timeval \<Rightarrow> timeval \<Rightarrow> timeval" where
  "timersub (s1, u1) (s2, u2) =
     (if u1 - u2 < 0 then (s1 - s2 - 1, u1 - u2 + USEC) else (s1 - s2, u1 - u2))"

definition gettimeofday :: "env \<Rightarrow> ('s os_state_scheme, timeval) proc" where
  "gettimeofday E = bind (nsys E Gettimeofday) (\<lambda>r. ret (v1 r, v2 r))"

definition byte_at :: "string \<Rightarrow> nat \<Rightarrow> int" where
  "byte_at p i = (if i < length p then of_char (p ! i) else 0)"

text \<open>The receive buffer after a packet, and the test whether it holds the reply.\<close>

definition received :: "string \<Rightarrow> reply \<Rightarrow> string" where
  "received pk r = memcpy_at pk 0 (take (nat (rv r)) (take PKBUF_SIZE (dat r)))"

definition icmp_offset :: "string \<Rightarrow> nat" where
  "icmp_offset pk = nat (byte_at pk 0 mod 16) * 4"

definition is_our_echo :: "string \<Rightarrow> int \<Rightarrow> int \<Rightarrow> bool" where
  "is_our_echo pk pid sequence \<longleftrightarrow>
     (let off = icmp_offset pk in
      byte_at pk off = ICMP_ECHOREPLY \<and>
      256 * byte_at pk (off + 4) + byte_at pk (off + 5) = pid \<and>
      256 * byte_at pk (off + 6) + byte_at pk (off + 7) = sequence)"

section \<open>The check\<close>

datatype wait_result = Answered | Timed_out | Recv_failed int

definition log_ping_time :: "env \<Rightarrow> string \<Rightarrow> int \<Rightarrow> timeval \<Rightarrow> ('s check_state_scheme, unit) proc" where
  "log_ping_time E target i tstart =
     bind (gets cfg) (\<lambda>c.
     whenp (verbose_tick c)
       (bind (gettimeofday E) (\<lambda>now.
        let d = timersub now tstart in
        log_msg E LOG_DEBUG ''got answer on ping'' [AInt (i + 1), AStr target, AInt (fst d * USEC + snd d)])))"

fun await_reply ::
  "nat \<Rightarrow> env \<Rightarrow> string \<Rightarrow> int \<Rightarrow> int \<Rightarrow> int \<Rightarrow> timeval \<Rightarrow> timeval \<Rightarrow> string \<Rightarrow>
     ('s check_state_scheme, wait_result \<times> string) proc" where
  "await_reply 0 E target fd to i tstart timeout pk = unfinished"
| "await_reply (Suc n) E target fd to i tstart timeout pk =
     bind (gettimeofday E) (\<lambda>now.
     let d = timersub timeout now in
     if fst d < 0 then ret (Timed_out, pk)
     else
       bind (nsys E (Select (fd + 1) (fst d) (snd d))) (\<lambda>sel.
       if rv sel \<ge> 1 then
         bind (nsys E (Recvfrom fd PKBUF_SIZE)) (\<lambda>r.
         if rv r < 0 then
           if err r \<noteq> EINTR then
             andthen (log_msg E LOG_ERR ''recvfrom gave errno'' [AInt (err r)]) (ret (Recv_failed (err r), pk))
           else await_reply n E target fd to i tstart timeout pk
         else
           (let pk' = received pk r in
            bind (gets daemon_pid) (\<lambda>pid.
            if is_our_echo pk' pid (i + 1) \<and> v1 r = to then
              andthen (log_ping_time E target i tstart) (ret (Answered, pk'))
            else await_reply n E target fd to i tstart timeout pk')))
       else await_reply n E target fd to i tstart timeout pk))"

text \<open>One round: send the request, then wait. \<open>None\<close> means that the next round follows.\<close>

definition after_send ::
  "env \<Rightarrow> string \<Rightarrow> int \<Rightarrow> int \<Rightarrow> timeval \<Rightarrow> int \<Rightarrow> string \<Rightarrow> reply \<Rightarrow>
     ('s check_state_scheme, int option \<times> string) proc" where
  "after_send E target fd to tmax i pk r =
     (if rv r < 0 then
        andthen
          (if err r = ENETUNREACH then log_msg E LOG_ERR ''network is unreachable'' [AStr target]
           else log_msg E LOG_ERR ''sendto gave error'' [AStr target, AInt (err r)])
        (ret (Some (err r), pk))
      else
        bind (gettimeofday E) (\<lambda>tstart.
        bind (await_reply (loop_bound E) E target fd to i tstart (timeradd tstart tmax) pk) (\<lambda>(w, pk').
        ret (case w of
               Answered \<Rightarrow> Some ENOERR
             | Recv_failed e \<Rightarrow> Some e
             | Timed_out \<Rightarrow> None, pk'))))"

definition ping_round ::
  "env \<Rightarrow> string \<Rightarrow> int \<Rightarrow> int \<Rightarrow> timeval \<Rightarrow> int \<Rightarrow> string \<Rightarrow>
     ('s check_state_scheme, int option \<times> string) proc" where
  "ping_round E target fd to tmax i pk =
     bind (gets daemon_pid) (\<lambda>pid.
     bind (nsys E (Sendto fd to (echo_packet pid (i + 1)))) (\<lambda>r.
     after_send E target fd to tmax i pk r))"

fun ping_rounds ::
  "nat \<Rightarrow> env \<Rightarrow> string \<Rightarrow> int \<Rightarrow> int \<Rightarrow> timeval \<Rightarrow> int \<Rightarrow> string \<Rightarrow>
     ('s check_state_scheme, int \<times> string) proc" where
  "ping_rounds 0 E target fd to tmax i pk =
     andthen (log_msg E LOG_ERR ''no response from ping'' [AStr target]) (ret (ENETUNREACH, pk))"
| "ping_rounds (Suc n) E target fd to tmax i pk =
     bind (ping_round E target fd to tmax i pk) (\<lambda>(r, pk').
     case r of
       Some e \<Rightarrow> ret (e, pk')
     | None \<Rightarrow> ping_rounds n E target fd to tmax (i + 1) pk')"

definition ping_timeout :: "int \<Rightarrow> int \<Rightarrow> timeval" where
  "ping_timeout time count = (time sdiv count, ((time smod count) * USEC) sdiv count)"

definition check_net ::
  "env \<Rightarrow> string option \<Rightarrow> int \<Rightarrow> int \<Rightarrow> string \<Rightarrow> int \<Rightarrow> int \<Rightarrow> ('s check_state_scheme, int \<times> string) proc" where
  "check_net E target fd to pk time count =
     (case target of
        None \<Rightarrow> ret (ENOERR, pk)
      | Some t \<Rightarrow>
          if count < 1 then ret (EINVAL, pk)
          else ping_rounds (nat count) E t fd to (ping_timeout time count) 0 pk)"

section \<open>Setting up\<close>

definition INADDR_NONE :: int where "INADDR_NONE = 4294967295"

definition set_option :: "env \<Rightarrow> int \<Rightarrow> string \<Rightarrow> int \<Rightarrow> string \<Rightarrow> string \<Rightarrow> ('s check_state_scheme, unit) proc" where
  "set_option E fd opt val msg nm =
     bind (nsys E (Setsockopt fd opt val)) (\<lambda>r.
     whenp (rv r < 0) (log_msg E LOG_ERR msg [AStr nm, AInt (err r)]))"

definition open_target :: "env \<Rightarrow> int \<Rightarrow> entry \<Rightarrow> ('s check_state_scheme, entry) proc" where
  "open_target E p_proto act =
     bind (nsys E (Inet_addr (e_name act))) (\<lambda>a.
     if v1 a = INADDR_NONE then fatal_error E EX_USAGE ''unknown host'' [AStr (e_name act)]
     else
       bind (xcalloc E (int PKBUF_SIZE) 1) (\<lambda>_.
       bind (nsys E (Socket p_proto)) (\<lambda>sk.
       bind (if rv sk < 0 then ret (True, err sk)
             else bind (nsys E (Fcntl_cloexec (rv sk))) (\<lambda>f. ret (rv f \<noteq> 0, err f))) (\<lambda>(failed, e).
       if failed then fatal_error E EX_SYSERR ''error opening socket'' [AInt e]
       else
         andthen (set_option E (rv sk) ''ICMP_FILTER'' (NOT (push_bit (nat ICMP_ECHOREPLY) 1)) ''set ICMP filter error'' (e_name act))
         (andthen (set_option E (rv sk) ''SO_BROADCAST'' 0 ''set broadcast error'' (e_name act))
         (andthen (set_option E (rv sk) ''SO_RCVBUF'' (48 * 1024) ''set revbuf error'' (e_name act))
         (ret (act\<lparr>net_to := v1 a, sock_fp := rv sk, packet := replicate PKBUF_SIZE NUL\<rparr>))))))))"

definition open_netcheck :: "env \<Rightarrow> entry list \<Rightarrow> ('s check_state_scheme, int \<times> entry list) proc" where
  "open_netcheck E tlist =
     (if tlist \<noteq> [] then
        bind (nsys E (Getprotobyname ''icmp'')) (\<lambda>proto.
        if rv proto = 0 then fatal_error E EX_SYSERR ''unknown protocol'' [AStr ''icmp'']
        else
          bind (for_each (open_target E (v1 proto)) tlist) (\<lambda>tlist'.
          ret (0, tlist')))
      else ret (0, tlist))"

section \<open>The checksum is valid\<close>

text \<open>The sum of the words without the 32-bit accumulator, and its folding to 16 bits.\<close>

fun word_total :: "string \<Rightarrow> int" where
  "word_total (a # b # rest) = of_char a + 256 * of_char b + word_total rest"
| "word_total [a] = of_char a"
| "word_total [] = 0"

definition fold16 :: "int \<Rightarrow> int" where
  "fold16 s = (let s1 = s div 65536 + s mod 65536 in s1 + s1 div 65536) mod 65536"

lemma of_char_range: "0 \<le> (of_char c :: int)" "(of_char c :: int) \<le> 255"
proof -
  have "(of_char c :: nat) < 256" by (rule nat_of_char_less_256)
  moreover have "(of_char c :: int) = int (of_char c)" by (simp only: of_nat_of_char)
  ultimately show "0 \<le> (of_char c :: int)" "(of_char c :: int) \<le> 255" by linarith+
qed

lemma word_total_bounds: "0 \<le> word_total p \<and> 2 * word_total p \<le> 65535 * (int (length p) + 1)"
proof (induction p rule: word_total.induct)
  case (1 a b rest)
  then show ?case using of_char_range [of a] of_char_range [of b] by simp
next
  case (2 a)
  then show ?case using of_char_range [of a] by simp
qed simp

lemma sum_words_total:
  assumes "0 \<le> acc" and "2 * acc + 65535 * (int (length p) + 1) \<le> 2 * INT_MAX"
  shows "sum_words acc p = acc + word_total p"
  using assms
proof (induction acc p rule: sum_words.induct)
  case (1 acc a b rest)
  let ?w = "of_char a + 256 * of_char b :: int"
  have w: "0 \<le> ?w" "?w \<le> 65535" using of_char_range [of a] of_char_range [of b] by simp_all
  have "65535 * int (length (a # b # rest)) = 65535 * int (length rest) + 131070" by simp
  with 1(2,3) w have "int32 (acc + ?w) = acc + ?w"
    by (intro int32_id) (simp_all add: int_limits)
  moreover have "0 \<le> acc + ?w" "2 * (acc + ?w) + 65535 * (int (length rest) + 1) \<le> 2 * INT_MAX"
    using 1(2,3) w by simp_all
  ultimately show ?case using 1(1) by simp
next
  case (2 acc a)
  then have "int32 (acc + of_char a) = acc + of_char a"
    using of_char_range [of a] by (intro int32_id) (simp_all add: int_limits)
  then show ?case by simp
qed simp

lemma in_cksum_fold:
  assumes "length p \<le> 65000"
  shows "in_cksum p = 65535 - fold16 (word_total p)"
proof -
  have s: "sum_words 0 p = word_total p"
    using sum_words_total [of 0 p] assms by (simp add: int_limits)
  have n: "NOT x mod 65536 = 65535 - x mod 65536" for x :: int
  proof -
    have "q * 65536 + r = x \<Longrightarrow> NOT x = (65535 - r) + 65536 * (- q - 1)" for q r
      by (auto simp: not_int_def)
    from this [OF div_mult_mod_eq]
    have "NOT x = (65535 - x mod 65536) + 65536 * (- (x div 65536) - 1)" .
    then have "NOT x mod 65536 = (65535 - x mod 65536) mod 65536" by (metis mod_mult_self2)
    then show ?thesis by simp
  qed
  have m: "x AND 65535 = x mod 65536" for x :: int
    using take_bit_eq_mask [of 16 x] by (simp add: take_bit_eq_mod mask_eq_exp_minus_1)
  show ?thesis
    using n by (simp add: in_cksum_def s fold16_def Let_def drop_bit_eq_div m)
qed

lemma fold16_cases:
  assumes "0 < s" and "s \<le> INT_MAX"
  shows "1 \<le> fold16 s \<and> fold16 s \<le> 65535 \<and> (\<exists>q. s = fold16 s + 65535 * q)"
proof -
  define h where "h = s div 65536"
  define l where "l = s mod 65536"
  have d: "s = 65536 * h + l" "0 \<le> h" "h \<le> 32767" "0 \<le> l" "l \<le> 65535"
    using assms div_mult_mod_eq [of s 65536] by (auto simp: int_limits h_def l_def)
  have f: "fold16 s = (h + l + (h + l) div 65536) mod 65536"
    by (simp add: fold16_def Let_def h_def l_def)
  show ?thesis
  proof (cases "h + l < 65536")
    case True
    then have "fold16 s = h + l" using d f by simp
    then show ?thesis using d assms True by (auto intro: exI [of _ h])
  next
    case False
    then have "(h + l) div 65536 = 1" using d by (simp add: div_pos_geq)
    moreover have "(h + l + 1) mod 65536 = h + l + 1 - 65536"
      using d False minus_mod_self2 [of "h + l + 1" 65536] mod_pos_pos_trivial [of "h + l + 1 - 65536" 65536]
      by simp
    ultimately have "fold16 s = h + l - 65535" using f by simp
    then show ?thesis using d False by (auto intro: exI [of _ "h + 1"])
  qed
qed

lemma fold16_complement:
  assumes "0 < s" and "s \<le> INT_MAX - 65535"
  shows "fold16 (65535 - fold16 s + s) = 65535"
proof -
  have arith: "x + 65535 * r = 65535 - v + (v + 65535 * q) \<Longrightarrow> 1 \<le> x \<Longrightarrow> x \<le> 65535 \<Longrightarrow> x = 65535"
    for x v q r :: int
  proof -
    assume a: "x + 65535 * r = 65535 - v + (v + 65535 * q)" "1 \<le> x" "x \<le> 65535"
    then have "q + 1 - r \<le> 1" "1 \<le> q + 1 - r" by simp_all
    then have "q + 1 - r = 1" by (rule order_antisym)
    then have "r = q" by simp
    with a(1) show "x = 65535" by simp
  qed
  have "1 \<le> fold16 s \<and> fold16 s \<le> 65535 \<and> (\<exists>q. s = fold16 s + 65535 * q)"
    using assms by (intro fold16_cases) simp_all
  then obtain v q where v: "v = fold16 s" "1 \<le> v" "v \<le> 65535" and s: "v + 65535 * q = s" by metis
  then have "0 < 65535 - v + s" "65535 - v + s \<le> INT_MAX" using assms by simp_all
  from fold16_cases [OF this] obtain r where "1 \<le> fold16 (65535 - v + s)" "fold16 (65535 - v + s) \<le> 65535"
    "fold16 (65535 - v + s) + 65535 * r = 65535 - v + s" by metis
  with arith [of _ r v q] s show ?thesis unfolding v(1) by metis
qed

lemma of_char_byte: "(of_char (byte i) :: int) = i mod 256"
proof -
  have "(of_char (byte i) :: nat) = nat (i mod 256)" by (simp add: byte_def)
  then show ?thesis by (metis of_nat_of_char nat_0_le pos_mod_sign zero_less_numeral)
qed

lemma word_total_host16: "0 \<le> c \<Longrightarrow> c \<le> 65535 \<Longrightarrow> word_total (host16 c @ rest) = c + word_total rest"
  by (simp add: host16_def of_char_byte)

lemma echo_total:
  assumes "0 \<le> c" "c \<le> 65535"
  shows "word_total (echo_fields (host16 c) ident sq) = c + word_total (echo_fields [NUL, NUL] ident sq)"
  using assms word_total_host16 [OF assms] by (simp add: echo_fields_def)

lemma echo_fields_length: "length ck = 2 \<Longrightarrow> length (echo_fields ck ident sq) = 64"
  by (simp add: echo_fields_def net16_def DATALEN_def)

text \<open>C36. Every echo request has a valid Internet checksum: a receiver that sums up the whole
  packet with the same algorithm gets 0, for every identifier and sequence number.\<close>

theorem echo_packet_checksum: "in_cksum (echo_packet ident sq) = 0"
proof -
  let ?p = "echo_fields [NUL, NUL] ident sq"
  define s where "s = word_total ?p"
  have len: "length ?p = 64" by (simp add: echo_fields_length)
  have "8 \<le> s"
    using word_total_bounds [of "net16 ident @ net16 sq @ replicate DATALEN NUL"]
    by (simp add: s_def echo_fields_def of_char_byte ICMP_ECHO_def)
  then have s: "0 < s" "s \<le> INT_MAX - 65535"
    using word_total_bounds [of ?p] len by (simp_all add: s_def int_limits)
  have f: "1 \<le> fold16 s" "fold16 s \<le> 65535" using fold16_cases [of s] s by simp_all
  have c: "in_cksum ?p = 65535 - fold16 s" unfolding s_def by (rule in_cksum_fold) (simp add: len)
  have "in_cksum (echo_packet ident sq) = 65535 - fold16 (word_total (echo_fields (host16 (65535 - fold16 s)) ident sq))"
    unfolding echo_packet_def c by (rule in_cksum_fold) (simp add: echo_fields_length host16_def)
  also have "word_total (echo_fields (host16 (65535 - fold16 s)) ident sq) = 65535 - fold16 s + s"
    unfolding s_def by (rule echo_total) (use f in \<open>simp_all add: s_def\<close>)
  also have "65535 - fold16 (65535 - fold16 s + s) = 0"
    using fold16_complement [OF s] by simp
  finally show ?thesis .
qed

section \<open>What the check guarantees\<close>

fun is_sendto :: "syscall \<Rightarrow> bool" where
  "is_sendto (NetCall (Sendto f a p)) = True"
| "is_sendto c = False"

lemma log_call_not_sendto [simp]: "is_log_call c \<Longrightarrow> \<not> is_sendto c"
  by (cases c rule: is_log_call.cases) auto

lemma gettimeofday_rules [keeps_intro, emits_intro, returns_intro]:
  "(\<And>s t. g (s\<lparr>trace := t\<rparr>) = g s) \<Longrightarrow> keeps g (gettimeofday E)"
  "P (NetCall Gettimeofday) \<Longrightarrow> emits P (gettimeofday E)" "returns (gettimeofday E)"
  unfolding gettimeofday_def by (intro keeps_intro emits_intro returns_intro; simp)+

lemma log_ping_time_rules [keeps_intro, emits_intro, returns_intro]:
  "log_frame g \<Longrightarrow> keeps g (log_ping_time E target i tstart)"
  "P (NetCall Gettimeofday) \<Longrightarrow> (\<And>c. is_log_call c \<Longrightarrow> P c) \<Longrightarrow> emits P (log_ping_time E target i tstart)"
  "returns (log_ping_time E target i tstart)"
  unfolding log_ping_time_def by (intro keeps_intro emits_intro returns_intro; simp add: log_frame_def)+

lemma await_reply_keeps [keeps_intro]:
  "log_frame g \<Longrightarrow> keeps g (await_reply n E target fd to i tstart timeout pk)"
  by (induction n arbitrary: pk) (auto intro!: keeps_intro simp: log_frame_def Let_def)

lemma await_reply_emits:
  "emits (\<lambda>c. \<not> is_sendto c) (await_reply n E target fd to i tstart timeout pk)"
  by (induction n arbitrary: pk) (auto intro!: emits_intro simp: Let_def)

lemma log_frame_daemon_pid: "log_frame daemon_pid"
  by (simp add: log_frame_def)

lemma after_send_keeps: "log_frame g \<Longrightarrow> keeps g (after_send E target fd to tmax i pk r)"
  unfolding after_send_def by (intro keeps_intro) (simp_all add: log_frame_def)

lemma after_send_quiet: "keeps (calls is_sendto) (after_send E target fd to tmax i pk r)"
  unfolding after_send_def by (intro emits_keeps_calls emits_intro await_reply_emits) simp_all

lemma ping_round_sends:
  assumes "ping_round E target fd to tmax i pk s = (r, s')"
  shows "daemon_pid s' = daemon_pid s \<and>
    calls is_sendto s' = calls is_sendto s @ [NetCall (Sendto fd to (echo_packet (daemon_pid s) (i + 1)))]"
proof -
  let ?c = "NetCall (Sendto fd to (echo_packet (daemon_pid s) (i + 1)))"
  have run: "after_send E target fd to tmax i pk (kern E (trace s) ?c)
      (s\<lparr>trace := trace s @ [(?c, kern E (trace s) ?c)]\<rparr>) = (r, s')"
    using assms by (simp add: ping_round_def)
  show ?thesis
    using keepsD [OF after_send_keeps [OF log_frame_daemon_pid] run] keepsD [OF after_send_quiet run] by simp
qed

lemma ping_rounds_sends:
  assumes "ping_rounds n E target fd to tmax i pk s = (r, s')"
  shows "\<exists>k \<le> n. calls is_sendto s' = calls is_sendto s @
    map (\<lambda>j. NetCall (Sendto fd to (echo_packet (daemon_pid s) (i + 1 + int j)))) [0..<k]"
  using assms
proof (induction n arbitrary: i pk s)
  case 0
  then show ?case by (auto simp: logs_run calls_logs)
next
  case (Suc n)
  obtain r1 s1 where 1: "ping_round E target fd to tmax i pk s = (r1, s1)" by fastforce
  note sent = ping_round_sends [OF 1]
  have one: ?case if "s' = s1" using sent that by (intro exI [of _ 1]) simp
  show ?case
  proof (cases "\<exists>pk'. r1 = Ret (None, pk')")
    case True
    then obtain pk' where "ping_rounds n E target fd to tmax (i + 1) pk' s1 = (r, s')"
      using Suc.prems 1 by (auto simp: bind_apply_Ret)
    from Suc.IH [OF this] obtain k where "k \<le> n" "calls is_sendto s' = calls is_sendto s1 @
        map (\<lambda>j. NetCall (Sendto fd to (echo_packet (daemon_pid s1) (i + 1 + 1 + int j)))) [0..<k]" by auto
    with sent show ?thesis
      by (intro exI [of _ "Suc k"]) (simp add: map_upt_Suc algebra_simps del: upt_Suc)
  next
    case False
    then show ?thesis
      using Suc.prems 1 by (intro one) (cases r1, auto simp: bind_def split: option.splits)
  qed
qed

text \<open>However the kernel answers, one ping check sends at most \<open>count\<close> requests, all to the
  target, with the daemon's identifier and the sequence numbers 1, 2, 3, and so on in order.\<close>

lemma check_net_sends:
  assumes "check_net E (Some t) fd to pk time count s = (r, s')"
  shows "\<exists>k \<le> nat count. calls is_sendto s' = calls is_sendto s @
    map (\<lambda>j. NetCall (Sendto fd to (echo_packet (daemon_pid s) (1 + int j)))) [0..<k]"
  using assms ping_rounds_sends [of "nat count" E t fd to "ping_timeout time count" 0 pk s r s']
  by (auto simp: check_net_def split: if_splits)

text \<open>A reply was received from the target and recognised as ours.\<close>

definition answered_by :: "int \<Rightarrow> int \<Rightarrow> 's os_state_scheme \<Rightarrow> bool" where
  "answered_by fd to s \<longleftrightarrow>
     (\<exists>r. (NetCall (Recvfrom fd PKBUF_SIZE), r) \<in> set (trace s) \<and> 0 \<le> rv r \<and> v1 r = to)"

lemma answered_by_emits: "answered_by fd to s \<Longrightarrow> emits P m \<Longrightarrow> m s = (r, s') \<Longrightarrow> answered_by fd to s'"
  by (erule emitsE) (auto simp: answered_by_def)

lemma log_ping_time_answered:
  assumes "answered_by fd to s" and "log_ping_time E target i tstart s = (r, s')"
  shows "answered_by fd to s'"
  by (rule answered_by_emits [OF assms(1) log_ping_time_rules(2) assms(2), where P = "\<lambda>_. True"]) simp_all

lemma await_reply_sound:
  assumes "await_reply n E target fd to i tstart timeout pk s = (Ret (w, pk'), s')"
  shows "(w = Answered \<longrightarrow> is_our_echo pk' (daemon_pid s) (i + 1) \<and> answered_by fd to s') \<and>
    (\<forall>e. w = Recv_failed e \<longrightarrow> (\<exists>tr c. rv (kern E tr c) < 0 \<and> err (kern E tr c) = e))"
  using assms
proof (induction n arbitrary: pk s)
  case (Suc n)
  let ?g = "NetCall Gettimeofday" and ?rc = "NetCall (Recvfrom fd PKBUF_SIZE)"
  let ?d = "timersub timeout (v1 (kern E (trace s) ?g), v2 (kern E (trace s) ?g))"
  let ?sl = "NetCall (Select (fd + 1) (fst ?d) (snd ?d))"
  let ?s1 = "s\<lparr>trace := trace s @ [(?g, kern E (trace s) ?g)]\<rparr>"
  let ?s2 = "?s1\<lparr>trace := trace ?s1 @ [(?sl, kern E (trace ?s1) ?sl)]\<rparr>"
  let ?r = "kern E (trace ?s2) ?rc"
  let ?s3 = "?s2\<lparr>trace := trace ?s2 @ [(?rc, ?r)]\<rparr>"
  have IH: ?case if "await_reply n E target fd to i tstart timeout p st = (Ret (w, pk'), s')"
    "daemon_pid st = daemon_pid s" for p st
    using Suc.IH [OF that(1)] that(2) by simp
  consider "fst ?d < 0"
    | "\<not> fst ?d < 0" "\<not> rv (kern E (trace ?s1) ?sl) \<ge> 1"
    | "\<not> fst ?d < 0" "rv (kern E (trace ?s1) ?sl) \<ge> 1" "rv ?r < 0"
    | "\<not> fst ?d < 0" "rv (kern E (trace ?s1) ?sl) \<ge> 1" "\<not> rv ?r < 0" by blast
  then show ?case
  proof cases
    case 1
    with Suc.prems show ?thesis by (simp add: gettimeofday_def bind_assoc)
  next
    case 2
    with Suc.prems have "await_reply n E target fd to i tstart timeout pk ?s2 = (Ret (w, pk'), s')"
      by (simp add: gettimeofday_def bind_assoc Let_def)
    then show ?thesis by (rule IH) simp
  next
    case 3
    show ?thesis
    proof (cases "err ?r = EINTR")
      case True
      with 3 Suc.prems have "await_reply n E target fd to i tstart timeout pk ?s3 = (Ret (w, pk'), s')"
        by (simp add: gettimeofday_def bind_assoc Let_def)
      then show ?thesis by (rule IH) simp
    next
      case False
      with 3 Suc.prems have "w = Recv_failed (err ?r)"
        by (simp add: gettimeofday_def bind_assoc Let_def logs_run)
      with 3(3) show ?thesis by blast
    qed
  next
    case 4
    show ?thesis
    proof (cases "is_our_echo (received pk ?r) (daemon_pid s) (i + 1) \<and> v1 ?r = to")
      case True
      with 4 Suc.prems have fin: "andthen (log_ping_time E target i tstart) (ret (Answered, received pk ?r)) ?s3 =
          (Ret (w, pk'), s')"
        by (simp add: gettimeofday_def bind_assoc Let_def)
      obtain s4 where l: "log_ping_time E target i tstart ?s3 = (Ret (), s4)"
        using log_ping_time_rules(3) by (rule returns_unitE)
      have "(Ret (Answered, received pk ?r), s4) = (Ret (w, pk'), s')"
        unfolding fin [symmetric] by (rule sym, rule run_andthen, rule l) simp
      then have w: "w = Answered" "pk' = received pk ?r" "log_ping_time E target i tstart ?s3 = (Ret (), s')"
        using l by simp_all
      have "(?rc, ?r) \<in> set (trace ?s3)" by simp
      then have "answered_by fd to ?s3" using True 4(3) unfolding answered_by_def by (metis linorder_not_less)
      then have "answered_by fd to s'" using w(3) by (rule log_ping_time_answered)
      with w True show ?thesis by simp
    next
      case False
      with 4 Suc.prems have "await_reply n E target fd to i tstart timeout (received pk ?r) ?s3 = (Ret (w, pk'), s')"
        by (auto simp: gettimeofday_def bind_assoc Let_def)
      then show ?thesis by (rule IH) simp
    qed
  qed
qed simp

lemma after_send_sound:
  assumes "after_send E target fd to tmax i pk (kern E tr c) s = (Ret (Some ENOERR, pk'), s')" and "errno_ok E"
  shows "is_our_echo pk' (daemon_pid s) (i + 1) \<and> answered_by fd to s'"
proof (cases "rv (kern E tr c) < 0")
  case True
  with assms show ?thesis
    by (auto simp: after_send_def logs_run errno_ok_def ENOERR_def split: if_splits)
next
  case False
  let ?g = "NetCall Gettimeofday"
  let ?s1 = "s\<lparr>trace := trace s @ [(?g, kern E (trace s) ?g)]\<rparr>"
  let ?ts = "(v1 (kern E (trace s) ?g), v2 (kern E (trace s) ?g))"
  obtain w where a: "await_reply (loop_bound E) E target fd to i ?ts (timeradd ?ts tmax) pk ?s1 = (Ret (w, pk'), s')"
    and w: "(case w of Answered \<Rightarrow> Some ENOERR | Recv_failed e \<Rightarrow> Some e | Timed_out \<Rightarrow> None) = Some ENOERR"
    using assms(1) False by (auto simp: after_send_def gettimeofday_def bind_assoc elim!: bind_RetE)
  have "w = Answered"
  proof (cases w)
    case (Recv_failed e)
    then show ?thesis
      using await_reply_sound [OF a] w assms(2) by (auto simp: errno_ok_def ENOERR_def)
  qed (use w in simp_all)
  with await_reply_sound [OF a] show ?thesis by simp
qed

lemma ping_rounds_sound:
  assumes "ping_rounds n E target fd to tmax i pk s = (Ret (ENOERR, pk'), s')" and "errno_ok E"
  shows "\<exists>sq. i + 1 \<le> sq \<and> sq \<le> i + int n \<and> is_our_echo pk' (daemon_pid s) sq \<and> answered_by fd to s'"
  using assms(1)
proof (induction n arbitrary: i pk s)
  case 0
  then show ?case by (simp add: logs_run ENETUNREACH_def ENOERR_def)
next
  case (Suc n)
  then obtain r pk1 s1 where 1: "ping_round E target fd to tmax i pk s = (Ret (r, pk1), s1)"
    and rest: "(case r of Some e \<Rightarrow> ret (e, pk1) | None \<Rightarrow> ping_rounds n E target fd to tmax (i + 1) pk1) s1 =
      (Ret (ENOERR, pk'), s')"
    by (auto elim!: bind_RetE)
  let ?c = "NetCall (Sendto fd to (echo_packet (daemon_pid s) (i + 1)))"
  have run: "after_send E target fd to tmax i pk (kern E (trace s) ?c)
      (s\<lparr>trace := trace s @ [(?c, kern E (trace s) ?c)]\<rparr>) = (Ret (r, pk1), s1)"
    using 1 by (simp add: ping_round_def)
  show ?case
  proof (cases r)
    case None
    with rest have "ping_rounds n E target fd to tmax (i + 1) pk1 s1 = (Ret (ENOERR, pk'), s')" by simp
    from Suc.IH [OF this] obtain sq where "i + 1 + 1 \<le> sq" "sq \<le> i + 1 + int n"
      "is_our_echo pk' (daemon_pid s1) sq" "answered_by fd to s'" by blast
    with ping_round_sends [OF 1] show ?thesis by (intro exI [of _ sq]) simp
  next
    case (Some e)
    with rest have "e = ENOERR" "pk1 = pk'" "s1 = s'" by simp_all
    with Some after_send_sound [OF _ assms(2)] run show ?thesis
      by (intro exI [of _ "i + 1"]) fastforce
  qed
qed


lemma is_our_echo_pid: "is_our_echo pk pid sq \<Longrightarrow> 0 \<le> pid \<and> pid \<le> 65535"
proof -
  have "0 \<le> byte_at pk i \<and> byte_at pk i \<le> 255" for i
    using of_char_range [of "pk ! i"] by (simp add: byte_at_def)
  then show "is_our_echo pk pid sq \<Longrightarrow> 0 \<le> pid \<and> pid \<le> 65535"
    by (smt (verit, best) is_our_echo_def Let_def)
qed

text \<open>The identifier in an echo reply has 16 bits while \<open>daemon_pid\<close> is compared in full: a daemon
  with a process id above 65535 never accepts an answer, so its ping checks always fail.\<close>

lemma check_net_large_pid_fails:
  assumes "65535 < daemon_pid s" and "errno_ok E"
  shows "check_net E (Some t) fd to pk time count s \<noteq> (Ret (ENOERR, pk'), s')"
proof
  assume run: "check_net E (Some t) fd to pk time count s = (Ret (ENOERR, pk'), s')"
  then have "\<not> count < 1" by (auto simp: check_net_def EINVAL_def ENOERR_def)
  then have "ping_rounds (nat count) E t fd to (ping_timeout time count) 0 pk s = (Ret (ENOERR, pk'), s')"
    using run by (simp add: check_net_def)
  from ping_rounds_sound [OF this assms(2)] show False
    using is_our_echo_pid assms(1) by fastforce
qed

section \<open>The check ends when the clock runs\<close>

text \<open>The clock in microseconds, and the assumption that it advances by at least one microsecond from
  one reading to the next.\<close>

definition usec_of :: "timeval \<Rightarrow> int" where
  "usec_of t = fst t * USEC + snd t"

definition clock :: "env \<Rightarrow> event list \<Rightarrow> timeval" where
  "clock E tr = (v1 (kern E tr (NetCall Gettimeofday)), v2 (kern E tr (NetCall Gettimeofday)))"

definition readings :: "event list \<Rightarrow> nat" where
  "readings tr = length (filter (\<lambda>e. fst e = NetCall Gettimeofday) tr)"

definition clock_runs :: "env \<Rightarrow> bool" where
  "clock_runs E \<longleftrightarrow> (\<forall>tr. 0 \<le> snd (clock E tr) \<and> snd (clock E tr) < USEC) \<and>
     (\<forall>tr es. usec_of (clock E tr) + int (readings es) \<le> usec_of (clock E (tr @ es)))"

lemma timersub_neg:
  assumes "0 \<le> snd a" "snd a < USEC" "0 \<le> snd b" "snd b < USEC"
  shows "fst (timersub a b) < 0 \<longleftrightarrow> usec_of a < usec_of b"
  using assms by (cases a; cases b) (auto simp: usec_of_def USEC_def)

lemma timeradd_usec:
  assumes "0 \<le> snd a" "snd a < USEC" "0 \<le> snd b" "snd b < USEC"
  shows "usec_of (timeradd a b) = usec_of a + usec_of b \<and> 0 \<le> snd (timeradd a b) \<and> snd (timeradd a b) < USEC"
  using assms by (cases a; cases b) (auto simp: usec_of_def USEC_def)

lemma readings_append [simp]: "readings (a @ b) = readings a + readings b"
  by (simp add: readings_def)

lemma await_reply_ends:
  assumes "clock_runs E" and "0 \<le> snd timeout" "snd timeout < USEC"
    and "usec_of timeout = usec_of (clock E tr) + T"
    and "trace s = tr @ es" and "0 < n" and "T + 1 < int (readings es) + int n"
  shows "\<exists>x s'. await_reply n E target fd to i tstart timeout pk s = (Ret x, s')"
  using assms(5-7)
proof (induction n arbitrary: pk s es)
  case (Suc n)
  let ?g = "NetCall Gettimeofday" and ?rc = "NetCall (Recvfrom fd PKBUF_SIZE)"
  let ?d = "timersub timeout (clock E (trace s))"
  let ?sl = "NetCall (Select (fd + 1) (fst ?d) (snd ?d))"
  let ?e1 = "(?g, kern E (trace s) ?g)"
  let ?s1 = "s\<lparr>trace := trace s @ [?e1]\<rparr>"
  let ?e2 = "(?sl, kern E (trace ?s1) ?sl)"
  let ?s2 = "?s1\<lparr>trace := trace ?s1 @ [?e2]\<rparr>"
  let ?r = "kern E (trace ?s2) ?rc"
  let ?s3 = "?s2\<lparr>trace := trace ?s2 @ [(?rc, ?r)]\<rparr>"
  have late: "usec_of (clock E tr) + int (readings es) \<le> usec_of (clock E (trace s))"
    and norm: "0 \<le> snd (clock E (trace s))" "snd (clock E (trace s)) < USEC"
    using assms(1) Suc.prems(1) unfolding clock_runs_def by simp_all
  have g: "bind (gettimeofday E) k s = k (clock E (trace s)) ?s1" for k
    by (simp add: gettimeofday_def bind_assoc clock_def)
  show ?case
  proof (cases "fst ?d < 0")
    case True
    then show ?thesis by (simp add: g)
  next
    case False
    then have "int (readings es) \<le> T"
      using timersub_neg [OF assms(2,3) norm] assms(4) late by simp
    then have more: "0 < n" "T + 1 < int (readings (es @ [?e1, ?e2])) + int n"
      "T + 1 < int (readings (es @ [?e1, ?e2, (?rc, ?r)])) + int n"
      using Suc.prems(3) by (simp_all add: readings_def)
    have 2: "\<exists>x s'. await_reply n E target fd to i tstart timeout p ?s2 = (Ret x, s')" for p
      using Suc.prems(1) by (intro Suc.IH [OF _ more(1,2)]) simp
    have 3: "\<exists>x s'. await_reply n E target fd to i tstart timeout p ?s3 = (Ret x, s')" for p
      using Suc.prems(1) by (intro Suc.IH [OF _ more(1,3)]) simp
    obtain s4 where "log_ping_time E target i tstart ?s3 = (Ret (), s4)"
      using log_ping_time_rules(3) by (rule returns_unitE)
    with False 2 3 show ?thesis
      by (simp add: g Let_def logs_run andthen_apply_Ret)
  qed
qed simp

definition ping_budget :: "int \<Rightarrow> int \<Rightarrow> int" where
  "ping_budget time count = usec_of (ping_timeout time count)"

lemma ping_timeout_norm:
  assumes "0 \<le> time" and "1 \<le> count"
  shows "0 \<le> snd (ping_timeout time count) \<and> snd (ping_timeout time count) < USEC"
proof -
  have m: "0 \<le> time mod count" "time mod count < count" using assms by simp_all
  have e: "snd (ping_timeout time count) = (time mod count * USEC) div count"
    using assms m by (simp add: ping_timeout_def signed_modulo_int_def signed_divide_int_def USEC_def sgn_if)
  have "(time mod count * USEC) div count < USEC"
  proof (rule ccontr)
    let ?x = "time mod count * USEC"
    assume "\<not> ?x div count < USEC"
    then have "USEC * count \<le> ?x div count * count" using assms(2) by (intro mult_right_mono) simp_all
    also have "\<dots> \<le> ?x" using assms(2) div_mult_mod_eq [of ?x count] pos_mod_sign [of count ?x] by linarith
    finally show False using m by (simp add: USEC_def)
  qed
  with e m assms(2) show ?thesis by (simp add: pos_imp_zdiv_nonneg_iff USEC_def)
qed

lemma after_send_ends:
  assumes "clock_runs E" and "0 \<le> snd tmax" "snd tmax < USEC" and "usec_of tmax < int (loop_bound E)"
    and "0 < loop_bound E"
  shows "\<exists>x s'. after_send E target fd to tmax i pk r s = (Ret x, s')"
proof (cases "rv r < 0")
  case True
  then show ?thesis by (simp add: after_send_def logs_run)
next
  case False
  let ?g = "NetCall Gettimeofday"
  let ?s1 = "s\<lparr>trace := trace s @ [(?g, kern E (trace s) ?g)]\<rparr>"
  have n: "0 \<le> snd (clock E (trace s))" "snd (clock E (trace s)) < USEC"
    using assms(1) by (simp_all add: clock_runs_def)
  have "\<exists>x s'. await_reply (loop_bound E) E target fd to i (clock E (trace s))
      (timeradd (clock E (trace s)) tmax) pk ?s1 = (Ret x, s')"
    by (rule await_reply_ends [OF assms(1), where T = "usec_of tmax" and tr = "trace s"
          and es = "[(?g, kern E (trace s) ?g)]"])
      (use timeradd_usec [OF n assms(2,3)] assms(4,5) in \<open>simp_all add: readings_def\<close>)
  with False show ?thesis
    by (auto simp: after_send_def gettimeofday_def bind_assoc clock_def bind_apply_Ret)
qed

lemma ping_rounds_ends:
  assumes "clock_runs E" and "0 \<le> snd tmax" "snd tmax < USEC" and "usec_of tmax < int (loop_bound E)"
    and "0 < loop_bound E"
  shows "\<exists>x s'. ping_rounds n E target fd to tmax i pk s = (Ret x, s')"
proof (induction n arbitrary: i pk s)
  case (Suc n)
  have "\<exists>r pk1 s1. ping_round E target fd to tmax i pk s = (Ret (r, pk1), s1)"
    using after_send_ends [OF assms] by (auto simp: ping_round_def)
  then obtain r pk1 s1 where "ping_round E target fd to tmax i pk s = (Ret (r, pk1), s1)" by blast
  with Suc [of "i + 1" pk1 s1] show ?case by (cases r) (simp_all add: bind_apply_Ret)
qed (simp add: logs_run)

text \<open>C38. The ping check returns: when the clock advances between readings, a loop bound above the
  share of one ping in the time-out (in microseconds) is enough, whatever packets arrive.\<close>

theorem check_net_returns:
  assumes "clock_runs E" and "0 \<le> time" and "ping_budget time count < int (loop_bound E)"
    and "0 < loop_bound E"
  shows "\<exists>r s'. check_net E target fd to pk time count s = (Ret r, s')"
proof (cases "target = None \<or> count < 1")
  case True
  then show ?thesis by (auto simp: check_net_def split: option.split)
next
  case False
  then obtain t where t: "target = Some t" "1 \<le> count" by auto
  have n: "0 \<le> snd (ping_timeout time count)" "snd (ping_timeout time count) < USEC"
    using ping_timeout_norm [OF assms(2) t(2)] by simp_all
  show ?thesis
    using ping_rounds_ends [OF assms(1) n _ assms(4)] assms(3) t by (auto simp: check_net_def ping_budget_def)
qed

end
