(* ===== verification/TestBinary.thy ===== *)
theory TestBinary
  imports Net
begin

text \<open>
  \<^verbatim>\<open>src/test_binary.c\<close>: test binaries run as child processes, one instance of each at a time, and
  their results are collected in later rounds.

  The linked list of processes is a HOL list, newest first. After \<open>fork\<close> the model follows the
  side the kernel's reply stands for: 0 is the child, whose run ends with \<open>exit\<close> or a new image.
\<close>

section \<open>State\<close>

record process =
  proc_name :: string
  pid :: int
  ptime :: int
  ecode :: int
  is_done :: bool

record test_state = check_state +
  process_head :: "process list"

datatype test_status = TEST_RUNNING | TEST_COMPLETED | TEST_BLANK

section \<open>The list of processes\<close>

definition free_process :: "('s test_state_scheme, unit) proc" where
  "free_process = modify (process_head_update (\<lambda>_. []))"

text \<open>\<open>sizeof(struct process)\<close> on the 64-bit targets.\<close>

definition sizeof_process :: int where "sizeof_process = 4128"

definition add_process :: "env \<Rightarrow> string \<Rightarrow> int \<Rightarrow> ('s test_state_scheme, int) proc" where
  "add_process E nm p =
     bind (psys E (Malloc sizeof_process)) (\<lambda>m.
     if rv m = 0 then
       andthen (log_msg E LOG_ALERT ''out of memory adding test binary'' [])
       (andthen free_process
       (ret ENOMEM))
     else
       bind (psys E Time) (\<lambda>t.
       andthen (modify (process_head_update (\<lambda>ps.
          \<lparr>proc_name = take (PATH_MAX - 1) nm, pid = p, ptime = v1 t, ecode = 0, is_done = False\<rparr> # ps)))
       (ret ENOERR)))"

fun unlink_pid :: "int \<Rightarrow> process list \<Rightarrow> process list" where
  "unlink_pid p [] = []"
| "unlink_pid p (c # cs) = (if pid c \<noteq> p then c # unlink_pid p cs else cs)"

definition remove_process :: "int \<Rightarrow> ('s test_state_scheme, unit) proc" where
  "remove_process p = modify (process_head_update (unlink_pid p))"

text \<open>The entry of a process, and the list with that entry replaced.\<close>

fun find_pid :: "int \<Rightarrow> process list \<Rightarrow> process option" where
  "find_pid p [] = None"
| "find_pid p (c # cs) = (if pid c \<noteq> p then find_pid p cs else Some c)"

fun set_pid :: "int \<Rightarrow> process \<Rightarrow> process list \<Rightarrow> process list" where
  "set_pid p c' [] = []"
| "set_pid p c' (c # cs) = (if pid c \<noteq> p then c # set_pid p c' cs else c' # cs)"

definition update_process :: "env \<Rightarrow> int \<Rightarrow> int \<Rightarrow> ('s test_state_scheme, unit) proc" where
  "update_process E p result =
     bind (gets process_head) (\<lambda>ps.
     case find_pid p ps of
       None \<Rightarrow> ret ()
     | Some current \<Rightarrow>
         if \<not> is_done current then
           if WIFEXITED result then
             (let e = WEXITSTATUS result in
              bind (gets cfg) (\<lambda>c.
              andthen
                (whenp (e \<noteq> 0 \<or> is_verbose c)
                   (log_msg E LOG_DEBUG ''test binary returned'' [AStr (proc_name current), AInt e, AStr (wd_strerror E e)]))
              (modify (process_head_update (set_pid p (current\<lparr>ecode := e, is_done := True\<rparr>))))))
           else if WIFSIGNALED result then
             andthen (log_msg E LOG_ERR ''test binary was killed by uncaught signal''
                        [AStr (proc_name current), AInt (WTERMSIG result)])
             (modify (process_head_update (set_pid p (current\<lparr>ecode := ECHKILL, is_done := True\<rparr>))))
           else ret ()
         else ret ())"

fun gather_loop :: "nat \<Rightarrow> env \<Rightarrow> ('s test_state_scheme, unit) proc" where
  "gather_loop 0 E = unfinished"
| "gather_loop (Suc n) E =
     bind (psys E (Waitpid (- 1) True)) (\<lambda>w.
     if rv w > 0 then andthen (update_process E (rv w) (v1 w)) (gather_loop n E)
     else whenp (rv w < 0 \<and> err w \<noteq> ECHILD)
            (log_msg E LOG_ERR ''error getting child process'' [AInt (err w)]))"

definition gather_children :: "env \<Rightarrow> ('s test_state_scheme, unit) proc" where
  "gather_children E = gather_loop (loop_bound E) E"

definition expire :: "env \<Rightarrow> int \<Rightarrow> int \<Rightarrow> process \<Rightarrow> ('s test_state_scheme, process) proc" where
  "expire E timeout now current =
     (if \<not> is_done current \<and> int32 (now - ptime current) > timeout then
        andthen (do_sys E (ProcCall (Kill (pid current) SIGKILL)))
        (andthen (log_msg E LOG_ERR ''test-binary exceeded time limit'' [AStr (proc_name current), AInt timeout])
        (ret (current\<lparr>is_done := True, ecode := ETOOLONG\<rparr>)))
      else ret current)"

definition check_timeouts :: "env \<Rightarrow> int \<Rightarrow> ('s test_state_scheme, int) proc" where
  "check_timeouts E timeout =
     bind (psys E Time) (\<lambda>t.
     bind (gets process_head) (\<lambda>ps.
     bind (for_each (expire E timeout (v1 t)) ps) (\<lambda>ps'.
     andthen (modify (process_head_update (\<lambda>_. ps')))
     (ret ENOERR))))"

fun find_name :: "string \<Rightarrow> process list \<Rightarrow> process option" where
  "find_name nm [] = None"
| "find_name nm (c # cs) = (if proc_name c = nm then Some c else find_name nm cs)"

definition check_processes :: "string \<Rightarrow> ('s test_state_scheme, test_status \<times> int option) proc" where
  "check_processes nm =
     bind (gets process_head) (\<lambda>ps.
     case find_name nm ps of
       None \<Rightarrow> ret (TEST_BLANK, None)
     | Some current \<Rightarrow>
         if \<not> is_done current then ret (TEST_RUNNING, None)
         else andthen (remove_process (pid current)) (ret (TEST_COMPLETED, Some (ecode current))))"

section \<open>Running a test\<close>

text \<open>One output stream of the child redirected to a file of the log directory.\<close>

definition redirect :: "env \<Rightarrow> string \<Rightarrow> int \<Rightarrow> ('s test_state_scheme, unit) proc" where
  "redirect E fname stream =
     bind (fsys E (Open fname O_WRONLY_CREAT_APPEND)) (\<lambda>fd.
     if rv fd = - 1 then stop (err fd)
     else
       bind (fsys E (Dup2 (rv fd) stream)) (\<lambda>d.
       if rv d = - 1 then stop (err d) else ret ()))"

definition test_child :: "env \<Rightarrow> string \<Rightarrow> int \<Rightarrow> ('s test_state_scheme, int) proc" where
  "test_child E tbinary version =
     bind (gets (logdir \<circ> cfg)) (\<lambda>ld.
     case ld of
       None \<Rightarrow> fault
     | Some dir \<Rightarrow>
         andthen (redirect E (dir @ ''/test-bin.stdout'') 1)
         (andthen (redirect E (dir @ ''/test-bin.stderr'') 2)
         (let args = (if version = 0 then [tbinary] else [tbinary, ''test'']) in
          bind (psys E (Execl tbinary args)) (\<lambda>x.
          if rv x = 0 then exec_image tbinary args else stop (err x)))))"

definition start_test :: "env \<Rightarrow> string \<Rightarrow> int \<Rightarrow> int \<Rightarrow> ('s test_state_scheme, int) proc" where
  "start_test E tbinary version code =
     bind (psys E Fork) (\<lambda>child.
     if rv child = 0 then test_child E tbinary version
     else if rv child < 0 then
       andthen (log_msg E LOG_ERR ''process fork failed'' [AInt (err child)]) (ret EREBOOT)
     else
       bind (add_process E tbinary (rv child)) (\<lambda>e.
       ret (if e \<noteq> 0 then e else code)))"

definition check_bin :: "env \<Rightarrow> string option \<Rightarrow> int \<Rightarrow> int \<Rightarrow> ('s test_state_scheme, int) proc" where
  "check_bin E tbinary timeout version =
     andthen (gather_children E)
     (andthen (whenp (timeout > 0) (bind (check_timeouts E timeout) (\<lambda>_. ret ())))
     (case tbinary of
        None \<Rightarrow> ret ENOERR
      | Some tb \<Rightarrow>
          bind (check_processes tb) (\<lambda>(status, code).
          if status = TEST_RUNNING then ret EDONTKNOW
          else start_test E tb version (case code of None \<Rightarrow> EDONTKNOW | Some c \<Rightarrow> c))))"

section \<open>One instance of each binary\<close>

text \<open>The table of processes has one entry per binary and per process.\<close>

definition table_ok :: "process list \<Rightarrow> bool" where
  "table_ok ps \<longleftrightarrow> distinct (map proc_name ps) \<and> distinct (map pid ps)"

abbreviation names_pids :: "process list \<Rightarrow> (string \<times> int) list" where
  "names_pids ps \<equiv> map (\<lambda>c. (proc_name c, pid c)) ps"

lemma table_ok_names_pids:
  "names_pids ps = names_pids qs \<Longrightarrow> table_ok ps = table_ok qs"
proof -
  assume e: "names_pids ps = names_pids qs"
  have "map proc_name ps = map fst (names_pids ps)" "map pid ps = map snd (names_pids ps)" for ps by simp_all
  then show ?thesis using e unfolding table_ok_def by metis
qed

lemma find_pid_Some: "find_pid p ps = Some c \<Longrightarrow> c \<in> set ps \<and> pid c = p"
  by (induction ps) (auto split: if_splits)

lemma find_name_Some: "find_name nm ps = Some c \<Longrightarrow> c \<in> set ps \<and> proc_name c = nm"
  by (induction ps) (auto split: if_splits)

lemma find_name_None: "find_name nm ps = None \<longleftrightarrow> nm \<notin> proc_name ` set ps"
  by (induction ps) auto

lemma find_set_pid:
  "find_pid p ps = Some c \<Longrightarrow> proc_name c' = proc_name c \<Longrightarrow> pid c' = pid c \<Longrightarrow>
   names_pids (set_pid p c' ps) = names_pids ps"
  by (induction ps) (auto split: if_splits)

lemma unlink_pid_set: "distinct (map pid ps) \<Longrightarrow> set (unlink_pid p ps) = {c \<in> set ps. pid c \<noteq> p}"
  by (induction ps) (auto simp: image_iff)

lemma unlink_pid_table: "table_ok ps \<Longrightarrow> table_ok (unlink_pid p ps)"
proof (induction ps)
  case (Cons c ps)
  then have "set (unlink_pid p ps) \<subseteq> set ps" using unlink_pid_set [of ps p] by (auto simp: table_ok_def)
  with Cons show ?case by (auto simp: table_ok_def)
qed simp

text \<open>Removing the finished entry of a binary leaves no entry of that name.\<close>

lemma unlink_name:
  assumes "table_ok ps" and "find_name nm ps = Some c"
  shows "find_name nm (unlink_pid (pid c) ps) = None"
proof -
  have c: "c \<in> set ps" "proc_name c = nm" using find_name_Some [OF assms(2)] by simp_all
  have "d = c" if "d \<in> set ps" "proc_name d = nm" for d
    using assms(1) that c by (auto simp: table_ok_def distinct_map inj_on_def)
  then show ?thesis
    using unlink_pid_set [of ps "pid c"] assms(1) by (auto simp: find_name_None table_ok_def)
qed

lemma log_frame_process_head [simp]: "log_frame process_head"
  by (simp add: log_frame_def)

lemma process_logs [simp]: "process_head (logged E l f a s) = process_head s"
  by (rule logged_frame) simp

lemma calls_process_update [simp]: "calls P (process_head_update f s) = calls P s"
  by (simp add: calls_def)

text \<open>Collecting results and expiring tests changes neither which processes are in the table nor the
  configuration.\<close>

abbreviation table_part :: "'s test_state_scheme \<Rightarrow> (string \<times> int) list \<times> config" where
  "table_part s \<equiv> (names_pids (process_head s), cfg s)"

lemma update_process_run:
  "\<exists>s'. update_process E p result s = (Ret (), s') \<and> table_part s' = table_part s \<and>
     (\<forall>P. (\<forall>c. is_log_call c \<longrightarrow> \<not> P c) \<longrightarrow> calls P s' = calls P s)"
proof (cases "find_pid p (process_head s)")
  case None
  then show ?thesis by (simp add: update_process_def)
next
  case (Some c)
  then show ?thesis
    using find_set_pid [OF Some]
    by (auto simp: update_process_def Let_def whenp_def logs_run calls_logs)
qed

lemma gather_loop_part:
  "gather_loop n E s = (r, s') \<Longrightarrow> table_part s' = table_part s"
proof (induction n arbitrary: s)
  case (Suc n)
  let ?w = "ProcCall (Waitpid (- 1) True)"
  let ?s1 = "s\<lparr>trace := trace s @ [(?w, kern E (trace s) ?w)]\<rparr>"
  obtain s2 where 2: "update_process E (rv (kern E (trace s) ?w)) (v1 (kern E (trace s) ?w)) ?s1 = (Ret (), s2)"
    "table_part s2 = table_part ?s1" using update_process_run by blast
  show ?case
  proof (cases "rv (kern E (trace s) ?w) > 0")
    case True
    with Suc.prems 2 have "gather_loop n E s2 = (r, s')" by (simp add: andthen_apply_Ret)
    with Suc.IH 2(2) show ?thesis by fastforce
  next
    case False
    with Suc.prems show ?thesis by (auto simp: whenp_def logs_run split: if_splits)
  qed
qed simp

definition overdue :: "int \<Rightarrow> int \<Rightarrow> process \<Rightarrow> bool" where
  "overdue timeout now c \<longleftrightarrow> \<not> is_done c \<and> timeout < int32 (now - ptime c)"

definition expired :: "int \<Rightarrow> int \<Rightarrow> process \<Rightarrow> process" where
  "expired timeout now c = (if overdue timeout now c then c\<lparr>is_done := True, ecode := ETOOLONG\<rparr> else c)"

fun is_kill :: "syscall \<Rightarrow> bool" where
  "is_kill (ProcCall (Kill p g)) = True"
| "is_kill c = False"

lemma log_call_not_kill [simp]: "is_log_call c \<Longrightarrow> \<not> is_kill c"
  by (cases c rule: is_log_call.cases) auto

lemma expire_run:
  "\<exists>s'. expire E timeout now c s = (Ret (expired timeout now c), s') \<and> process_head s' = process_head s \<and>
     cfg s' = cfg s \<and> calls is_kill s' = calls is_kill s @
       (if overdue timeout now c then [ProcCall (Kill (pid c) SIGKILL)] else [])"
  by (auto simp: expire_def expired_def overdue_def logs_run calls_logs)

lemma expire_all_run:
  "\<exists>s'. for_each (expire E timeout now) ps s = (Ret (map (expired timeout now) ps), s') \<and>
     process_head s' = process_head s \<and> cfg s' = cfg s \<and> calls is_kill s' = calls is_kill s @
       map (\<lambda>c. ProcCall (Kill (pid c) SIGKILL)) (filter (overdue timeout now) ps)"
proof (induction ps arbitrary: s)
  case (Cons c ps)
  obtain s1 where 1: "expire E timeout now c s = (Ret (expired timeout now c), s1)"
    "process_head s1 = process_head s" "cfg s1 = cfg s" "calls is_kill s1 = calls is_kill s @
       (if overdue timeout now c then [ProcCall (Kill (pid c) SIGKILL)] else [])"
    using expire_run by blast
  from Cons [of s1] 1 show ?case by (auto simp: bind_apply_Ret)
qed simp

lemma check_timeouts_run:
  "\<exists>s' now. check_timeouts E timeout s = (Ret ENOERR, s') \<and> cfg s' = cfg s \<and>
     now = v1 (kern E (trace s) (ProcCall Time)) \<and>
     process_head s' = map (expired timeout now) (process_head s) \<and>
     calls is_kill s' = calls is_kill s @
       map (\<lambda>c. ProcCall (Kill (pid c) SIGKILL)) (filter (overdue timeout now) (process_head s))"
proof -
  let ?t = "ProcCall Time"
  let ?now = "v1 (kern E (trace s) ?t)"
  obtain s1 where "for_each (expire E timeout ?now) (process_head s) (s\<lparr>trace := trace s @ [(?t, kern E (trace s) ?t)]\<rparr>) =
      (Ret (map (expired timeout ?now) (process_head s)), s1)" "cfg s1 = cfg s"
    "calls is_kill s1 = calls is_kill s @
       map (\<lambda>c. ProcCall (Kill (pid c) SIGKILL)) (filter (overdue timeout ?now) (process_head s))"
    using expire_all_run [of E timeout ?now "process_head s" "s\<lparr>trace := trace s @ [(?t, kern E (trace s) ?t)]\<rparr>"]
    by auto
  then show ?thesis by (simp add: check_timeouts_def bind_apply_Ret)
qed

lemma expired_names_pids: "names_pids (map (expired timeout now) ps) = names_pids ps"
  by (simp add: expired_def)

text \<open>Expiring tests: exactly the running tests that are older than the time limit are killed, each
  with one SIGKILL, and exactly these are marked as finished with the code for a time-out.\<close>

lemma check_timeouts_kills_overdue:
  "\<exists>s' now. check_timeouts E timeout s = (Ret ENOERR, s') \<and>
     now = v1 (kern E (trace s) (ProcCall Time)) \<and>
     process_head s' = map (expired timeout now) (process_head s) \<and>
     calls is_kill s' = calls is_kill s @
       map (\<lambda>c. ProcCall (Kill (pid c) SIGKILL)) (filter (overdue timeout now) (process_head s))"
  using check_timeouts_run [of E timeout s] by blast

lemma test_child_keeps [keeps_intro]: "log_frame g \<Longrightarrow> keeps g (test_child E tb version)"
  unfolding test_child_def redirect_def by (intro keeps_intro) (simp_all add: log_frame_def)

lemma add_process_run:
  "\<exists>r s'. add_process E nm p s = (Ret r, s') \<and> cfg s' = cfg s \<and>
     (r = ENOERR \<and> (\<exists>t. process_head s' = \<lparr>proc_name = take (PATH_MAX - 1) nm, pid = p, ptime = t,
         ecode = 0, is_done = False\<rparr> # process_head s) \<or> r = ENOMEM \<and> process_head s' = [])"
  by (auto simp: add_process_def free_process_def logs_run)

lemma start_test_table:
  assumes "table_ok (process_head s)" and "find_name tb (process_head s) = None" and "length tb < PATH_MAX"
    and "\<forall>tr. rv (kern E tr (ProcCall Fork)) \<notin> pid ` set (process_head s)"
    and "start_test E tb version code s = (r, s')"
  shows "table_ok (process_head s')"
proof -
  let ?f = "ProcCall Fork"
  let ?s1 = "s\<lparr>trace := trace s @ [(?f, kern E (trace s) ?f)]\<rparr>"
  consider "rv (kern E (trace s) ?f) = 0" | "rv (kern E (trace s) ?f) < 0" | "rv (kern E (trace s) ?f) > 0"
    by linarith
  then show ?thesis
  proof cases
    case 1
    with assms(5) have "test_child E tb version ?s1 = (r, s')" by (simp add: start_test_def)
    from keepsD [OF test_child_keeps [OF log_frame_process_head] this] assms(1) show ?thesis by simp
  next
    case 2
    with assms(1,5) show ?thesis by (auto simp: start_test_def logs_run)
  next
    case 3
    let ?p = "rv (kern E (trace s) ?f)"
    obtain x s2 where 2: "add_process E tb ?p ?s1 = (Ret x, s2)"
      "(\<exists>t. process_head s2 = \<lparr>proc_name = take (PATH_MAX - 1) tb, pid = ?p, ptime = t, ecode = 0,
          is_done = False\<rparr> # process_head s) \<or> process_head s2 = []"
      using add_process_run [of E tb ?p ?s1] by auto
    have "process_head s' = process_head s2" using 3 assms(5) 2(1) by (simp add: start_test_def bind_apply_Ret)
    moreover have "?p \<notin> pid ` set (process_head s)" using assms(4) by blast
    moreover have "take (PATH_MAX - 1) tb = tb" using assms(3) by simp
    ultimately show ?thesis using 2(2) assms(1,2) by (auto simp: table_ok_def find_name_None)
  qed
qed

lemma check_processes_cases:
  assumes "table_ok (process_head s)"
  obtains (running) c where "find_name nm (process_head s) = Some c" "\<not> is_done c"
      "check_processes nm s = (Ret (TEST_RUNNING, None), s)"
    | (fin) c s' where "find_name nm (process_head s) = Some c" "is_done c"
      "check_processes nm s = (Ret (TEST_COMPLETED, Some (ecode c)), s')" "cfg s' = cfg s" "trace s' = trace s"
      "process_head s' = unlink_pid (pid c) (process_head s)" "find_name nm (process_head s') = None"
    | (blank) "find_name nm (process_head s) = None" "check_processes nm s = (Ret (TEST_BLANK, None), s)"
proof (cases "find_name nm (process_head s)")
  case None
  then show ?thesis by (intro blank) (simp_all add: check_processes_def)
next
  case (Some c)
  show ?thesis
  proof (cases "is_done c")
    case True
    let ?s' = "process_head_update (unlink_pid (pid c)) s"
    from Some True unlink_name [OF assms Some] show ?thesis
      by (intro fin [of c ?s']) (simp_all add: check_processes_def remove_process_def)
  next
    case False
    with Some show ?thesis by (intro running [of c]) (simp_all add: check_processes_def)
  qed
qed

lemma check_bin_start:
  assumes "table_ok (process_head s)" and "length tb < PATH_MAX"
    and "\<forall>tr. rv (kern E tr (ProcCall Fork)) \<notin> pid ` set (process_head s)"
    and "bind (check_processes tb) (\<lambda>(status, code). if status = TEST_RUNNING then ret EDONTKNOW
          else start_test E tb version (case code of None \<Rightarrow> EDONTKNOW | Some c \<Rightarrow> c)) s = (r, s')"
  shows "table_ok (process_head s')"
  using assms(1)
proof (cases rule: check_processes_cases [of s tb])
  case (running c)
  with assms(1,4) show ?thesis by (simp add: bind_apply_Ret)
next
  case (fin c s1)
  have "set (process_head s1) \<subseteq> set (process_head s)"
    using unlink_pid_set [of "process_head s" "pid c"] assms(1) fin(6) by (auto simp: table_ok_def)
  then have "\<forall>tr. rv (kern E tr (ProcCall Fork)) \<notin> pid ` set (process_head s1)" using assms(3) by blast
  moreover have "table_ok (process_head s1)" using unlink_pid_table [OF assms(1)] fin(6) by simp
  moreover have "start_test E tb version (ecode c) s1 = (r, s')" using assms(4) fin(3) by (simp add: bind_apply_Ret)
  ultimately show ?thesis using start_test_table fin(7) assms(2) by blast
next
  case blank
  then have "start_test E tb version EDONTKNOW s = (r, s')" using assms(4) by (simp add: bind_apply_Ret)
  with start_test_table blank(1) assms(1-3) show ?thesis by blast
qed

lemma pids_names_pids: "names_pids ps = names_pids qs \<Longrightarrow> pid ` set ps = pid ` set qs"
proof -
  have "pid ` set ps = snd ` set (names_pids ps)" for ps by (auto simp: image_image)
  then show "names_pids ps = names_pids qs \<Longrightarrow> pid ` set ps = pid ` set qs" by metis
qed

text \<open>The state in which a round of \<open>check_bin\<close> looks up its binary.\<close>

definition collected :: "env \<Rightarrow> int \<Rightarrow> ('s test_state_scheme, unit) proc" where
  "collected E timeout =
     andthen (gather_children E) (whenp (timeout > 0) (bind (check_timeouts E timeout) (\<lambda>_. ret ())))"

lemma check_bin_collected:
  "check_bin E (Some tb) timeout version = andthen (collected E timeout)
     (bind (check_processes tb) (\<lambda>(status, code). if status = TEST_RUNNING then ret EDONTKNOW
          else start_test E tb version (case code of None \<Rightarrow> EDONTKNOW | Some c \<Rightarrow> c)))"
  by (simp add: check_bin_def collected_def andthen_assoc)

lemma collected_part: "collected E timeout s = (r, s') \<Longrightarrow> table_part s' = table_part s"
proof -
  assume run: "collected E timeout s = (r, s')"
  obtain g s1 where g: "gather_children E s = (g, s1)" by fastforce
  then have 1: "table_part s1 = table_part s" by (auto simp: gather_children_def dest: gather_loop_part)
  obtain now s2 where 2: "check_timeouts E timeout s1 = (Ret ENOERR, s2)" "cfg s2 = cfg s1"
    "process_head s2 = map (expired timeout now) (process_head s1)"
    using check_timeouts_run [of E timeout s1] by auto
  show "table_part s' = table_part s"
  proof (cases g)
    case (Ret x)
    with run g 1 2 expired_names_pids [of timeout now "process_head s1"] show ?thesis
      by (cases "timeout > 0") (auto simp: collected_def andthen_apply_Ret bind_apply_Ret)
  qed (use run g 1 in \<open>auto simp: collected_def andthen_def bind_def\<close>)
qed


lemma start_test_parent:
  assumes "\<forall>tr. rv (kern E tr (ProcCall Fork)) > 0" and "memory_ok E"
  shows "\<exists>s' c. start_test E tb version code s = (Ret code, s') \<and> process_head s' = c # process_head s \<and>
     proc_name c = take (PATH_MAX - 1) tb \<and> \<not> is_done c"
proof -
  have "rv (kern E (trace s) (ProcCall Fork)) \<noteq> 0" "\<not> rv (kern E (trace s) (ProcCall Fork)) < 0"
    using assms(1) [THEN spec, of "trace s"] by simp_all
  with assms(2) show ?thesis
    by (simp add: start_test_def add_process_def memory_ok_def proc_assoc ENOERR_def)
qed


section \<open>Collecting children ends\<close>

text \<open>The number of children the kernel has reported so far, and an environment that reports at most
  \<open>N\<close> of them.\<close>

definition reaped :: "event list \<Rightarrow> nat" where
  "reaped tr = length (filter (\<lambda>e. fst e = ProcCall (Waitpid (- 1) True) \<and> 0 < rv (snd e)) tr)"

definition children_bounded :: "env \<Rightarrow> nat \<Rightarrow> bool" where
  "children_bounded E N \<longleftrightarrow> (\<forall>tr. 0 < rv (kern E tr (ProcCall (Waitpid (- 1) True))) \<longrightarrow> reaped tr < N)"

lemma update_process_emits: "emits is_log_call (update_process E p result)"
  unfolding update_process_def by (intro emits_intro) simp_all

lemma gather_loop_ends:
  assumes "children_bounded E N" and "N < reaped (trace s) + n" and "0 < n"
  shows "\<exists>s'. gather_loop n E s = (Ret (), s')"
  using assms(2,3)
proof (induction n arbitrary: s)
  case (Suc n)
  let ?w = "ProcCall (Waitpid (- 1) True)"
  let ?s1 = "s\<lparr>trace := trace s @ [(?w, kern E (trace s) ?w)]\<rparr>"
  show ?case
  proof (cases "rv (kern E (trace s) ?w) > 0")
    case True
    then have "reaped (trace s) < N" using assms(1) by (simp add: children_bounded_def)
    obtain s2 where 2: "update_process E (rv (kern E (trace s) ?w)) (v1 (kern E (trace s) ?w)) ?s1 = (Ret (), s2)"
      using update_process_run by blast
    then obtain es where "trace s2 = trace ?s1 @ es" "\<forall>e \<in> set es. is_log_call (fst e)"
      using emitsE [OF update_process_emits] by blast
    then have "reaped (trace s2) = Suc (reaped (trace s))"
      using True by (auto simp: reaped_def filter_empty_conv)
    with Suc.prems \<open>reaped (trace s) < N\<close> Suc.IH [of s2] True 2 show ?thesis
      by (simp add: andthen_apply_Ret)
  next
    case False
    then show ?thesis by (simp add: whenp_def logs_run)
  qed
qed simp

text \<open>Collecting children ends: when the kernel reports at most \<open>N\<close> children, a loop bound above
  \<open>N\<close> is enough for \<open>gather_children\<close> to return.\<close>

lemma gather_children_returns:
  assumes "children_bounded E N" and "N < loop_bound E"
  shows "\<exists>s'. gather_children E s = (Ret (), s')"
  using gather_loop_ends [OF assms(1), of s "loop_bound E"] assms(2) by (simp add: gather_children_def)

end
