(* ===== verification/Witnesses.thy ===== *)
theory Witnesses
  imports TestBinary
begin

text \<open>
  Concrete machines on which the hypotheses of the properties hold: a state with the static
  initialisers of the sources, a reply that is all zeros, and for each property a kernel that
  answers the calls the property speaks about. Every theorem here applies a property to one of
  these machines.
\<close>

section \<open>Machines\<close>

definition nil_reply :: reply where
  "nil_reply = \<lparr>rv = 0, err = 0, dat = [], v1 = 0, v2 = 0, names = [], nums = []\<rparr>"

definition machine :: "(syscall \<Rightarrow> reply) \<Rightarrow> env" where
  "machine k = \<lparr>kern = \<lambda>_. k, fmt = \<lambda>f _. f, strerr = \<lambda>_. [], exec_pagesize = 4096,
     uninit = \<lambda>n. replicate n NUL, utc_mktime = \<lambda>t. t, atof = \<lambda>_. (36000, 0), loop_bound = 10\<rparr>"

definition calm :: env where "calm = machine (\<lambda>_. nil_reply)"

definition start :: test_state where
  "start = \<lparr>trace = [], using_syslog = False, using_terminal = False, progname = [], err_count = 0,
     err_level = LOG_DEBUG, err_buf = [], cfg = initial_config, daemon_pid = 0, saved_fname = None,
     mlocked = False, watchdog_fd = - 1, timeout_used = TIMER_MARGIN, Refresh_using_ioctl = False,
     hb = 0, lastts = 0, nrts = 0, timestamps = None, load_fd = - 1, mem_fd = - 1, temp_fd = - 1,
     templevel1 = 0, templevel2 = 0, templevel3 = 0, process_head = []\<rparr>"

lemma kern_machine [simp]: "kern (machine k) tr c = k c"
  and pagesize_machine [simp]: "exec_pagesize (machine k) = 4096"
  and mktime_machine [simp]: "utc_mktime (machine k) = (\<lambda>t. t)"
  and atof_machine [simp]: "atof (machine k) b = (36000, 0)"
  and bound_machine [simp]: "loop_bound (machine k) = 10"
  by (simp_all add: machine_def)

lemma calm_reply [simp]: "kern calm tr c = nil_reply"
  by (simp add: calm_def)

lemma nil_reply_fields [simp]:
  "rv nil_reply = 0" "err nil_reply = 0" "dat nil_reply = []" "v1 nil_reply = 0" "v2 nil_reply = 0"
  "names nil_reply = []"
  by (simp_all add: nil_reply_def)

section \<open>Logging and configuration\<close>

text \<open>A kernel that opens every file and finds the given text in it.\<close>

definition one_file :: "string \<Rightarrow> env" where
  "one_file txt = machine (\<lambda>c. case c of FileCall (Fopen f m) \<Rightarrow> nil_reply\<lparr>rv := 1, dat := txt\<rparr> | _ \<Rightarrow> nil_reply)"

definition load_config :: string where
  "load_config = ''max-load-1 = 24'' @ [CHR 0x0A]"

lemma read_config_example:
  "case read_config (one_file load_config) ''watchdog.conf'' start of
     (Ret u, s') \<Rightarrow> maxload1 (cfg s') = 24 \<and> maxload5 (cfg s') = 18 \<and> maxload15 (cfg s') = 12 | _ \<Rightarrow> False"
  by code_simp

theorem read_config_establishes_witness:
  "\<exists>s'. read_config (one_file load_config) ''watchdog.conf'' start = (Ret (), s') \<and> 0 < tint (cfg s') \<and>
     maxload5 (cfg s') \<noteq> 0 \<and> maxload15 (cfg s') \<noteq> 0"
proof -
  obtain s' where run: "read_config (one_file load_config) ''watchdog.conf'' start = (Ret (), s')"
    and load: "maxload1 (cfg s') = 24"
    using read_config_example by (auto split: prod.splits outcome.splits)
  from read_config_establishes [OF run] load run show ?thesis
    by (simp add: MINLOAD_def INT_MAX_def)
qed

section \<open>The device and the heartbeat\<close>


text \<open>A heartbeat file with one record of three, on a clock that stands at 1000.\<close>

definition hb_file :: env where
  "hb_file = machine (\<lambda>c. case c of ProcCall Time \<Rightarrow> nil_reply\<lparr>v1 := 1000\<rparr>
     | FileCall (Fopen f m) \<Rightarrow> nil_reply\<lparr>rv := 1, dat := ''       1000'' @ [CHR 0x0A]\<rparr>
     | ProcCall (Malloc n) \<Rightarrow> nil_reply\<lparr>rv := 1\<rparr> | _ \<Rightarrow> nil_reply)"

definition hb_open :: test_state where
  "hb_open = start\<lparr>cfg := initial_config\<lparr>heartbeat := Some ''hb'', hbstamps := 3\<rparr>, hb := 1,
     timestamps := Some (replicate 36 NUL)\<rparr>"

lemma hb_open_inv: "hb_inv hb_open"
  by (simp add: hb_inv_def hb_open_def start_def initial_config_def INT_MAX_def ring_of_def
      TS_SIZE_def)

lemma show_int_1000: "show_int 1000 = ''1000''"
  by (simp add: show_int_def show_nat.simps digit_char_def char_of_def bit_iff_odd)

lemma pad_1000: "pad_line 11 ''1000'' = ''       1000'' @ [CHR 0x0A]"
  by code_simp

lemma hb_file_stamp: "stamp_text hb_file 1000 = Some (''       1000'' @ [CHR 0x0A])"
  using pad_1000 by (simp add: stamp_text_def hb_file_def show_int_1000 TS_SIZE_def)

theorem write_heartbeat_file_witness:
  "\<exists>s'. write_heartbeat hb_file hb_open = (Ret ENOERR, s') \<and> hb_inv s' \<and>
     stamp_list s' = keep_last (hb_cap hb_open) (stamp_list hb_open @ [''       1000'' @ [CHR 0x0A]]) \<and>
     file_output s' = file_output hb_open @ concat (stamp_list s')"
proof (rule write_heartbeat_file)
  show "hb hb_open \<noteq> 0" by (simp add: hb_open_def)
  show "hb_inv hb_open" by (rule hb_open_inv)
  have now: "v1 (kern hb_file (trace hb_open) (ProcCall Time)) = 1000" by (simp add: hb_file_def)
  then show "v1 (kern hb_file (trace hb_open) (ProcCall Time)) \<noteq> - 1" by simp
  show "stamp_text hb_file (v1 (kern hb_file (trace hb_open) (ProcCall Time))) = Some (''       1000'' @ [CHR 0x0A])"
    using now hb_file_stamp by simp
qed

theorem safe_sleep_paced_witness:
  "\<exists>s'. wd_safe_sleep calm 2 (start\<lparr>watchdog_fd := 3\<rparr>) = (Ret (), s') \<and> hb_ok calm s' \<and>
     dev_part s' = dev_part (start\<lparr>watchdog_fd := 3\<rparr>) \<and>
     calls is_pace_call s' = calls is_pace_call (start\<lparr>watchdog_fd := 3\<rparr>) @
       refresh_calls (dev_part (start\<lparr>watchdog_fd := 3\<rparr>)) @
       concat (replicate (nat 2) (ProcCall (Sleep 1) # refresh_calls (dev_part (start\<lparr>watchdog_fd := 3\<rparr>))))"
  by (rule safe_sleep_paced) (simp add: hb_ok_def start_def)

lemma hb_file_machine:
  "file_has hb_file ''hb'' (concat [''       1000'' @ [CHR 0x0A]])" "memory_ok hb_file"
  by (simp_all add: file_has_def hb_file_def memory_ok_def)

section \<open>Health checks\<close>

definition load_file :: env where
  "load_file = machine (\<lambda>c. case c of
     FileCall (Read fd n) \<Rightarrow> nil_reply\<lparr>rv := int (length (load_text 3 ''10'' 2 ''20'' 4 ''30'')),
       dat := load_text 3 ''10'' 2 ''20'' 4 ''30''\<rparr> | _ \<Rightarrow> nil_reply)"

lemma load_text_example: "load_text 3 ''10'' 2 ''20'' 4 ''30'' = ''3.10 2.20 4.30''"
  by code_simp

lemma load_file_reads: "reads_as load_file fd 39 (load_text 3 ''10'' 2 ''20'' 4 ''30'')"
  by (simp add: reads_as_def load_file_def load_text_example)

definition eth :: "string \<Rightarrow> int \<Rightarrow> entry" where
  "eth nm b = (new_entry nm 0)\<lparr>if_bytes := b\<rparr>"

definition netdev_text :: string where
  "netdev_text = '' eth10: 70 0'' @ [CHR 0x0A] @ '' eth1: 50 0'' @ [CHR 0x0A]"

definition netdev_file :: env where
  "netdev_file = machine (\<lambda>c. case c of
     FileCall (Fopen f m) \<Rightarrow> nil_reply\<lparr>rv := 1, dat := netdev_text\<rparr> | _ \<Rightarrow> nil_reply)"

lemma netdev_lines:
  "stream_lines NETDEV_LINE_LEN (nil_reply\<lparr>rv := 1, dat := netdev_text\<rparr>) =
     ['' eth10: 70 0'' @ [CHR 0x0A], '' eth1: 50 0'' @ [CHR 0x0A]]"
  by code_simp

lemma netdev_file_is:
  "netdev_is netdev_file ['' eth10: 70 0'' @ [CHR 0x0A], '' eth1: 50 0'' @ [CHR 0x0A]]"
  using netdev_lines by (simp add: netdev_is_def netdev_file_def)

lemma netdev_counters:
  "counters (e_name (eth ''eth10'' b)) ['' eth10: 70 0'' @ [CHR 0x0A], '' eth1: 50 0'' @ [CHR 0x0A]] = [70]"
  "counters (e_name (eth ''eth1'' b)) ['' eth10: 70 0'' @ [CHR 0x0A], '' eth1: 50 0'' @ [CHR 0x0A]] = [0, 50]"
  by code_simp+


theorem millidegrees_exact_witness: "whole_degrees (milli_to_temp (int 36000, 0)) = int (36000 div 1000)"
  by (rule millidegrees_exact) simp

definition sensor_file :: env where
  "sensor_file = machine (\<lambda>c. case c of
     FileCall (Fopen f m) \<Rightarrow> nil_reply\<lparr>rv := 1, dat := ''36000'' @ [CHR 0x0A]\<rparr> | _ \<Rightarrow> nil_reply)"

lemma sensor_lines:
  "stream_lines 127 (nil_reply\<lparr>rv := 1, dat := ''36000'' @ [CHR 0x0A]\<rparr>) = [''36000'' @ [CHR 0x0A]]"
  by code_simp

lemma sensor_file_reads: "sensor_reads sensor_file nm 36000"
  using sensor_lines by (simp add: sensor_reads_def sensor_file_def)

definition warm :: test_state where
  "warm = start\<lparr>temp_fd := 0, templevel1 := 32, templevel2 := 34, templevel3 := 35,
     cfg := initial_config\<lparr>maxtemp := 36\<rparr>\<rparr>"

section \<open>The daemon process\<close>

definition pid_taken :: env where
  "pid_taken = machine (\<lambda>c. case c of FileCall (Fopen f m) \<Rightarrow> nil_reply\<lparr>rv := 1, dat := ''42''\<rparr>
     | ProcCall Getpid \<Rightarrow> nil_reply\<lparr>rv := 7\<rparr> | _ \<Rightarrow> nil_reply)"

lemma scan_42: "scan_int ''42'' = Some 42"
  by code_simp

definition pid_free :: env where
  "pid_free = machine (\<lambda>c. case c of FileCall (Fopen f m) \<Rightarrow> nil_reply\<lparr>rv := (if m = ''w'' then 1 else 0)\<rparr>
     | ProcCall Getpid \<Rightarrow> nil_reply\<lparr>rv := 7\<rparr> | ProcCall (Malloc n) \<Rightarrow> nil_reply\<lparr>rv := 1\<rparr> | _ \<Rightarrow> nil_reply)"

theorem wd_daemon_grandchild_witness:
  "fork_replies (snd (wd_daemon calm True True start)) = fork_replies start @ [0, 0]"
proof -
  have "wd_daemon calm True True start = (Ret 0, snd (wd_daemon calm True True start))"
    by (simp add: wd_daemon_def double_fork_def new_session_def reopen_console_def)
  then show ?thesis by (rule wd_daemon_grandchild)
qed

section \<open>Pings\<close>

text \<open>A target that answers the first echo request of process 7.\<close>

definition echo_reply :: string where
  "echo_reply = byte 69 # replicate 24 NUL @ [byte 7, NUL, byte 1]"

definition answering :: env where
  "answering = machine (\<lambda>c. case c of NetCall (Select n a b) \<Rightarrow> nil_reply\<lparr>rv := 1\<rparr>
     | NetCall (Recvfrom fd n) \<Rightarrow> nil_reply\<lparr>rv := 28, dat := echo_reply, v1 := 99\<rparr> | _ \<Rightarrow> nil_reply)"

lemma answering_echo: "is_our_echo (received (replicate PKBUF_SIZE NUL) (nil_reply\<lparr>rv := 28, dat := echo_reply, v1 := 99\<rparr>)) 7 1"
  by code_simp

lemma answering_run:
  "\<exists>pk' s'. check_net answering (Some ''t'') 3 99 (replicate PKBUF_SIZE NUL) 2 1 (start\<lparr>daemon_pid := 7\<rparr>) =
     (Ret (ENOERR, pk'), s')"
  using answering_echo
  by (simp add: check_net_def ping_round_def after_send_def gettimeofday_def answering_def ping_timeout_def
      numeral_eq_Suc Let_def log_ping_time_def start_def initial_config_def bind_assoc proc_defs)


text \<open>A clock that advances one microsecond with every reading.\<close>

definition ticking :: env where
  "ticking = calm\<lparr>loop_bound := 2000000, kern := \<lambda>tr c. if c = NetCall Gettimeofday
     then nil_reply\<lparr>v1 := int (readings tr) div USEC, v2 := int (readings tr) mod USEC\<rparr> else nil_reply\<rparr>"

lemma ticking_clock: "clock_runs ticking"
  by (auto simp: clock_runs_def clock_def ticking_def usec_of_def USEC_def readings_def)

theorem check_net_returns_witness:
  "\<exists>r s'. check_net ticking (Some ''t'') 3 99 [] 1 1 start = (Ret r, s')"
  by (rule check_net_returns [OF ticking_clock])
    (simp_all add: ping_budget_def ping_timeout_def usec_of_def USEC_def ticking_def signed_modulo_int_def)

section \<open>Test binaries\<close>

definition child_starts :: env where
  "child_starts = machine (\<lambda>c. case c of ProcCall Fork \<Rightarrow> nil_reply\<lparr>rv := 50\<rparr>
     | ProcCall (Malloc n) \<Rightarrow> nil_reply\<lparr>rv := 1\<rparr> | _ \<Rightarrow> nil_reply)"

definition tested :: "bool \<Rightarrow> test_state" where
  "tested d = start\<lparr>process_head := [\<lparr>proc_name = ''/t'', pid = 40, ptime = 0, ecode = 3, is_done = d\<rparr>]\<rparr>"


lemma collected_tested:
  "\<exists>s'. collected child_starts 60 (tested d) = (Ret (), s') \<and> process_head s' = process_head (tested d)"
  by (simp add: collected_def gather_children_def child_starts_def eval_nat_numeral check_timeouts_def
      tested_def expire_def int32_def proc_defs)


end
