(* ===== verification/Mntent.thy ===== *)
theory Mntent
  imports TestBinary
begin

text \<open>
  \<^verbatim>\<open>src/mntent.c\<close>, with the support functions of \<^verbatim>\<open>src/sundries.c\<close> that the shutdown uses: the
  tables of mounted file systems and their line format.

  An open table is a record with the lines that are still to be read; the \<open>goto again\<close> loop of
  \<open>my_getmntent\<close> is a recursion over these lines. Null pointers in \<open>struct mntent\<close> are \<open>None\<close>.
\<close>

section \<open>State\<close>

record mntent =
  mnt_fsname :: "string option"
  mnt_dir :: string
  mnt_type :: "string option"
  mnt_opts :: string
  mnt_freq :: int
  mnt_passno :: int

record mntFILE =
  mntent_fp :: int
  mntent_file :: string
  mntent_lines :: "string list"        \<comment> \<open>what \<open>fgets\<close> will still return\<close>
  mntent_lineno :: int
  mntent_errs :: bool
  mntent_softerrs :: nat
  mntent_ferror :: int                  \<comment> \<open>the read error at the end of the file, 0 for none\<close>
  mntent_eof :: bool                    \<comment> \<open>\<open>fgets\<close> has returned the null pointer\<close>

record mntentchn =
  mc_fsname :: string
  mc_dir :: string
  mc_type :: string
  mc_opts :: string

record mnt_state = test_state +
  mount_mount_quiet :: int
  mount_verbose :: int
  have_mtab_info :: bool
  var_mtab_does_not_exist :: bool
  var_mtab_is_a_symlink :: bool
  mtab_writable_ret :: int
  got_mtab :: bool
  mounttable :: "mntentchn list option" \<comment> \<open>\<open>None\<close>: the pointers of the list head are null\<close>
  got_fstab :: bool
  fstab :: "mntentchn list option"
  lock :: int
  old_lockfile :: bool
  umount_nomtab :: int
  remount :: int
  umount_verbose :: int

definition ERR_MAX :: nat where "ERR_MAX = 5"

section \<open>Messages and lists (sundries.c)\<close>

definition perror :: "env \<Rightarrow> string \<Rightarrow> int \<Rightarrow> ('s os_state_scheme, unit) proc" where
  "perror E what e = do_sys E (LogCall (Stderr [] (fmt E ''%s: %s'' [AStr what, AInt e])))"

text \<open>A null pointer stands for the empty string.\<close>

definition str_or_empty :: "string option \<Rightarrow> string" where
  "str_or_empty s = (case s of None \<Rightarrow> [] | Some t \<Rightarrow> t)"

definition xstrconcat :: "env \<Rightarrow> string option list \<Rightarrow> ('s log_state_scheme, string) proc" where
  "xstrconcat E parts =
     (let res = concat (map str_or_empty parts) in
      bind (xmalloc E (int (length res) + 1)) (\<lambda>_. ret res))"

definition xstrconcat2 :: "env \<Rightarrow> string option \<Rightarrow> string option \<Rightarrow> ('s log_state_scheme, string) proc" where
  "xstrconcat2 E s t = xstrconcat E [s, t]"

definition xstrconcat3 ::
  "env \<Rightarrow> string option \<Rightarrow> string option \<Rightarrow> string option \<Rightarrow> ('s log_state_scheme, string) proc" where
  "xstrconcat3 E s t u = xstrconcat E [s, t, u]"

definition xstrconcat4 ::
  "env \<Rightarrow> string option \<Rightarrow> string option \<Rightarrow> string option \<Rightarrow> string option \<Rightarrow> ('s log_state_scheme, string) proc" where
  "xstrconcat4 E s t u v = xstrconcat E [s, t, u, v]"

definition error_msg :: "env \<Rightarrow> string \<Rightarrow> farg list \<Rightarrow> ('s mnt_state_scheme, unit) proc" where
  "error_msg E f args =
     bind (gets mount_mount_quiet) (\<lambda>q.
     if q \<noteq> 0 then ret ()
     else
       bind (xstrconcat2 E (Some f) (Some [CHR 0x0A])) (\<lambda>fmt2.
       do_sys E (LogCall (Stderr [] (fmt E fmt2 args)))))"

text \<open>The loop of \<open>matching_type\<close>: a match, a negative match, and whether the last type of the list
  begins with \<open>no\<close>.\<close>

fun match_types :: "string \<Rightarrow> string list \<Rightarrow> bool \<times> bool \<times> bool \<Rightarrow> bool \<times> bool \<times> bool" where
  "match_types type [] r = r"
| "match_types type (t # ts) (foundyes, foundno, no) =
     match_types type ts
       (foundyes \<or> type = t,
        foundno \<or> (type \<noteq> t \<and> ''no'' @ type = t),
        if ts = [] then take 2 t = ''no'' else no)"

definition matching_type :: "string \<Rightarrow> string list \<Rightarrow> bool" where
  "matching_type type types =
     (if type = ''swap'' then False
      else if types = [] then True
      else (case match_types type types (False, False, False) of
              (foundyes, foundno, no) \<Rightarrow> if foundno then False else no \<noteq> foundyes))"

section \<open>Fields\<close>

definition need_escaping :: "char \<Rightarrow> bool" where
  "need_escaping c \<longleftrightarrow> c = CHR '' '' \<or> c = CHR 0x09 \<or> c = CHR 0x0A \<or> c = CHR 0x5C"

definition octal :: "int \<Rightarrow> char" where
  "octal d = byte (48 + d)"

definition escape :: "char \<Rightarrow> string" where
  "escape c = [CHR 0x5C, octal ((of_char c div 64) mod 4), octal ((of_char c div 8) mod 8), octal (of_char c mod 8)]"

fun mangle_chars :: "string \<Rightarrow> string" where
  "mangle_chars [] = []"
| "mangle_chars (c # cs) = (if need_escaping c then escape c else [c]) @ mangle_chars cs"

text \<open>The copies are allocated first; \<open>mangled\<close> and \<open>unmangled\<close> are the strings they hold.\<close>

definition mangled :: "string option \<Rightarrow> string" where
  "mangled s = (case s of None \<Rightarrow> ''none'' | Some t \<Rightarrow> mangle_chars t)"

definition mangle :: "env \<Rightarrow> string option \<Rightarrow> ('s log_state_scheme, string) proc" where
  "mangle E s =
     (case s of
        None \<Rightarrow> bind (xstrdup E (Some ''none'')) (\<lambda>_. ret (mangled None))
      | Some t \<Rightarrow> bind (xmalloc E (4 * int (length t) + 1)) (\<lambda>_. ret (mangled (Some t))))"

definition is_space_or_tab :: "char \<Rightarrow> bool" where
  "is_space_or_tab c \<longleftrightarrow> c = CHR '' '' \<or> c = CHR 0x09"

definition skip_spaces :: "string \<Rightarrow> string" where
  "skip_spaces s = dropWhile is_space_or_tab s"

definition skip_nonspaces :: "string \<Rightarrow> string" where
  "skip_nonspaces s = dropWhile (\<lambda>c. \<not> is_space_or_tab c) s"

definition isoctal :: "char \<Rightarrow> bool" where
  "isoctal c \<longleftrightarrow> 48 \<le> (of_char c :: int) \<and> (of_char c :: int) \<le> 55"

definition octal_val :: "char \<Rightarrow> int" where
  "octal_val c = of_char c mod 8"

fun unmangle_chars :: "string \<Rightarrow> string" where
  "unmangle_chars (a # b # c # d # rest) =
     (if a = CHR 0x5C \<and> isoctal b \<and> isoctal c \<and> isoctal d
      then byte (64 * octal_val b + 8 * octal_val c + octal_val d) # unmangle_chars rest
      else a # unmangle_chars (b # c # d # rest))"
| "unmangle_chars s = s"

definition unmangled :: "string \<Rightarrow> string" where
  "unmangled s = unmangle_chars (takeWhile (\<lambda>c. \<not> is_space_or_tab c) s)"

definition unmangle :: "env \<Rightarrow> string \<Rightarrow> ('s log_state_scheme, string) proc" where
  "unmangle E s =
     bind (xmalloc E (int (length (takeWhile (\<lambda>c. \<not> is_space_or_tab c) s)) + 1)) (\<lambda>_.
     ret (unmangled s))"

section \<open>Entries\<close>

text \<open>The start of the next field.\<close>

definition next_field :: "string \<Rightarrow> string" where
  "next_field s = skip_spaces (skip_nonspaces s)"

text \<open>An optional number; nothing when another character follows it directly.\<close>

definition number_field :: "string \<Rightarrow> (int \<times> string) option" where
  "number_field s =
     (let (n, rest) = (if s \<noteq> [] \<and> isdigit (hd s) then (atoi s, dropWhile isdigit s) else (0, s)) in
      if rest \<noteq> [] \<and> \<not> is_space_or_tab (hd rest) then None else Some (n, rest))"

definition two_numbers :: "string \<Rightarrow> (int \<times> int) option" where
  "two_numbers s =
     (case number_field s of
        None \<Rightarrow> None
      | Some (freq, s1) \<Rightarrow>
          (case number_field (skip_spaces s1) of
             None \<Rightarrow> None
           | Some (passno, _) \<Rightarrow> Some (freq, passno)))"

definition parse_mntent :: "env \<Rightarrow> string \<Rightarrow> ('s log_state_scheme, mntent option) proc" where
  "parse_mntent E s1 =
     bind (unmangle E s1) (\<lambda>f1. let s2 = next_field s1 in
     bind (unmangle E s2) (\<lambda>f2. let s3 = next_field s2 in
     bind (unmangle E s3) (\<lambda>f3. let s4 = next_field s3 in
     bind (unmangle E s4) (\<lambda>f4. let s5 = next_field s4 in
     ret (map_option (\<lambda>(freq, passno).
            \<lparr>mnt_fsname = Some f1, mnt_dir = f2, mnt_type = Some f3, mnt_opts = f4,
             mnt_freq = freq, mnt_passno = passno\<rparr>) (two_numbers s5))))))"

text \<open>The line \<open>"%s %s %s %s %d %d\n"\<close>.\<close>

definition mnt_line :: "string \<Rightarrow> string \<Rightarrow> string \<Rightarrow> string \<Rightarrow> int \<Rightarrow> int \<Rightarrow> string" where
  "mnt_line m1 m2 m3 m4 freq passno =
     m1 @ '' '' @ m2 @ '' '' @ m3 @ '' '' @ m4 @ '' '' @ show_int freq @ '' '' @ show_int passno @ [CHR 0x0A]"

section \<open>Reading and writing a table\<close>

definition my_setmntent :: "env \<Rightarrow> string \<Rightarrow> string \<Rightarrow> ('s mnt_state_scheme, mntFILE \<times> int) proc" where
  "my_setmntent E file mode =
     bind (xmalloc E 40) (\<lambda>_.
     bind (fsys E (Fopen file mode)) (\<lambda>fp.
     bind (xstrdup E (Some file)) (\<lambda>_.
     ret (\<lparr>mntent_fp = rv fp, mntent_file = file,
           mntent_lines = (if mode = ''r'' then stream_lines 4096 fp else []),
           mntent_lineno = 0, mntent_errs = (rv fp = 0), mntent_softerrs = 0, mntent_ferror = v1 fp,
           mntent_eof = False\<rparr>, err fp))))"

definition my_endmntent :: "env \<Rightarrow> mntFILE \<Rightarrow> ('s mnt_state_scheme, unit) proc" where
  "my_endmntent E mfp = whenp (mntent_fp mfp \<noteq> 0) (do_sys E (FileCall (Fclose (mntent_fp mfp))))"

definition my_addmntent :: "env \<Rightarrow> mntFILE \<Rightarrow> mntent \<Rightarrow> ('s mnt_state_scheme, int) proc" where
  "my_addmntent E mfp mnt =
     bind (fsys E (Fseek_end (mntent_fp mfp))) (\<lambda>r.
     if rv r \<noteq> 0 then ret 1
     else
       bind (mangle E (mnt_fsname mnt)) (\<lambda>m1.
       bind (mangle E (Some (mnt_dir mnt))) (\<lambda>m2.
       bind (mangle E (mnt_type mnt)) (\<lambda>m3.
       bind (mangle E (Some (mnt_opts mnt))) (\<lambda>m4.
       bind (fsys E (Fprintf (mntent_fp mfp) (mnt_line m1 m2 m3 m4 (mnt_freq mnt) (mnt_passno mnt)))) (\<lambda>p.
       ret (if rv p < 0 then 1 else 0)))))))"

definition bad_line :: "env \<Rightarrow> mntFILE \<Rightarrow> ('s mnt_state_scheme, unit) proc" where
  "bad_line E mfp =
     do_sys E (LogCall (Stderr [] (fmt E ''[mntent]: line %d in %s is bad%s''
       [AInt (mntent_lineno mfp), AStr (mntent_file mfp),
        AStr (if mntent_errs mfp \<or> mntent_softerrs mfp \<ge> ERR_MAX then ''; rest of file ignored'' else [])])))"

text \<open>The loop over the lines: the test at the label \<open>again\<close>, the end of the file, a line without an
  end, blank lines and comments, and an entry.\<close>

fun getmntent_loop :: "env \<Rightarrow> mntFILE \<Rightarrow> string list \<Rightarrow> ('s mnt_state_scheme, mntent option \<times> mntFILE) proc" where
  "getmntent_loop E mfp [] =
     (if mntent_errs mfp \<or> mntent_softerrs mfp \<ge> ERR_MAX then ret (None, mfp\<lparr>mntent_lines := []\<rparr>)
      else ret (None, mfp\<lparr>mntent_lines := [], mntent_eof := True\<rparr>))"
| "getmntent_loop E mfp (l # ls) =
     (if mntent_errs mfp \<or> mntent_softerrs mfp \<ge> ERR_MAX then ret (None, mfp\<lparr>mntent_lines := l # ls\<rparr>)
      else if CHR 0x0A \<notin> set (cstr l) then
        (let mfp' = mfp\<lparr>mntent_errs := True, mntent_softerrs := mntent_softerrs mfp + 1\<rparr> in
         andthen (bad_line E mfp') (getmntent_loop E mfp' ls))
      else
        (let s = skip_spaces (takeWhile (\<lambda>c. c \<noteq> CHR 0x0A) (cstr l)) in
         if s = [] \<or> hd s = CHR ''#'' then getmntent_loop E mfp ls
         else
           bind (parse_mntent E s) (\<lambda>m.
           case m of
             Some e \<Rightarrow> ret (Some e, mfp\<lparr>mntent_lines := ls\<rparr>)
           | None \<Rightarrow>
               (let mfp' = mfp\<lparr>mntent_softerrs := mntent_softerrs mfp + 1\<rparr> in
                andthen (bad_line E mfp') (getmntent_loop E mfp' ls)))))"

declare getmntent_loop.simps [simp del]

definition my_getmntent :: "env \<Rightarrow> mntFILE \<Rightarrow> ('s mnt_state_scheme, mntent option \<times> mntFILE) proc" where
  "my_getmntent E mfp = getmntent_loop E mfp (mntent_lines mfp)"

section \<open>Fields survive\<close>

lemma unmangle_chars_plain: "c \<noteq> CHR 0x5C \<Longrightarrow> unmangle_chars (c # s) = c # unmangle_chars s"
  by (cases "c # s" rule: unmangle_chars.cases) simp_all

lemma escape_values:
  "escape (CHR '' '') = CHR 0x5C # ''040''" "escape (CHR 0x09) = CHR 0x5C # ''011''"
  "escape (CHR 0x0A) = CHR 0x5C # ''012''" "escape (CHR 0x5C) = CHR 0x5C # ''134''"
  by code_simp+

lemma unescape_values:
  "unmangle_chars (CHR 0x5C # ''040'' @ s) = CHR '' '' # unmangle_chars s"
  "unmangle_chars (CHR 0x5C # ''011'' @ s) = CHR 0x09 # unmangle_chars s"
  "unmangle_chars (CHR 0x5C # ''012'' @ s) = CHR 0x0A # unmangle_chars s"
  "unmangle_chars (CHR 0x5C # ''134'' @ s) = CHR 0x5C # unmangle_chars s"
proof -
  have o: "isoctal (CHR ''0'')" "isoctal (CHR ''1'')" "isoctal (CHR ''2'')" "isoctal (CHR ''3'')" "isoctal (CHR ''4'')"
    by code_simp+
  have "byte (64 * octal_val (CHR ''0'') + 8 * octal_val (CHR ''4'') + octal_val (CHR ''0'')) = CHR '' ''"
    "byte (64 * octal_val (CHR ''0'') + 8 * octal_val (CHR ''1'') + octal_val (CHR ''1'')) = CHR 0x09"
    "byte (64 * octal_val (CHR ''0'') + 8 * octal_val (CHR ''1'') + octal_val (CHR ''2'')) = CHR 0x0A"
    "byte (64 * octal_val (CHR ''1'') + 8 * octal_val (CHR ''3'') + octal_val (CHR ''4'')) = CHR 0x5C"
    by code_simp+
  with o show "unmangle_chars (CHR 0x5C # ''040'' @ s) = CHR '' '' # unmangle_chars s"
    "unmangle_chars (CHR 0x5C # ''011'' @ s) = CHR 0x09 # unmangle_chars s"
    "unmangle_chars (CHR 0x5C # ''012'' @ s) = CHR 0x0A # unmangle_chars s"
    "unmangle_chars (CHR 0x5C # ''134'' @ s) = CHR 0x5C # unmangle_chars s" by simp_all
qed

lemma need_escapingE:
  assumes "need_escaping c"
  obtains "c = CHR '' ''" | "c = CHR 0x09" | "c = CHR 0x0A" | "c = CHR 0x5C"
  using assms unfolding need_escaping_def by blast

lemma unmangle_chars_escape: "need_escaping c \<Longrightarrow> unmangle_chars (escape c @ s) = c # unmangle_chars s"
  by (elim need_escapingE) (simp_all only: escape_values append.simps unescape_values [unfolded append.simps])

lemma unmangle_mangle_chars: "unmangle_chars (mangle_chars s) = s"
proof (induction s)
  case (Cons c cs)
  then show ?case
    by (cases "need_escaping c") (simp_all add: unmangle_chars_escape unmangle_chars_plain need_escaping_def)
qed simp

text \<open>Characters that never occur in a written field.\<close>

definition blank_char :: "char \<Rightarrow> bool" where
  "blank_char d \<longleftrightarrow> d = CHR '' '' \<or> d = CHR 0x09 \<or> d = CHR 0x0A"

lemma escape_plain: "need_escaping c \<Longrightarrow> list_all (\<lambda>d. \<not> blank_char d \<and> d \<noteq> NUL) (escape c)"
  by (elim need_escapingE) (simp_all add: escape_values blank_char_def)

lemma mangle_chars_plain: "list_all (\<lambda>d. \<not> blank_char d) (mangle_chars s)"
proof (induction s)
  case (Cons c cs)
  show ?case
  proof (cases "need_escaping c")
    case True
    then have "list_all (\<lambda>d. \<not> blank_char d) (escape c)" using escape_plain by (simp add: list_all_iff)
    with Cons True show ?thesis by simp
  next
    case False
    then have "\<not> blank_char c" by (simp add: need_escaping_def blank_char_def)
    with Cons False show ?thesis by simp
  qed
qed simp

lemma mangle_chars_no_nul: "NUL \<notin> set s \<Longrightarrow> NUL \<notin> set (mangle_chars s)"
proof (induction s)
  case (Cons c cs)
  show ?case
  proof (cases "need_escaping c")
    case True
    then have "NUL \<notin> set (escape c)" using escape_plain by (auto simp: list_all_iff)
    with Cons True show ?thesis by simp
  next
    case False
    with Cons show ?thesis by simp
  qed
qed simp

lemma mangle_chars_Nil: "mangle_chars s = [] \<longleftrightarrow> s = []"
  by (cases s) (simp_all add: escape_def)

text \<open>The strings a field is written as.\<close>

definition plain_field :: "string \<Rightarrow> bool" where
  "plain_field m \<longleftrightarrow> m \<noteq> [] \<and> list_all (\<lambda>d. \<not> blank_char d \<and> d \<noteq> NUL) m"

lemma plain_field_mangle: "s \<noteq> [] \<Longrightarrow> NUL \<notin> set s \<Longrightarrow> plain_field (mangle_chars s)"
  using mangle_chars_plain [of s] mangle_chars_no_nul [of s]
  by (auto simp: plain_field_def mangle_chars_Nil list_all_iff)

lemma plain_field_takeWhile:
  "plain_field m \<Longrightarrow> takeWhile (\<lambda>c. \<not> is_space_or_tab c) (m @ CHR '' '' # rest) = m"
  by (subst takeWhile_append2) (auto simp: plain_field_def is_space_or_tab_def blank_char_def list_all_iff)

lemma plain_field_dropWhile:
  "plain_field m \<Longrightarrow> dropWhile (\<lambda>c. \<not> is_space_or_tab c) (m @ CHR '' '' # rest) = CHR '' '' # rest"
  by (subst dropWhile_append2) (auto simp: plain_field_def is_space_or_tab_def blank_char_def list_all_iff)

lemma skip_spaces_plain: "plain_field m \<Longrightarrow> skip_spaces (m @ rest) = m @ rest"
  by (cases m) (auto simp: plain_field_def skip_spaces_def is_space_or_tab_def blank_char_def)

lemma unmangled_field: "plain_field (mangle_chars s) \<Longrightarrow> unmangled (mangle_chars s @ CHR '' '' # rest) = s"
  by (simp add: unmangled_def plain_field_takeWhile unmangle_mangle_chars)

lemma next_field_plain:
  assumes "plain_field m" and "plain_field m'"
  shows "next_field (m @ CHR '' '' # m' @ rest) = m' @ rest"
  using skip_spaces_plain [OF assms(2), of rest] plain_field_dropWhile [OF assms(1), of "m' @ rest"]
  by (simp add: next_field_def skip_nonspaces_def) (simp add: skip_spaces_def is_space_or_tab_def)

lemma plain_field_show_int: "plain_field (show_int i)"
  using plain_value_show_int [of i]
  by (auto simp: plain_value_def plain_field_def list_all_iff is_white_def blank_char_def)

section \<open>Numbers survive\<close>

lemma isdigit_blank: "\<not> isdigit (CHR '' '')"
  by (simp add: isdigit_def)

lemma show_int_nonneg: "0 \<le> i \<Longrightarrow> show_int i = show_nat (nat i)"
  by (simp add: show_int_def)

lemma number_field_show_int:
  assumes "0 \<le> i" and "i \<le> INT_MAX" and "rest = [] \<or> hd rest = CHR '' ''"
  shows "number_field (show_int i @ rest) = Some (i, rest)"
proof -
  have d: "\<forall>c \<in> set (show_int i). isdigit c"
    using show_nat_digits [of "nat i"] assms(1) by (simp add: show_int_nonneg list_all_iff)
  have "atoi (show_int i @ rest) = i"
    using assms isdigit_blank by (intro atoi_show_int) (auto simp: int_limits)
  moreover have "dropWhile isdigit (show_int i @ rest) = rest"
    using assms(3) d isdigit_blank by (cases rest) (auto simp: dropWhile_append)
  moreover have "isdigit (hd (show_int i @ rest))" "show_int i @ rest \<noteq> []"
    using d assms(1) by (simp_all add: show_int_nonneg)
  ultimately show ?thesis
    using assms(3) by (auto simp: number_field_def is_space_or_tab_def)
qed

lemma two_numbers_show_int:
  assumes "0 \<le> i" "i \<le> INT_MAX" "0 \<le> j" "j \<le> INT_MAX"
  shows "two_numbers (show_int i @ CHR '' '' # show_int j) = Some (i, j)"
proof -
  have "skip_spaces (CHR '' '' # show_int j) = show_int j"
    using skip_spaces_plain [OF plain_field_show_int, of j "[]"]
    by (simp add: skip_spaces_def is_space_or_tab_def)
  with assms number_field_show_int [of i "CHR '' '' # show_int j"] number_field_show_int [of j "[]"]
  show ?thesis by (simp add: two_numbers_def)
qed

section \<open>Entries survive\<close>

text \<open>What \<open>my_addmntent\<close> writes, and the entries that can be read back: no field is empty, the first
  does not look like a comment, and the numbers are not negative.\<close>

definition mnt_text :: "mntent \<Rightarrow> string" where
  "mnt_text m = mnt_line (mangled (mnt_fsname m)) (mangled (Some (mnt_dir m))) (mangled (mnt_type m))
     (mangled (Some (mnt_opts m))) (mnt_freq m) (mnt_passno m)"

definition text_ok :: "string \<Rightarrow> bool" where
  "text_ok s \<longleftrightarrow> s \<noteq> [] \<and> NUL \<notin> set s"

definition entry_ok :: "mntent \<Rightarrow> bool" where
  "entry_ok m \<longleftrightarrow>
     (\<exists>f t. mnt_fsname m = Some f \<and> mnt_type m = Some t \<and> text_ok f \<and> hd f \<noteq> CHR ''#'' \<and> text_ok t) \<and>
     text_ok (mnt_dir m) \<and> text_ok (mnt_opts m) \<and>
     0 \<le> mnt_freq m \<and> mnt_freq m \<le> INT_MAX \<and> 0 \<le> mnt_passno m \<and> mnt_passno m \<le> INT_MAX"

definition no_malloc :: "(syscall \<Rightarrow> bool) \<Rightarrow> bool" where
  "no_malloc P \<longleftrightarrow> (\<forall>k. \<not> P (ProcCall (Malloc k)))"

lemma acts_xmalloc:
  assumes "memory_ok E" and "no_malloc P" and "n \<noteq> 0"
  shows "acts P True [] (xmalloc E n)"
proof -
  have "acts P True ((if P (ProcCall (Malloc (uint64 n))) then [ProcCall (Malloc (uint64 n))] else []) @ [])
      (xmalloc E n)"
    unfolding xmalloc_def using assms(1,3)
    by (simp only: if_False) (rule acts_bind_sysc [where R = "\<lambda>r. rv r \<noteq> 0"], simp_all add: memory_ok_def acts_ret)
  with assms(2) show ?thesis by (simp add: no_malloc_def)
qed

lemma acts_xstrdup:
  assumes "memory_ok E" and "no_malloc P"
  shows "acts P (Some s) [] (xstrdup E (Some s))"
proof -
  have "acts P (Some s) ((if P (ProcCall (Malloc (int (length s) + 1)))
      then [ProcCall (Malloc (int (length s) + 1))] else []) @ []) (xstrdup E (Some s))"
    unfolding xstrdup_def option.case
    by (rule acts_bind_sysc [where R = "\<lambda>r. rv r \<noteq> 0"]) (use assms(1) in \<open>simp_all add: memory_ok_def acts_ret\<close>)
  then show ?thesis using assms(2) by (simp add: no_malloc_def)
qed

lemma acts_xstrndup:
  assumes "memory_ok E" and "no_malloc P" and "0 \<le> n"
  shows "acts P (take (nat n) s) [] (xstrndup E (Some s) n)"
proof -
  have "acts P (take (nat n) s) [] (bind (xmalloc E (n + 1)) (\<lambda>_. ret (take (nat n) s)))"
    by (rule acts_quiet_bind [OF acts_xmalloc [OF assms(1,2)]]) (use assms(3) in \<open>simp_all add: acts_ret\<close>)
  with assms(3) show ?thesis by (simp add: xstrndup_def)
qed

lemma acts_unmangle:
  assumes "memory_ok E" and "no_malloc P"
  shows "acts P (unmangled s) [] (unmangle E s)"
  unfolding unmangle_def by (rule acts_quiet_bind [OF acts_xmalloc [OF assms]]) (simp_all add: acts_ret)

lemma acts_mangle:
  assumes "memory_ok E" and "no_malloc P"
  shows "acts P (mangled (Some s)) [] (mangle E (Some s))"
  unfolding mangle_def option.case
  by (rule acts_quiet_bind [OF acts_xmalloc [OF assms]]) (simp_all add: acts_ret)

lemma acts_parse_mntent:
  assumes "memory_ok E" and "no_malloc P"
  shows "acts P (map_option (\<lambda>(freq, passno).
      \<lparr>mnt_fsname = Some (unmangled s), mnt_dir = unmangled (next_field s),
       mnt_type = Some (unmangled (next_field (next_field s))),
       mnt_opts = unmangled (next_field (next_field (next_field s))), mnt_freq = freq, mnt_passno = passno\<rparr>)
      (two_numbers (next_field (next_field (next_field (next_field s)))))) [] (parse_mntent E s)"
  unfolding parse_mntent_def Let_def
  by (rule acts_quiet_bind [OF acts_unmangle [OF assms]])+ (rule acts_ret)

text \<open>The line of an entry, without its end.\<close>

definition line_body :: "string \<Rightarrow> string \<Rightarrow> string \<Rightarrow> string \<Rightarrow> int \<Rightarrow> int \<Rightarrow> string" where
  "line_body m1 m2 m3 m4 i j =
     m1 @ CHR '' '' # m2 @ CHR '' '' # m3 @ CHR '' '' # m4 @ CHR '' '' # show_int i @ CHR '' '' # show_int j"

lemma mnt_line_body: "mnt_line m1 m2 m3 m4 i j = line_body m1 m2 m3 m4 i j @ [CHR 0x0A]"
  by (simp add: mnt_line_def line_body_def)

lemma plain_field_chars: "plain_field m \<Longrightarrow> CHR 0x0A \<notin> set m" "plain_field m \<Longrightarrow> NUL \<notin> set m"
  by (auto simp: plain_field_def list_all_iff blank_char_def)

lemma line_body_chars:
  assumes "plain_field m1" "plain_field m2" "plain_field m3" "plain_field m4"
  shows "CHR 0x0A \<notin> set (line_body m1 m2 m3 m4 i j) \<and> NUL \<notin> set (line_body m1 m2 m3 m4 i j)"
  by (simp add: line_body_def plain_field_chars assms plain_field_show_int)

lemma parse_line_body:
  assumes "entry_ok m" and "memory_ok E" and "no_malloc P"
  shows "acts P (Some m) [] (parse_mntent E (line_body (mangled (mnt_fsname m)) (mangled (Some (mnt_dir m)))
     (mangled (mnt_type m)) (mangled (Some (mnt_opts m))) (mnt_freq m) (mnt_passno m)))"
proof -
  obtain f t where m: "mnt_fsname m = Some f" "mnt_type m = Some t" and ok: "text_ok f" "text_ok t"
    "text_ok (mnt_dir m)" "text_ok (mnt_opts m)"
    using assms(1) unfolding entry_ok_def by blast
  have p: "plain_field (mangle_chars f)" "plain_field (mangle_chars (mnt_dir m))"
    "plain_field (mangle_chars t)" "plain_field (mangle_chars (mnt_opts m))"
    using ok by (auto simp: text_ok_def intro: plain_field_mangle)
  have n: "two_numbers (show_int (mnt_freq m) @ CHR '' '' # show_int (mnt_passno m)) =
      Some (mnt_freq m, mnt_passno m)"
    using assms(1) by (intro two_numbers_show_int) (auto simp: entry_ok_def)
  let ?s = "line_body (mangle_chars f) (mangle_chars (mnt_dir m)) (mangle_chars t) (mangle_chars (mnt_opts m))
     (mnt_freq m) (mnt_passno m)"
  have "\<lparr>mnt_fsname = Some f, mnt_dir = mnt_dir m, mnt_type = Some t, mnt_opts = mnt_opts m,
      mnt_freq = mnt_freq m, mnt_passno = mnt_passno m\<rparr> = m"
    using m by (cases m) simp
  then have "Some m = map_option (\<lambda>(freq, passno).
      \<lparr>mnt_fsname = Some (unmangled ?s), mnt_dir = unmangled (next_field ?s),
       mnt_type = Some (unmangled (next_field (next_field ?s))),
       mnt_opts = unmangled (next_field (next_field (next_field ?s))), mnt_freq = freq, mnt_passno = passno\<rparr>)
      (two_numbers (next_field (next_field (next_field (next_field ?s)))))"
    by (simp add: line_body_def next_field_plain unmangled_field p plain_field_show_int n)
  with acts_parse_mntent [OF assms(2,3), of ?s] show ?thesis by (simp only: m mangled_def option.case)
qed

text \<open>The shape of a line.\<close>

lemma mnt_text_shape:
  assumes "entry_ok m"
  obtains y where "mnt_text m = y @ [CHR 0x0A]" and "CHR 0x0A \<notin> set y" and "NUL \<notin> set y"
    and "y \<noteq> []" and "hd y \<noteq> CHR ''#''" and "skip_spaces y = y"
    and "y = line_body (mangled (mnt_fsname m)) (mangled (Some (mnt_dir m))) (mangled (mnt_type m))
      (mangled (Some (mnt_opts m))) (mnt_freq m) (mnt_passno m)"
proof -
  obtain f t where m: "mnt_fsname m = Some f" "mnt_type m = Some t" and ok: "text_ok f" "text_ok t"
    "text_ok (mnt_dir m)" "text_ok (mnt_opts m)" "hd f \<noteq> CHR ''#''"
    using assms(1) unfolding entry_ok_def by blast
  have p: "plain_field (mangle_chars f)" "plain_field (mangle_chars (mnt_dir m))"
    "plain_field (mangle_chars t)" "plain_field (mangle_chars (mnt_opts m))"
    using ok by (auto simp: text_ok_def intro: plain_field_mangle)
  define y where y: "y = line_body (mangle_chars f) (mangle_chars (mnt_dir m)) (mangle_chars t)
      (mangle_chars (mnt_opts m)) (mnt_freq m) (mnt_passno m)"
  have "hd (mangle_chars f) \<noteq> CHR ''#''" using ok(1,5) by (cases f) (auto simp: text_ok_def escape_def)
  then have "hd y \<noteq> CHR ''#''" "y \<noteq> []" using p(1) by (auto simp: y line_body_def plain_field_def)
  moreover have "skip_spaces y = y" unfolding y line_body_def by (rule skip_spaces_plain [OF p(1)])
  ultimately show ?thesis
    using that [of y] line_body_chars [OF p] by (simp add: mnt_text_def mnt_line_body m mangled_def y)
qed

text \<open>The loop on one written line.\<close>

lemma acts_getmntent_line:
  assumes "entry_ok m" and "memory_ok E" and "no_malloc P"
    and "\<not> mntent_errs mfp" and "mntent_softerrs mfp < ERR_MAX"
  shows "acts P (Some m, mfp\<lparr>mntent_lines := ls\<rparr>) [] (getmntent_loop E mfp (mnt_text m # ls))"
proof -
  obtain y where y: "mnt_text m = y @ [CHR 0x0A]" "CHR 0x0A \<notin> set y" "NUL \<notin> set y" "y \<noteq> []"
    "hd y \<noteq> CHR ''#''" "skip_spaces y = y"
    and b: "y = line_body (mangled (mnt_fsname m)) (mangled (Some (mnt_dir m))) (mangled (mnt_type m))
      (mangled (Some (mnt_opts m))) (mnt_freq m) (mnt_passno m)"
    using assms(1) by (rule mnt_text_shape)
  have c: "cstr (y @ [CHR 0x0A]) = y @ [CHR 0x0A]" using y(3) by simp
  have t: "takeWhile (\<lambda>c. c \<noteq> CHR 0x0A) (y @ [CHR 0x0A]) = y" using y(2) by (subst takeWhile_append2) auto
  have "acts P (Some m) [] (parse_mntent E y)" unfolding b by (rule parse_line_body [OF assms(1-3)])
  then have "acts P (Some m, mfp\<lparr>mntent_lines := ls\<rparr>) [] (bind (parse_mntent E y) (\<lambda>m.
       case m of Some e \<Rightarrow> ret (Some e, mfp\<lparr>mntent_lines := ls\<rparr>)
       | None \<Rightarrow> (let mfp' = mfp\<lparr>mntent_softerrs := mntent_softerrs mfp + 1\<rparr> in
            andthen (bad_line E mfp') (getmntent_loop E mfp' ls))))"
    by (rule acts_quiet_bind) (simp add: acts_ret)
  with assms(4,5) y c t show ?thesis by (simp add: getmntent_loop.simps not_le [symmetric])
qed

lemma acts_addmntent:
  assumes "memory_ok E" and "no_malloc P" and "\<And>x. P (FileCall (Fprintf h x))" and "\<not> P (FileCall (Fseek_end h))"
    and "\<And>tr. rv (kern E tr (FileCall (Fseek_end h))) = 0"
    and "\<And>tr x. 0 \<le> rv (kern E tr (FileCall (Fprintf h x)))"
    and "mnt_fsname m \<noteq> None" and "mnt_type m \<noteq> None" and "mntent_fp mf = h"
  shows "acts P 0 [FileCall (Fprintf h (mnt_text m))] (my_addmntent E mf m)"
proof -
  obtain f t where m: "mnt_fsname m = Some f" "mnt_type m = Some t" using assms(7,8) by blast
  let ?c = "FileCall (Fprintf h (mnt_text m))"
  have "acts P 0 ((if P ?c then [?c] else []) @ []) (bind (sysc E ?c) (\<lambda>p. ret (if rv p < 0 then 1 else 0)))"
    by (rule acts_bind_sysc [where R = "\<lambda>r. 0 \<le> rv r"]) (simp_all add: assms(6) acts_ret)
  then have w: "acts P 0 [?c] (bind (sysc E ?c) (\<lambda>p. ret (if rv p < 0 then 1 else 0)))"
    using assms(3) by simp
  have "acts P 0 ((if P (FileCall (Fseek_end h)) then [FileCall (Fseek_end h)] else []) @ [?c]) (my_addmntent E mf m)"
    unfolding my_addmntent_def assms(9)
  proof (rule acts_bind_sysc [where R = "\<lambda>r. rv r = 0"])
    fix r :: reply
    assume "rv r = 0"
    then show "acts P 0 [?c] (if rv r \<noteq> 0 then ret 1 else
       bind (mangle E (mnt_fsname m)) (\<lambda>m1. bind (mangle E (Some (mnt_dir m))) (\<lambda>m2.
       bind (mangle E (mnt_type m)) (\<lambda>m3. bind (mangle E (Some (mnt_opts m))) (\<lambda>m4.
       bind (fsys E (Fprintf h (mnt_line m1 m2 m3 m4 (mnt_freq m) (mnt_passno m)))) (\<lambda>p.
       ret (if rv p < 0 then 1 else 0)))))))"
      using w unfolding mnt_text_def m
      by (simp only: simp_thms if_False)
        (rule acts_quiet_bind [OF acts_mangle [OF assms(1,2)]])+
  qed (rule assms(5))
  with assms(4) show ?thesis by simp
qed

text \<open>A stream that can be written to.\<close>

definition writable :: "env \<Rightarrow> int \<Rightarrow> bool" where
  "writable E h \<longleftrightarrow> (\<forall>tr. rv (kern E tr (FileCall (Fseek_end h))) = 0) \<and>
     (\<forall>tr x. 0 \<le> rv (kern E tr (FileCall (Fprintf h x))))"

fun is_fprintf :: "int \<Rightarrow> syscall \<Rightarrow> bool" where
  "is_fprintf h (FileCall (Fprintf k x)) = (k = h)"
| "is_fprintf h c = False"


end
