(* ===== verification/Fstab.thy ===== *)
theory Fstab
  imports Mntent
begin

text \<open>
  \<^verbatim>\<open>src/fstab.c\<close> and \<open>die\<close> of \<^verbatim>\<open>src/sundries.c\<close>: the tables of mounted and configured file
  systems, the lock of \<^verbatim>\<open>/etc/mtab\<close> and its update.

  The circular list of \<open>struct mntentchn\<close> is the list of its elements; \<open>None\<close> stands for the null
  pointers a head has when its table could not be read.
\<close>

section \<open>Names\<close>

definition MOUNTED :: string where "MOUNTED = ''/etc/mtab''"
definition PROC_MOUNTS :: string where "PROC_MOUNTS = ''/proc/mounts''"
definition PATH_FSTAB :: string where "PATH_FSTAB = ''/etc/fstab''"
definition MOUNTED_LOCK :: string where "MOUNTED_LOCK = ''/etc/mtab~''"
definition MOUNTED_TEMP :: string where "MOUNTED_TEMP = ''/etc/mtab.tmp''"
definition LOCK_TIMEOUT :: int where "LOCK_TIMEOUT = 10"
definition MNTTYPE_IGNORE :: string where "MNTTYPE_IGNORE = ''ignore''"
definition SIGCHLD :: nat where "SIGCHLD = 17"

text \<open>The newline at the end of a format is left out, here and in the messages below.\<close>

definition printf_out :: "env \<Rightarrow> string \<Rightarrow> farg list \<Rightarrow> ('s os_state_scheme, unit) proc" where
  "printf_out E f args = do_sys E (FileCall (Fprintf 1 (fmt E f args)))"

definition fprintf_err :: "env \<Rightarrow> string \<Rightarrow> farg list \<Rightarrow> ('s os_state_scheme, unit) proc" where
  "fprintf_err E f args = do_sys E (LogCall (Stderr [] (fmt E f args)))"

section \<open>Information about mtab\<close>

definition get_mtab_info :: "env \<Rightarrow> ('s mnt_state_scheme, unit) proc" where
  "get_mtab_info E =
     bind (gets have_mtab_info) (\<lambda>have.
     whenp (\<not> have)
       (bind (fsys E (Lstat MOUNTED)) (\<lambda>r.
        andthen
          (if rv r \<noteq> 0 then modify (var_mtab_does_not_exist_update (\<lambda>_. True))
           else whenp (S_ISLNK (v1 r)) (modify (var_mtab_is_a_symlink_update (\<lambda>_. True))))
        (modify (have_mtab_info_update (\<lambda>_. True))))))"

definition mtab_does_not_exist :: "env \<Rightarrow> ('s mnt_state_scheme, bool) proc" where
  "mtab_does_not_exist E = andthen (get_mtab_info E) (gets var_mtab_does_not_exist)"

definition mtab_is_a_symlink :: "env \<Rightarrow> ('s mnt_state_scheme, bool) proc" where
  "mtab_is_a_symlink E = andthen (get_mtab_info E) (gets var_mtab_is_a_symlink)"

definition mtab_is_writable :: "env \<Rightarrow> ('s mnt_state_scheme, bool) proc" where
  "mtab_is_writable E =
     bind (mtab_is_a_symlink E) (\<lambda>link.
     if link then ret False
     else
       andthen
         (bind (gets mtab_writable_ret) (\<lambda>w.
          whenp (w = - 1)
            (bind (fsys E (Open MOUNTED O_RDWR_CREAT)) (\<lambda>fd.
             if rv fd \<ge> 0 then
               andthen (do_sys E (FileCall (Close (rv fd)))) (modify (mtab_writable_ret_update (\<lambda>_. 1)))
             else modify (mtab_writable_ret_update (\<lambda>_. 0))))))
       (gets (\<lambda>s. mtab_writable_ret s \<noteq> 0)))"

section \<open>Contents of mtab and fstab\<close>

text \<open>The loop of \<open>read_mntentchn\<close>. Every pass consumes at least one line, so the number of lines
  left bounds it.\<close>

fun read_entries :: "nat \<Rightarrow> env \<Rightarrow> mntFILE \<Rightarrow> ('s mnt_state_scheme, mntentchn list \<times> mntFILE) proc" where
  "read_entries 0 E mfp = unfinished"
| "read_entries (Suc n) E mfp =
     bind (my_getmntent E mfp) (\<lambda>(m, mfp').
     case m of
       None \<Rightarrow> ret ([], mfp')
     | Some mnt \<Rightarrow>
         (case (mnt_fsname mnt, mnt_type mnt) of
            (Some f, Some t) \<Rightarrow>
              if t = MNTTYPE_IGNORE then ret ([], mfp')
              else
                bind (xmalloc E 48) (\<lambda>_.
                bind (read_entries n E mfp') (\<lambda>(mcs, mfp'').
                ret (\<lparr>mc_fsname = f, mc_dir = mnt_dir mnt, mc_type = t, mc_opts = mnt_opts mnt\<rparr> # mcs, mfp'')))
          | _ \<Rightarrow> fault))"

definition read_mntentchn :: "env \<Rightarrow> mntFILE \<Rightarrow> string \<Rightarrow> ('s mnt_state_scheme, mntentchn list option) proc" where
  "read_mntentchn E mfp fnam =
     bind (read_entries (Suc (length (mntent_lines mfp))) E mfp) (\<lambda>(mcs, mfp').
     bind
       (if mntent_eof mfp' \<and> mntent_ferror mfp' \<noteq> 0 then
          andthen (error_msg E ''warning: error reading %s: %s'' [AStr fnam, AInt (mntent_ferror mfp')]) (ret None)
        else ret (Some mcs)) (\<lambda>head.
     andthen (my_endmntent E mfp')
     (ret head)))"

definition read_mounttable :: "env \<Rightarrow> ('s mnt_state_scheme, unit) proc" where
  "read_mounttable E =
     andthen (modify (\<lambda>s. s\<lparr>got_mtab := True, mounttable := None\<rparr>))
     (bind (my_setmntent E MOUNTED ''r'') (\<lambda>(mfp, errsv).
      if mntent_fp mfp = 0 then
        bind (my_setmntent E PROC_MOUNTS ''r'') (\<lambda>(mfp2, _).
        if mntent_fp mfp2 = 0 then
          error_msg E ''warning: can't open %s: %s'' [AStr MOUNTED, AInt errsv]
        else
          bind (gets mount_verbose) (\<lambda>v.
          andthen (whenp (v \<noteq> 0)
            (printf_out E ''mount: could not open %s - using %s instead'' [AStr MOUNTED, AStr PROC_MOUNTS]))
          (bind (read_mntentchn E mfp2 PROC_MOUNTS) (\<lambda>head.
           modify (mounttable_update (\<lambda>_. head))))))
      else
        bind (read_mntentchn E mfp MOUNTED) (\<lambda>head.
        modify (mounttable_update (\<lambda>_. head)))))"

definition read_fstab :: "env \<Rightarrow> ('s mnt_state_scheme, unit) proc" where
  "read_fstab E =
     andthen (modify (\<lambda>s. s\<lparr>got_fstab := True, fstab := None\<rparr>))
     (bind (my_setmntent E PATH_FSTAB ''r'') (\<lambda>(mfp, e).
      if mntent_fp mfp = 0 then error_msg E ''warning: can't open %s: %s'' [AStr PATH_FSTAB, AInt e]
      else
        bind (read_mntentchn E mfp PATH_FSTAB) (\<lambda>head.
        modify (fstab_update (\<lambda>_. head)))))"

definition mtab_head :: "env \<Rightarrow> ('s mnt_state_scheme, mntentchn list option) proc" where
  "mtab_head E =
     bind (gets got_mtab) (\<lambda>got. andthen (whenp (\<not> got) (read_mounttable E)) (gets mounttable))"

definition fstab_head :: "env \<Rightarrow> ('s mnt_state_scheme, mntentchn list option) proc" where
  "fstab_head E =
     bind (gets got_fstab) (\<lambda>got. andthen (whenp (\<not> got) (read_fstab E)) (gets fstab))"

text \<open>The elements behind a head.\<close>

definition chain :: "mntentchn list option \<Rightarrow> mntentchn list" where
  "chain head = (case head of None \<Rightarrow> [] | Some mcs \<Rightarrow> mcs)"

definition getmntfile :: "env \<Rightarrow> string \<Rightarrow> ('s mnt_state_scheme, mntentchn option) proc" where
  "getmntfile E name =
     bind (mtab_head E) (\<lambda>head. ret (find (\<lambda>mc. mc_dir mc = name \<or> mc_fsname mc = name) (chain head)))"

text \<open>The option \<open>loop=FILE\<close> among the options: \<open>strstr\<close> looks at its first occurrence only.\<close>

definition loop_option :: "string \<Rightarrow> string \<Rightarrow> bool" where
  "loop_option file opts =
     (case strstr opts ''loop='' of
        None \<Rightarrow> False
      | Some s \<Rightarrow>
          (let before = take (length opts - length s) opts; after = drop (5 + length file) s in
           is_prefix file (drop 5 s) \<and> (before = [] \<or> last before = CHR '','') \<and>
           (after = [] \<or> hd after = CHR '','')))"

definition getmntoptfile :: "env \<Rightarrow> string option \<Rightarrow> ('s mnt_state_scheme, mntentchn option) proc" where
  "getmntoptfile E file =
     (case file of
        None \<Rightarrow> ret None
      | Some f \<Rightarrow> bind (mtab_head E) (\<lambda>head. ret (find (\<lambda>mc. loop_option f (mc_opts mc)) (chain head))))"

definition getfsfile :: "env \<Rightarrow> string \<Rightarrow> ('s mnt_state_scheme, mntentchn option) proc" where
  "getfsfile E file = bind (fstab_head E) (\<lambda>head. ret (find (\<lambda>mc. mc_dir mc = file) (chain head)))"

definition getfsspec :: "env \<Rightarrow> string \<Rightarrow> ('s mnt_state_scheme, mntentchn option) proc" where
  "getfsspec E spec = bind (fstab_head E) (\<lambda>head. ret (find (\<lambda>mc. mc_fsname mc = spec) (chain head)))"

section \<open>The lock\<close>

definition unlock_mtab :: "env \<Rightarrow> ('s mnt_state_scheme, unit) proc" where
  "unlock_mtab E =
     bind (gets lock) (\<lambda>l.
     whenp (l \<noteq> - 1)
       (andthen (do_sys E (FileCall (Close l)))
       (bind (gets old_lockfile) (\<lambda>old_file.
        whenp (\<not> old_file) (do_sys E (FileCall (Unlink MOUNTED_LOCK)))))))"

definition die :: "env \<Rightarrow> int \<Rightarrow> string \<Rightarrow> farg list \<Rightarrow> ('s mnt_state_scheme, 'a) proc" where
  "die E code f args =
     andthen (fprintf_err E f args)
     (andthen (fprintf_err E [CHR 0x0A] [])
     (andthen (unlock_mtab E)
     (stop code)))"

definition lock_mtab :: "env \<Rightarrow> ('s mnt_state_scheme, unit) proc" where
  "lock_mtab E =
     bind (gets lock) (\<lambda>l.
     whenp (l < 0)
       (andthen (run_all (map (\<lambda>sig. do_sys E (ProcCall (Sigaction (int sig)))) [1..<SIGCHLD]))
       (bind (fsys E (Lstat MOUNTED_LOCK)) (\<lambda>st.
        andthen (whenp (rv st < 0 \<and> err st = ENOENT) (modify (old_lockfile_update (\<lambda>_. False))))
       (bind (fsys E (Open MOUNTED_LOCK O_WRONLY_CREAT)) (\<lambda>fd.
        andthen (modify (lock_update (\<lambda>_. rv fd)))
        (if rv fd < 0 then
           die E EX_FILEIO ''can't create lock file %s: %s (use -n flag to override)''
             [AStr MOUNTED_LOCK, AInt (err fd)]
         else
           andthen (do_sys E (ProcCall (Alarm LOCK_TIMEOUT)))
           (bind (fsys E (Fcntl_setlkw (rv fd))) (\<lambda>r.
            if rv r = - 1 then
              andthen (do_sys E (FileCall (Close (rv fd))))
              (andthen (modify (lock_update (\<lambda>_. - 1)))
              (die E EX_FILEIO ''can't lock lock file %s: %s'' [AStr MOUNTED_LOCK, AInt (err r)]))
            else modify (old_lockfile_update (\<lambda>_. False)))))))))))"

text \<open>The handlers \<open>lock_mtab\<close> installs: an alarm only interrupts the wait for the lock, every other signal ends the
  program. They run asynchronously, so no operation below calls them.\<close>

definition handler :: "env \<Rightarrow> int \<Rightarrow> ('s mnt_state_scheme, unit) proc" where
  "handler E sig = die E EX_USER ''%s'' [AInt sig]"

definition setlkw_timeout :: "int \<Rightarrow> ('s mnt_state_scheme, unit) proc" where
  "setlkw_timeout sig = ret ()"

section \<open>Updating mtab\<close>

definition mismatch :: "string option \<Rightarrow> string option \<Rightarrow> bool" where
  "mismatch wanted found = (case wanted of None \<Rightarrow> False | Some w \<Rightarrow> found \<noteq> Some w)"

text \<open>What replaces an entry of the directory: nothing, or the entry of a remount.\<close>

definition remounted :: "env \<Rightarrow> mntent option \<Rightarrow> mntent \<Rightarrow> ('s mnt_state_scheme, mntent option) proc" where
  "remounted E instead mnt =
     (case instead of
        None \<Rightarrow> ret None
      | Some i \<Rightarrow>
          andthen
            (if mismatch (mnt_fsname i) (mnt_fsname mnt) then
               printf_out E ''mount: warning: cannot change mounted device with a remount'' []
             else whenp (mnt_type i \<noteq> Some ''unknown'' \<and> mismatch (mnt_type i) (mnt_type mnt))
               (printf_out E ''mount: warning: cannot change filesystem type with a remount'' []))
          (ret (Some (i\<lparr>mnt_fsname := mnt_fsname mnt, mnt_type := mnt_type mnt\<rparr>))))"

definition write_entry :: "env \<Rightarrow> mntFILE \<Rightarrow> mntent option \<Rightarrow> ('s mnt_state_scheme, unit) proc" where
  "write_entry E mftmp next =
     (case next of
        None \<Rightarrow> ret ()
      | Some m \<Rightarrow>
          bind (my_addmntent E mftmp m) (\<lambda>r.
          if r = 1 then die E EX_FILEIO ''error writing %s: %s'' [AStr MOUNTED_TEMP] else ret ()))"

text \<open>The copying loop, with the number of entries of the directory.\<close>

fun copy_entries ::
  "nat \<Rightarrow> env \<Rightarrow> string \<Rightarrow> mntent option \<Rightarrow> mntFILE \<Rightarrow> mntFILE \<Rightarrow> nat \<Rightarrow> ('s mnt_state_scheme, mntFILE \<times> nat) proc" where
  "copy_entries 0 E dir instead mfp mftmp added = unfinished"
| "copy_entries (Suc n) E dir instead mfp mftmp added =
     bind (my_getmntent E mfp) (\<lambda>(m, mfp').
     case m of
       None \<Rightarrow> ret (mfp', added)
     | Some mnt \<Rightarrow>
         bind (if mnt_dir mnt = dir then remounted E instead mnt else ret (Some mnt)) (\<lambda>next.
         andthen (write_entry E mftmp next)
         (copy_entries n E dir instead mfp' mftmp (if mnt_dir mnt = dir then added + 1 else added))))"

definition rewrite_mtab :: "env \<Rightarrow> string \<Rightarrow> mntent option \<Rightarrow> mntFILE \<Rightarrow> mntFILE \<Rightarrow> ('s mnt_state_scheme, unit) proc" where
  "rewrite_mtab E dir instead mfp mftmp =
     bind (copy_entries (Suc (length (mntent_lines mfp))) E dir instead mfp mftmp 0) (\<lambda>(mfp', added).
     andthen (whenp (instead \<noteq> None \<and> added = 0) (write_entry E mftmp instead))
     (andthen (my_endmntent E mfp')
     (bind (fsys E (Fchmod (mntent_fp mftmp))) (\<lambda>c.
      andthen (whenp (rv c < 0) (fprintf_err E ''error changing mode of %s: %s'' [AStr MOUNTED_TEMP, AInt (err c)]))
     (andthen (my_endmntent E mftmp)
     (bind (fsys E (Rename MOUNTED_TEMP MOUNTED)) (\<lambda>r.
      whenp (rv r < 0) (fprintf_err E ''can't rename %s to %s: %s''
        [AStr MOUNTED_TEMP, AStr MOUNTED, AInt (err r)]))))))))"

text \<open>Between the lock and the label \<open>leave\<close>: open both tables and rewrite.\<close>

definition copy_mtab :: "env \<Rightarrow> string \<Rightarrow> mntent option \<Rightarrow> ('s mnt_state_scheme, unit) proc" where
  "copy_mtab E dir instead =
     bind (my_setmntent E MOUNTED ''r'') (\<lambda>(mfp, e).
     if mntent_fp mfp = 0 then
       error_msg E ''cannot open %s (%s) - mtab not updated'' [AStr MOUNTED, AInt e]
     else
       bind (my_setmntent E MOUNTED_TEMP ''w'') (\<lambda>(mftmp, e2).
       if mntent_fp mftmp = 0 then
         error_msg E ''can't open %s (%s) - mtab not updated'' [AStr MOUNTED_TEMP, AInt e2]
       else rewrite_mtab E dir instead mfp mftmp))"

definition update_mtab :: "env \<Rightarrow> string \<Rightarrow> mntent option \<Rightarrow> ('s mnt_state_scheme, unit) proc" where
  "update_mtab E dir instead =
     bind (mtab_does_not_exist E) (\<lambda>absent.
     bind (if absent then ret True else mtab_is_a_symlink E) (\<lambda>skip.
     if skip then ret ()
     else andthen (lock_mtab E) (andthen (copy_mtab E dir instead) (unlock_mtab E))))"

declare read_entries.simps [simp del] copy_entries.simps [simp del]

section \<open>What an update of mtab writes\<close>

text \<open>A machine whose \<^verbatim>\<open>/etc/mtab\<close> is a regular file with the given entries, which can be locked,
  and whose temporary file can be written.\<close>

definition mtab_has :: "env \<Rightarrow> mntent list \<Rightarrow> bool" where
  "mtab_has E ms \<longleftrightarrow> memory_ok E \<and> (\<forall>m \<in> set ms. entry_ok m \<and> length (mnt_text m) < 4096) \<and>
     (\<forall>tr. rv (kern E tr (FileCall (Fopen MOUNTED ''r''))) \<noteq> 0 \<and>
           dat (kern E tr (FileCall (Fopen MOUNTED ''r''))) = concat (map mnt_text ms) \<and>
           v1 (kern E tr (FileCall (Fopen MOUNTED ''r''))) = 0)"

definition mtab_regular :: "env \<Rightarrow> bool" where
  "mtab_regular E \<longleftrightarrow> (\<forall>tr. rv (kern E tr (FileCall (Lstat MOUNTED))) = 0 \<and>
     \<not> S_ISLNK (v1 (kern E tr (FileCall (Lstat MOUNTED)))))"

definition mtab_lockable :: "env \<Rightarrow> bool" where
  "mtab_lockable E \<longleftrightarrow> (\<forall>tr. 0 \<le> rv (kern E tr (FileCall (Open MOUNTED_LOCK O_WRONLY_CREAT)))) \<and>
     (\<forall>tr fd. rv (kern E tr (FileCall (Fcntl_setlkw fd))) \<noteq> - 1)"

definition temp_file :: "env \<Rightarrow> int \<Rightarrow> bool" where
  "temp_file E h \<longleftrightarrow> h \<noteq> 0 \<and> writable E h \<and> (\<forall>tr. rv (kern E tr (FileCall (Fopen MOUNTED_TEMP ''w''))) = h)"

text \<open>The calls that make up the new table, and the flags of a regular one.\<close>

fun is_table_call :: "int \<Rightarrow> syscall \<Rightarrow> bool" where
  "is_table_call h (FileCall (Fprintf k x)) = (k = h)"
| "is_table_call h (FileCall (Rename a b)) = True"
| "is_table_call h c = False"

definition mtab_flags_clear :: "'s mnt_state_scheme \<Rightarrow> bool" where
  "mtab_flags_clear s \<longleftrightarrow> \<not> var_mtab_does_not_exist s \<and> \<not> var_mtab_is_a_symlink s"

lemma flags_trace: "mtab_flags_clear s \<Longrightarrow> mtab_flags_clear (s\<lparr>trace := t\<rparr>)"
  by (simp add: mtab_flags_clear_def)

lemma no_malloc_table: "no_malloc (is_table_call h)"
  by (simp add: no_malloc_def)

lemma get_mtab_info_run:
  assumes "mtab_regular E" and "mtab_flags_clear s"
  shows "\<exists>s'. get_mtab_info E s = (Ret (), s') \<and> mtab_flags_clear s' \<and>
     calls (is_table_call h) s' = calls (is_table_call h) s"
  using assms
  by (cases "have_mtab_info s") (auto simp: get_mtab_info_def mtab_regular_def mtab_flags_clear_def calls_def)

lemma mtab_present:
  assumes "mtab_regular E" and "mtab_flags_clear s"
  shows "\<exists>s'. mtab_does_not_exist E s = (Ret False, s') \<and> mtab_flags_clear s' \<and>
       calls (is_table_call h) s' = calls (is_table_call h) s"
    and "\<exists>s'. mtab_is_a_symlink E s = (Ret False, s') \<and> mtab_flags_clear s' \<and>
       calls (is_table_call h) s' = calls (is_table_call h) s"
  using get_mtab_info_run [OF assms, of h]
  by (auto simp: mtab_does_not_exist_def mtab_is_a_symlink_def andthen_apply_Ret mtab_flags_clear_def)

text \<open>Steps that leave the flags alone and make no call of the table.\<close>

abbreviation quiet :: "int \<Rightarrow> ('s mnt_state_scheme, 'a) proc \<Rightarrow> bool" where
  "quiet h \<equiv> runs mtab_flags_clear (\<lambda>c. \<not> is_table_call h c)"

lemma quiet_sysc:
  assumes "\<not> is_table_call h c"
  shows "quiet h (sysc E c)" and "quiet h (do_sys E c)"
  using assms by (auto intro: runs_sysc runs_do_sys flags_trace)

lemma quiet_bind_sysc:
  assumes "\<not> is_table_call h c" and "\<And>tr. R (kern E tr c)" and "\<And>r. R r \<Longrightarrow> quiet h (f r)"
  shows "quiet h (bind (sysc E c) f)"
  by (rule runs_bind_sysc [where R = R]) (rule assms flags_trace | assumption)+

lemma quiet_lock_flags:
  "quiet h (modify (old_lockfile_update f))" "quiet h (modify (lock_update g))"
  by (auto intro!: runs_modify simp: mtab_flags_clear_def)

lemma lock_mtab_runs:
  assumes "mtab_lockable E"
  shows "quiet h (lock_mtab E)"
proof -
  have fd: "0 \<le> rv (kern E tr (FileCall (Open MOUNTED_LOCK O_WRONLY_CREAT)))" for tr
    using assms by (simp add: mtab_lockable_def)
  have lk: "rv (kern E tr (FileCall (Fcntl_setlkw fd))) \<noteq> - 1" for tr fd
    using assms by (simp add: mtab_lockable_def)
  have locked: "quiet h (bind (fsys E (Fcntl_setlkw fd))
      (\<lambda>r. if rv r = - 1 then m r else modify (old_lockfile_update (\<lambda>_. False))))" for fd m
    by (rule quiet_bind_sysc [where R = "\<lambda>r. rv r \<noteq> - 1"]) (simp_all add: lk quiet_lock_flags)
  show ?thesis
    unfolding lock_mtab_def
    apply (rule runs_bind [OF runs_gets], rule runs_whenp, rule runs_andthen, rule runs_run_all)
     apply (rule quiet_sysc, simp)
    apply (rule runs_bind, rule quiet_sysc, simp)
    apply (rule runs_andthen, rule runs_whenp, rule quiet_lock_flags)
    apply (rule quiet_bind_sysc [where R = "\<lambda>r. 0 \<le> rv r"], simp, rule fd)
    apply (rule runs_andthen, rule quiet_lock_flags)
    apply (simp only: not_less [symmetric] if_False)
    apply (rule runs_andthen, rule quiet_sysc, simp, rule locked)
    done
qed

lemma unlock_mtab_runs: "quiet h (unlock_mtab E)"
  unfolding unlock_mtab_def by (intro runs_intro) (auto intro: flags_trace)

text \<open>The copying loop drops the entries of the directory and copies the others.\<close>

abbreviation entry_call :: "int \<Rightarrow> mntent \<Rightarrow> syscall" where
  "entry_call h m \<equiv> FileCall (Fprintf h (mnt_text m))"

lemma acts_write_entry:
  assumes "memory_ok E" and "writable E h" and "mntent_fp mf = h" and "entry_ok m"
  shows "acts (is_table_call h) () [entry_call h m] (write_entry E mf (Some m))"
proof -
  have "acts (is_table_call h) 0 [entry_call h m] (my_addmntent E mf m)"
    using assms by (intro acts_addmntent no_malloc_table) (auto simp: writable_def entry_ok_def)
  then have "acts (is_table_call h) () ([entry_call h m] @ []) (write_entry E mf (Some m))"
    unfolding write_entry_def option.case by (rule acts_bind) (simp add: acts_ret)
  then show ?thesis by simp
qed

lemma acts_copy_entries:
  assumes "memory_ok E" and "writable E h" and "mntent_fp mf = h"
  shows "\<forall>m \<in> set ms. entry_ok m \<Longrightarrow> \<not> mntent_errs mfp \<Longrightarrow> mntent_softerrs mfp < ERR_MAX \<Longrightarrow>
    acts (is_table_call h) (mfp\<lparr>mntent_lines := [], mntent_eof := True\<rparr>, added + length (filter (\<lambda>m. mnt_dir m = dir) ms))
      (map (entry_call h) (filter (\<lambda>m. mnt_dir m \<noteq> dir) ms))
      (copy_entries (Suc (length ms)) E dir None (mfp\<lparr>mntent_lines := map mnt_text ms\<rparr>) mf added
        :: ('s mnt_state_scheme, mntFILE \<times> nat) proc)"
proof (induction ms arbitrary: mfp added)
  case Nil
  then have get: "my_getmntent E (mfp\<lparr>mntent_lines := []\<rparr>) =
      ret (None, mfp\<lparr>mntent_lines := [], mntent_eof := True\<rparr>)"
    by (simp add: my_getmntent_def getmntent_loop.simps)
  show ?case
    unfolding list.size list.map filter.simps copy_entries.simps get bind_ret prod.case option.case add_0_right
    by (rule acts_ret)
next
  case (Cons m ms)
  let ?P = "is_table_call h" and ?n = "\<lambda>m. if mnt_dir m = dir then added + 1 else added"
  have get: "acts ?P (Some m, mfp\<lparr>mntent_lines := map mnt_text ms\<rparr>) []
      (my_getmntent E (mfp\<lparr>mntent_lines := map mnt_text (m # ms)\<rparr>))"
    using acts_getmntent_line [of m E ?P "mfp\<lparr>mntent_lines := map mnt_text (m # ms)\<rparr>" "map mnt_text ms"]
      Cons.prems assms(1) by (simp add: my_getmntent_def no_malloc_table)
  have nxt: "acts ?P (if mnt_dir m = dir then None else Some m) []
      (if mnt_dir m = dir then remounted E None m else ret (Some m))"
    by (simp add: remounted_def acts_ret)
  have wr: "acts ?P () (if mnt_dir m = dir then [] else [entry_call h m])
      (write_entry E mf (if mnt_dir m = dir then None else Some m))"
    by (cases "mnt_dir m = dir") (use Cons.prems(1) in \<open>simp_all add: acts_write_entry [OF assms]\<close>,
        simp add: write_entry_def acts_ret)
  have rest: "acts ?P (mfp\<lparr>mntent_lines := [], mntent_eof := True\<rparr>,
        ?n m + length (filter (\<lambda>m. mnt_dir m = dir) ms))
      (map (entry_call h) (filter (\<lambda>m. mnt_dir m \<noteq> dir) ms))
      (copy_entries (Suc (length ms)) E dir None (mfp\<lparr>mntent_lines := map mnt_text ms\<rparr>) mf (?n m)
        :: ('s mnt_state_scheme, mntFILE \<times> nat) proc)"
    using Cons by simp
  have "acts ?P (mfp\<lparr>mntent_lines := [], mntent_eof := True\<rparr>,
        ?n m + length (filter (\<lambda>m. mnt_dir m = dir) ms))
      ((if mnt_dir m = dir then [] else [entry_call h m]) @ map (entry_call h) (filter (\<lambda>m. mnt_dir m \<noteq> dir) ms))
      (copy_entries (Suc (Suc (length ms))) E dir None (mfp\<lparr>mntent_lines := map mnt_text (m # ms)\<rparr>) mf added
        :: ('s mnt_state_scheme, mntFILE \<times> nat) proc)"
    unfolding copy_entries.simps(2) [of "Suc (length ms)"]
    by (rule acts_quiet_bind [OF get], simp only: prod.case option.case,
        rule acts_quiet_bind [OF nxt], rule acts_andthen [OF wr rest])
  then show ?case by (cases "mnt_dir m = dir") simp_all
qed

text \<open>Opening the two tables.\<close>

lemma mtab_lines:
  assumes "\<forall>m \<in> set ms. entry_ok m \<and> length (mnt_text m) < 4096" and "v1 r = 0" and "dat r = concat (map mnt_text ms)"
  shows "stream_lines 4096 r = map mnt_text ms"
proof -
  have "\<exists>y. l = y @ [CHR 0x0A] \<and> CHR 0x0A \<notin> set y \<and> length l < 4096" if l: "l \<in> set (map mnt_text ms)" for l
  proof -
    obtain m where m: "m \<in> set ms" "l = mnt_text m" using l by auto
    then have "entry_ok m" "length l < 4096" using assms(1) by auto
    with m(2) show ?thesis by (metis mnt_text_shape)
  qed
  then have "fgets_lines 4096 (concat (map mnt_text ms)) = map mnt_text ms" by (intro fgets_lines_complete) blast
  with assms(2,3) show ?thesis by (simp add: stream_lines_def)
qed

lemma acts_my_setmntent:
  assumes "memory_ok E" and "no_malloc P" and "\<not> P (FileCall (Fopen file mode))" and "\<And>tr. R (kern E tr (FileCall (Fopen file mode)))"
    and "\<And>r. R r \<Longrightarrow> acts P y cs (f (\<lparr>mntent_fp = rv r, mntent_file = file,
           mntent_lines = (if mode = ''r'' then stream_lines 4096 r else []),
           mntent_lineno = 0, mntent_errs = (rv r = 0), mntent_softerrs = 0, mntent_ferror = v1 r,
           mntent_eof = False\<rparr>, err r))"
  shows "acts P y cs (bind (my_setmntent E file mode) f)"
proof -
  have "acts P y ((if P (FileCall (Fopen file mode)) then [FileCall (Fopen file mode)] else []) @ cs)
      (bind (my_setmntent E file mode) f)"
    unfolding my_setmntent_def bind_assoc
    by (rule acts_quiet_bind [OF acts_xmalloc [OF assms(1,2)]], simp)
      (rule acts_bind_sysc [where R = R], rule assms(4), rule acts_quiet_bind [OF acts_xstrdup [OF assms(1,2)]],
        simp only: bind_ret, rule assms(5))
  with assms(3) show ?thesis by simp
qed

text \<open>Writing the new table.\<close>

lemma acts_end: "\<not> P (FileCall (Fclose (mntent_fp mf))) \<Longrightarrow> acts P () [] (my_endmntent E mf)"
  unfolding my_endmntent_def by (intro acts_quiet_whenp acts_quiet_sys)

lemma acts_report: "\<not> P (LogCall (Stderr [] (fmt E f args))) \<Longrightarrow> acts P () [] (whenp b (fprintf_err E f args))"
  unfolding fprintf_err_def by (intro acts_quiet_whenp acts_quiet_sys)

lemma acts_rewrite_mtab:
  assumes "memory_ok E" and "writable E h" and "mntent_fp mf = h" and "\<forall>m \<in> set ms. entry_ok m"
    and "\<not> mntent_errs mfp" and "mntent_softerrs mfp < ERR_MAX" and "mntent_lines mfp = map mnt_text ms"
  shows "acts (is_table_call h) ()
    (map (entry_call h) (filter (\<lambda>m. mnt_dir m \<noteq> dir) ms) @ [FileCall (Rename MOUNTED_TEMP MOUNTED)])
    (rewrite_mtab E dir None mfp mf)"
proof -
  let ?P = "is_table_call h" and ?c = "FileCall (Rename MOUNTED_TEMP MOUNTED)"
  have n: "length (mntent_lines mfp) = length ms" "mfp\<lparr>mntent_lines := map mnt_text ms\<rparr> = mfp"
    using assms(7) by simp_all
  have copy: "acts ?P (mfp\<lparr>mntent_lines := [], mntent_eof := True\<rparr>, 0 + length (filter (\<lambda>m. mnt_dir m = dir) ms))
      (map (entry_call h) (filter (\<lambda>m. mnt_dir m \<noteq> dir) ms))
      (copy_entries (Suc (length (mntent_lines mfp))) E dir None mfp mf 0)"
    using acts_copy_entries [OF assms(1-6), of 0 dir] unfolding n .
  have "acts ?P () ((if ?P ?c then [?c] else []) @ []) (bind (fsys E (Rename MOUNTED_TEMP MOUNTED)) (\<lambda>r.
      whenp (rv r < 0) (fprintf_err E ''can't rename %s to %s: %s''
        [AStr MOUNTED_TEMP, AStr MOUNTED, AInt (err r)])))"
    by (rule acts_bind_sysc [where R = "\<lambda>_. True"]) (simp_all add: acts_report)
  then have ren: "acts ?P () [?c] (bind (fsys E (Rename MOUNTED_TEMP MOUNTED)) (\<lambda>r.
      whenp (rv r < 0) (fprintf_err E ''can't rename %s to %s: %s''
        [AStr MOUNTED_TEMP, AStr MOUNTED, AInt (err r)])))" by simp
  have "acts ?P () ((if ?P (FileCall (Fchmod (mntent_fp mf))) then [FileCall (Fchmod (mntent_fp mf))] else []) @ [?c])
      (bind (fsys E (Fchmod (mntent_fp mf))) (\<lambda>c.
      andthen (whenp (rv c < 0) (fprintf_err E ''error changing mode of %s: %s'' [AStr MOUNTED_TEMP, AInt (err c)]))
     (andthen (my_endmntent E mf)
     (bind (fsys E (Rename MOUNTED_TEMP MOUNTED)) (\<lambda>r.
      whenp (rv r < 0) (fprintf_err E ''can't rename %s to %s: %s''
        [AStr MOUNTED_TEMP, AStr MOUNTED, AInt (err r)]))))))"
    by (rule acts_bind_sysc [where R = "\<lambda>_. True"], simp)
      (intro acts_quiet_andthen acts_report acts_end ren is_table_call.simps, simp_all add: acts_report acts_end)
  then have fin: "acts ?P () [?c] (bind (fsys E (Fchmod (mntent_fp mf))) (\<lambda>c.
      andthen (whenp (rv c < 0) (fprintf_err E ''error changing mode of %s: %s'' [AStr MOUNTED_TEMP, AInt (err c)]))
     (andthen (my_endmntent E mf)
     (bind (fsys E (Rename MOUNTED_TEMP MOUNTED)) (\<lambda>r.
      whenp (rv r < 0) (fprintf_err E ''can't rename %s to %s: %s''
        [AStr MOUNTED_TEMP, AStr MOUNTED, AInt (err r)]))))))" by simp
  show ?thesis
    unfolding rewrite_mtab_def
    by (rule acts_bind [OF copy], simp only: prod.case)
      (intro acts_quiet_andthen acts_quiet_whenp acts_end fin, simp_all add: acts_end acts_ret)
qed

lemma acts_copy_mtab:
  assumes "mtab_has E ms" and "temp_file E h"
  shows "acts (is_table_call h) ()
    (map (entry_call h) (filter (\<lambda>m. mnt_dir m \<noteq> dir) ms) @ [FileCall (Rename MOUNTED_TEMP MOUNTED)])
    (copy_mtab E dir None)"
proof -
  have mem: "memory_ok E" and ok: "\<forall>m \<in> set ms. entry_ok m \<and> length (mnt_text m) < 4096"
    and op: "\<And>tr. rv (kern E tr (FileCall (Fopen MOUNTED ''r''))) \<noteq> 0 \<and>
           dat (kern E tr (FileCall (Fopen MOUNTED ''r''))) = concat (map mnt_text ms) \<and>
           v1 (kern E tr (FileCall (Fopen MOUNTED ''r''))) = 0"
    using assms(1) by (simp_all add: mtab_has_def)
  have tmp: "h \<noteq> 0" "writable E h" "\<And>tr. rv (kern E tr (FileCall (Fopen MOUNTED_TEMP ''w''))) = h"
    using assms(2) by (simp_all add: temp_file_def)
  show ?thesis
    unfolding copy_mtab_def
    apply (rule acts_my_setmntent [where R = "\<lambda>r. rv r \<noteq> 0 \<and> dat r = concat (map mnt_text ms) \<and> v1 r = 0",
      OF mem no_malloc_table _ op], simp)
    apply (simp only: prod.case mntFILE.select_convs simp_thms if_False)
    apply (rule acts_my_setmntent [where R = "\<lambda>r. rv r = h", OF mem no_malloc_table _ tmp(3)], simp)
    apply (simp only: prod.case mntFILE.select_convs tmp(1) if_False)
    apply (rule acts_rewrite_mtab [OF mem tmp(2)])
    apply (use ok mtab_lines [OF ok] in \<open>simp_all add: ERR_MAX_def\<close>)
    done
qed

text \<open>C13. Removing a directory from \<^verbatim>\<open>/etc/mtab\<close>: the new table holds exactly the entries of
  the other directories, in their order, and replaces the old one once it is complete.\<close>

theorem update_mtab_removes:
  assumes "mtab_has E ms" and "mtab_regular E" and "mtab_lockable E" and "temp_file E h" and "mtab_flags_clear s"
  shows "\<exists>s'. update_mtab E dir None s = (Ret (), s') \<and>
     calls (is_table_call h) s' = calls (is_table_call h) s
       @ map (\<lambda>m. FileCall (Fprintf h (mnt_text m))) (filter (\<lambda>m. mnt_dir m \<noteq> dir) ms)
       @ [FileCall (Rename MOUNTED_TEMP MOUNTED)]"
proof -
  let ?P = "is_table_call h" and ?cs = "map (entry_call h) (filter (\<lambda>m. mnt_dir m \<noteq> dir) ms)
       @ [FileCall (Rename MOUNTED_TEMP MOUNTED)]"
  obtain s1 where 1: "mtab_does_not_exist E s = (Ret False, s1)" "mtab_flags_clear s1" "calls ?P s1 = calls ?P s"
    using mtab_present(1) [OF assms(2,5)] by blast
  obtain s2 where 2: "mtab_is_a_symlink E s1 = (Ret False, s2)" "mtab_flags_clear s2" "calls ?P s2 = calls ?P s"
    using mtab_present(2) [OF assms(2) 1(2), of h] 1(3) by auto
  obtain s3 where 3: "lock_mtab E s2 = (Ret (), s3)" "mtab_flags_clear s3" "calls ?P s3 = calls ?P s"
    using runs_calls [OF lock_mtab_runs [OF assms(3), where h = h] 2(2)] 2(3) by auto
  obtain es where 4: "copy_mtab E dir None s3 = (Ret (), s3\<lparr>trace := trace s3 @ es\<rparr>)" "filter ?P (map fst es) = ?cs"
    using acts_copy_mtab [OF assms(1,4)] by (rule actsE)
  let ?s4 = "s3\<lparr>trace := trace s3 @ es\<rparr>"
  obtain s5 where 5: "unlock_mtab E ?s4 = (Ret (), s5)" "calls ?P s5 = calls ?P ?s4"
    using runs_calls [OF unlock_mtab_runs [where h = h and E = E] flags_trace [OF 3(2), of "trace s3 @ es"]] by auto
  have "update_mtab E dir None s = (Ret (), s5)"
    unfolding update_mtab_def
    by (rule run_bind, rule 1(1), rule run_bind, simp only: if_False, rule 2(1), simp only: if_False,
        rule run_andthen, rule 3(1), rule run_andthen, rule 4(1), rule 5(1))
  with 3(3) 4(2) 5(2) show ?thesis by simp
qed

text \<open>A signal that arrives while the lock is held releases it.\<close>

lemma handler_releases:
  assumes "lock s \<noteq> - 1" and "\<not> old_lockfile s"
  shows "\<exists>e1 e2 r r'. handler E sig s = (Exit EX_USER, s\<lparr>trace := trace s @
    [e1, e2, (FileCall (Close (lock s)), r), (FileCall (Unlink MOUNTED_LOCK), r')]\<rparr>)"
proof -
  have "unlock_mtab E t = (Ret (), t\<lparr>trace := trace t @ [(FileCall (Close (lock t)), kern E (trace t) (FileCall (Close (lock t)))),
      (FileCall (Unlink MOUNTED_LOCK), kern E (trace t @ [(FileCall (Close (lock t)), kern E (trace t) (FileCall (Close (lock t))))])
        (FileCall (Unlink MOUNTED_LOCK)))]\<rparr>)" if "lock t = lock s" "old_lockfile t = old_lockfile s" for t :: "'a mnt_state_scheme"
    using that assms by (simp add: unlock_mtab_def whenp_def)
  then show ?thesis
    by (simp add: handler_def die_def fprintf_err_def andthen_apply_Ret del: split_paired_Ex) ((rule exI)+, rule refl)
qed

end
