(* ===== verification/Xdr.thy ===== *)
theory Xdr
  imports CLib
begin

text \<open>
  The messages of the mount protocol: \<^verbatim>\<open>src/nfsmount_xdr.c\<close> and the types of \<^verbatim>\<open>src/nfsmount.h\<close>.

  An XDR function of the C library works in the direction its stream was opened for. Here it is a
  pair of functions: \<open>enc\<close> gives the bytes that are sent (\<open>None\<close> when the C function returns
  \<open>FALSE\<close>), \<open>dec\<close> reads a value from received bytes and leaves the rest. The functions of the
  library that the source calls are modelled first, as RFC 4506 and the C library define them; memory
  for decoded values is assumed to be there. Values are decoded into structures that the callers have
  cleared. The third direction, freeing, is not modelled.
\<close>

record 'a xdrproc =
  enc :: "'a \<Rightarrow> string option"
  dec :: "string \<Rightarrow> ('a \<times> string) option"

section \<open>The library\<close>

subsection \<open>Numbers\<close>

definition int8 :: "int \<Rightarrow> int" where
  "int8 x = (x + 128) mod 256 - 128"

definition int16 :: "int \<Rightarrow> int" where
  "int16 x = (x + 32768) mod 65536 - 32768"

definition be32 :: "int \<Rightarrow> string" where
  "be32 n = map char_of [(n div 16777216) mod 256, (n div 65536) mod 256, (n div 256) mod 256, n mod 256]"

fun of_be32 :: "string \<Rightarrow> int" where
  "of_be32 (a # b # c # d # bs) =
     16777216 * of_char a + 65536 * of_char b + 256 * of_char c + of_char d"
| "of_be32 bs = 0"

definition xdr_word :: "(int \<Rightarrow> int) \<Rightarrow> int xdrproc" where
  "xdr_word conv = \<lparr>enc = (\<lambda>n. Some (be32 n)),
     dec = (\<lambda>bs. if length bs < 4 then None else Some (conv (of_be32 bs), drop 4 bs))\<rparr>"

definition xdr_int :: "int xdrproc" where "xdr_int = xdr_word int32"
definition xdr_u_int :: "int xdrproc" where "xdr_u_int = xdr_word (\<lambda>n. n)"
definition xdr_enum :: "int xdrproc" where "xdr_enum = xdr_int"
definition xdr_short :: "int xdrproc" where "xdr_short = xdr_word int16"
definition xdr_char :: "int xdrproc" where "xdr_char = xdr_word int8"
definition xdr_u_char :: "int xdrproc" where "xdr_u_char = xdr_word (\<lambda>n. n mod 256)"

definition xdr_bool :: "bool xdrproc" where
  "xdr_bool = \<lparr>enc = (\<lambda>b. enc xdr_int (if b then 1 else 0)),
     dec = (\<lambda>bs. map_option (\<lambda>(n, r). (n \<noteq> 0, r)) (dec xdr_int bs))\<rparr>"

definition xdr_void :: "unit xdrproc" where
  "xdr_void = \<lparr>enc = (\<lambda>_. Some []), dec = (\<lambda>bs. Some ((), bs))\<rparr>"

subsection \<open>Bytes\<close>

text \<open>Opaque data are filled up with zeros to a multiple of four bytes.\<close>

definition roundup :: "nat \<Rightarrow> nat" where
  "roundup n = (n + 3) div 4 * 4"

definition xdr_opaque :: "nat \<Rightarrow> string xdrproc" where
  "xdr_opaque cnt = \<lparr>enc = (\<lambda>x. if length x = cnt then Some (x @ replicate (roundup cnt - cnt) NUL) else None),
     dec = (\<lambda>bs. if length bs < roundup cnt then None else Some (take cnt bs, drop (roundup cnt) bs))\<rparr>"

definition xdr_bytes :: "nat \<Rightarrow> string xdrproc" where
  "xdr_bytes maxsize = \<lparr>enc = (\<lambda>x. if length x > maxsize then None
        else map_option (\<lambda>d. be32 (int (length x)) @ d) (enc (xdr_opaque (length x)) x)),
     dec = (\<lambda>bs. case dec xdr_u_int bs of
        None \<Rightarrow> None
      | Some (n, r) \<Rightarrow> if n > int maxsize then None else dec (xdr_opaque (nat n)) r)\<rparr>"

text \<open>A string ends at its first null byte, when it is sent and when it has been received.\<close>

definition xdr_string :: "nat \<Rightarrow> string xdrproc" where
  "xdr_string maxsize = \<lparr>enc = (\<lambda>x. enc (xdr_bytes maxsize) (cstr x)),
     dec = (\<lambda>bs. map_option (\<lambda>(x, r). (cstr x, r)) (dec (xdr_bytes maxsize) bs))\<rparr>"

subsection \<open>Sequences and pointers\<close>

fun enc_many :: "'a xdrproc \<Rightarrow> 'a list \<Rightarrow> string option" where
  "enc_many p [] = Some []"
| "enc_many p (x # xs) =
     (case enc p x of None \<Rightarrow> None | Some b \<Rightarrow> map_option (\<lambda>bs. b @ bs) (enc_many p xs))"

fun dec_many :: "'a xdrproc \<Rightarrow> nat \<Rightarrow> string \<Rightarrow> ('a list \<times> string) option" where
  "dec_many p 0 bs = Some ([], bs)"
| "dec_many p (Suc n) bs =
     (case dec p bs of None \<Rightarrow> None | Some (x, r) \<Rightarrow> map_option (\<lambda>(xs, r'). (x # xs, r')) (dec_many p n r))"

definition xdr_array :: "int \<Rightarrow> int \<Rightarrow> 'a xdrproc \<Rightarrow> 'a list xdrproc" where
  "xdr_array maxsize elsize p = \<lparr>enc = (\<lambda>xs. let c = int (length xs) in
        if c > maxsize \<or> (2 ^ 32 - 1) div elsize < c then None
        else map_option (\<lambda>bs. be32 c @ bs) (enc_many p xs)),
     dec = (\<lambda>bs. case dec xdr_u_int bs of
        None \<Rightarrow> None
      | Some (c, r) \<Rightarrow> if c > maxsize \<or> (2 ^ 32 - 1) div elsize < c then None else dec_many p (nat c) r)\<rparr>"

text \<open>\<open>xdr_vector\<close>: a known number of elements.\<close>

definition xdr_vector :: "nat \<Rightarrow> 'a xdrproc \<Rightarrow> 'a list xdrproc" where
  "xdr_vector n p = \<lparr>enc = (\<lambda>xs. if length xs = n then enc_many p xs else None), dec = dec_many p n\<rparr>"

text \<open>Two calls in sequence, and a view of a structure as a tuple of its members.\<close>

definition xdr_then :: "'a xdrproc \<Rightarrow> 'b xdrproc \<Rightarrow> ('a \<times> 'b) xdrproc" where
  "xdr_then p q = \<lparr>enc = (\<lambda>(x, y). case enc p x of None \<Rightarrow> None | Some a \<Rightarrow> map_option (\<lambda>b. a @ b) (enc q y)),
     dec = (\<lambda>bs. case dec p bs of None \<Rightarrow> None | Some (x, r) \<Rightarrow> map_option (\<lambda>(y, r'). ((x, y), r')) (dec q r))\<rparr>"

definition xdr_members :: "('r \<Rightarrow> 'a) \<Rightarrow> ('a \<Rightarrow> 'r) \<Rightarrow> 'a xdrproc \<Rightarrow> 'r xdrproc" where
  "xdr_members sel mk p = \<lparr>enc = (\<lambda>r. enc p (sel r)), dec = (\<lambda>bs. map_option (\<lambda>(x, rest). (mk x, rest)) (dec p bs))\<rparr>"

text \<open>\<open>xdr_pointer\<close> to a structure that ends with a pointer of the same kind: a linked list. Every
  cell is announced by a true value; the length of the input bounds the cells that can be read.\<close>

fun enc_chain :: "'a xdrproc \<Rightarrow> 'a list \<Rightarrow> string option" where
  "enc_chain p [] = enc xdr_bool False"
| "enc_chain p (x # xs) =
     (case enc xdr_bool True of None \<Rightarrow> None
      | Some a \<Rightarrow> (case enc p x of None \<Rightarrow> None | Some b \<Rightarrow> map_option (\<lambda>c. a @ b @ c) (enc_chain p xs)))"

fun dec_chain :: "nat \<Rightarrow> 'a xdrproc \<Rightarrow> string \<Rightarrow> ('a list \<times> string) option" where
  "dec_chain 0 p bs = None"
| "dec_chain (Suc n) p bs =
     (case dec xdr_bool bs of
        None \<Rightarrow> None
      | Some (False, r) \<Rightarrow> Some ([], r)
      | Some (True, r) \<Rightarrow>
          (case dec p r of None \<Rightarrow> None
           | Some (x, r') \<Rightarrow> map_option (\<lambda>(xs, r''). (x # xs, r'')) (dec_chain n p r')))"

definition xdr_chain :: "'a xdrproc \<Rightarrow> 'a list xdrproc" where
  "xdr_chain p = \<lparr>enc = enc_chain p, dec = (\<lambda>bs. dec_chain (Suc (length bs)) p bs)\<rparr>"

section \<open>The mount protocol\<close>

definition MNTPATHLEN :: nat where "MNTPATHLEN = 1024"
definition MNTNAMLEN :: nat where "MNTNAMLEN = 255"
definition FHSIZE :: nat where "FHSIZE = 32"
definition FHSIZE3 :: nat where "FHSIZE3 = 64"
definition MNT_OK :: int where "MNT_OK = 0"

type_synonym fhandle = string
type_synonym fhandle3 = string
type_synonym dirpath = string

record fhstatus =
  fhs_status :: int
  fhs_fhandle :: fhandle

record mountres3_ok =
  fhandle3_of :: fhandle3
  auth_flavours :: "int list"

record mountres3 =
  fhs_status3 :: int
  mountinfo :: mountres3_ok

record mountbody =
  ml_hostname :: string
  ml_directory :: dirpath

record groupnode =
  gr_name :: string

record exportnode =
  ex_dir :: dirpath
  ex_groups :: "groupnode list"

record ppathcnf =
  pc_link_max :: int
  pc_max_canon :: int
  pc_max_input :: int
  pc_name_max :: int
  pc_path_max :: int
  pc_pipe_buf :: int
  pc_vdisable :: int
  pc_xxx :: int
  pc_mask :: "int list"

definition xdr_fhandle :: "fhandle xdrproc" where
  "xdr_fhandle = xdr_opaque FHSIZE"

definition xdr_fhandle3 :: "fhandle3 xdrproc" where
  "xdr_fhandle3 = xdr_bytes FHSIZE3"

definition xdr_mountstat3 :: "int xdrproc" where
  "xdr_mountstat3 = xdr_enum"

text \<open>A structure with a union: the second member is there for one value of the first only, and
  cleared otherwise.\<close>

definition xdr_union :: "int xdrproc \<Rightarrow> int \<Rightarrow> 'b \<Rightarrow> 'b xdrproc \<Rightarrow> (int \<times> 'b) xdrproc" where
  "xdr_union d tag cleared p = \<lparr>
     enc = (\<lambda>(s, x). case enc d s of None \<Rightarrow> None
       | Some a \<Rightarrow> if s = tag then map_option (\<lambda>b. a @ b) (enc p x) else Some a),
     dec = (\<lambda>bs. case dec d bs of None \<Rightarrow> None
       | Some (s, r) \<Rightarrow> if s = tag then map_option (\<lambda>(x, r'). ((s, x), r')) (dec p r) else Some ((s, cleared), r))\<rparr>"

definition xdr_fhstatus :: "fhstatus xdrproc" where
  "xdr_fhstatus = xdr_members (\<lambda>r. (fhs_status r, fhs_fhandle r)) (\<lambda>(s, h). \<lparr>fhs_status = s, fhs_fhandle = h\<rparr>)
     (xdr_union xdr_u_int 0 (replicate FHSIZE NUL) xdr_fhandle)"

definition xdr_mountres3_ok :: "mountres3_ok xdrproc" where
  "xdr_mountres3_ok = xdr_members (\<lambda>r. (fhandle3_of r, auth_flavours r)) (\<lambda>(h, fs). \<lparr>fhandle3_of = h, auth_flavours = fs\<rparr>)
     (xdr_then xdr_fhandle3 (xdr_array 4294967295 4 xdr_int))"

definition xdr_mountres3 :: "mountres3 xdrproc" where
  "xdr_mountres3 = xdr_members (\<lambda>r. (fhs_status3 r, mountinfo r)) (\<lambda>(s, i). \<lparr>fhs_status3 = s, mountinfo = i\<rparr>)
     (xdr_union xdr_mountstat3 MNT_OK \<lparr>fhandle3_of = [], auth_flavours = []\<rparr> xdr_mountres3_ok)"

definition xdr_dirpath :: "dirpath xdrproc" where
  "xdr_dirpath = xdr_string MNTPATHLEN"

definition xdr_name :: "string xdrproc" where
  "xdr_name = xdr_string MNTNAMLEN"

definition xdr_mountbody :: "mountbody xdrproc" where
  "xdr_mountbody = xdr_members (\<lambda>r. (ml_hostname r, ml_directory r)) (\<lambda>(h, d). \<lparr>ml_hostname = h, ml_directory = d\<rparr>)
     (xdr_then xdr_name xdr_dirpath)"

definition xdr_mountlist :: "mountbody list xdrproc" where
  "xdr_mountlist = xdr_chain xdr_mountbody"

definition xdr_groupnode :: "groupnode xdrproc" where
  "xdr_groupnode = xdr_members gr_name (\<lambda>n. \<lparr>gr_name = n\<rparr>) xdr_name"

definition xdr_groups :: "groupnode list xdrproc" where
  "xdr_groups = xdr_chain xdr_groupnode"

definition xdr_exportnode :: "exportnode xdrproc" where
  "xdr_exportnode = xdr_members (\<lambda>r. (ex_dir r, ex_groups r)) (\<lambda>(d, g). \<lparr>ex_dir = d, ex_groups = g\<rparr>)
     (xdr_then xdr_dirpath xdr_groups)"

definition xdr_exports :: "exportnode list xdrproc" where
  "xdr_exports = xdr_chain xdr_exportnode"

text \<open>\<open>XDR_INLINE\<close> gives a pointer into the stream, or a null pointer when the stream has no buffer
  with as many bytes; \<open>i1\<close> and \<open>i2\<close> say what the two calls of it give. With a buffer the members are stored
  by macros, without one by function calls.\<close>

definition IXDR_PUT :: "int list \<Rightarrow> string" where
  "IXDR_PUT ns = concat (map be32 ns)"

fun IXDR_GET :: "nat \<Rightarrow> string \<Rightarrow> int list" where
  "IXDR_GET 0 bs = []"
| "IXDR_GET (Suc n) bs = of_be32 bs # IXDR_GET n (drop 4 bs)"

definition xdr_limits :: "(int \<times> int list) xdrproc" where
  "xdr_limits = xdr_then xdr_int (xdr_vector 5 xdr_short)"

definition inline_limits :: "(int \<times> int list) xdrproc" where
  "inline_limits = \<lparr>
     enc = (\<lambda>(l, ss). if length ss = 5 then Some (IXDR_PUT (l # ss)) else None),
     dec = (\<lambda>bs. if length bs < 24 then None else
       (case IXDR_GET 6 bs of [] \<Rightarrow> None | l # ss \<Rightarrow> Some ((int32 l, map int16 ss), drop 24 bs)))\<rparr>"

definition inline_mask :: "int list xdrproc" where
  "inline_mask = \<lparr>
     enc = (\<lambda>ss. if length ss = 2 then Some (IXDR_PUT ss) else None),
     dec = (\<lambda>bs. if length bs < 8 then None else Some (map int16 (IXDR_GET 2 bs), drop 8 bs))\<rparr>"

definition ppathcnf_members :: "ppathcnf \<Rightarrow> (int \<times> int list) \<times> int \<times> int \<times> int list" where
  "ppathcnf_members p = ((pc_link_max p, [pc_max_canon p, pc_max_input p, pc_name_max p, pc_path_max p, pc_pipe_buf p]),
     pc_vdisable p, pc_xxx p, pc_mask p)"

fun ppathcnf_of :: "(int \<times> int list) \<times> int \<times> int \<times> int list \<Rightarrow> ppathcnf" where
  "ppathcnf_of ((l, ss), v, x, m) = \<lparr>pc_link_max = l, pc_max_canon = ss ! 0, pc_max_input = ss ! 1, pc_name_max = ss ! 2,
     pc_path_max = ss ! 3, pc_pipe_buf = ss ! 4, pc_vdisable = v, pc_xxx = x, pc_mask = m\<rparr>"

definition xdr_ppathcnf :: "bool \<Rightarrow> bool \<Rightarrow> ppathcnf xdrproc" where
  "xdr_ppathcnf i1 i2 = xdr_members ppathcnf_members ppathcnf_of
     (xdr_then (if i1 then inline_limits else xdr_limits)
     (xdr_then xdr_u_char
     (xdr_then xdr_char
     (if i2 then inline_mask else xdr_vector 2 xdr_short))))"

section \<open>What a message function promises\<close>

text \<open>The contract: every admissible value can be sent, in whole units of four bytes, and is read back
  whatever bytes follow.\<close>

locale xdr_codec =
  fixes p :: "'a xdrproc"
    and ok :: "'a \<Rightarrow> bool"
  assumes sends: "ok x \<Longrightarrow> \<exists>bs. enc p x = Some bs \<and> 4 dvd length bs"
    and receives: "ok x \<Longrightarrow> enc p x = Some bs \<Longrightarrow> dec p (bs @ rest) = Some (x, rest)"
begin

lemma encE:
  assumes "ok x"
  obtains bs where "enc p x = Some bs" and "4 dvd length bs" and "\<And>rest. dec p (bs @ rest) = Some (x, rest)"
  using sends [OF assms] receives [OF assms] by blast

lemma roundtrip:
  assumes "ok x"
  shows "\<exists>bs. enc p x = Some bs \<and> 4 dvd length bs \<and> dec p (bs @ rest) = Some (x, rest)"
  using assms by (rule encE) blast

text \<open>No message is the beginning of another, so messages can follow each other on a stream.\<close>

lemma prefix_free:
  assumes "ok x" and "ok y" and "enc p x = Some bs" and "enc p y = Some (bs @ rest)"
  shows "x = y"
  using receives [OF assms(1,3), of rest] receives [OF assms(2,4), of "[]"] by simp

end

subsection \<open>Numbers\<close>

lemma of_be32_be32: "of_be32 (be32 n @ rest) = uint32 n"
proof -
  have c: "of_char (char_of (k mod 256) :: char) = k mod 256" for k :: int
    by (simp add: of_char_of)
  have 1: "n mod 4294967296 = 16777216 * (n div 16777216 mod 256) + n mod 16777216"
    using zmod_zmult2_eq [of 256 n 16777216] by simp
  have 2: "n mod 16777216 = 65536 * (n div 65536 mod 256) + n mod 65536"
    using zmod_zmult2_eq [of 256 n 65536] by simp
  have 3: "n mod 65536 = 256 * (n div 256 mod 256) + n mod 256"
    using zmod_zmult2_eq [of 256 n 256] by simp
  have "n mod 4294967296 = 16777216 * (n div 16777216 mod 256) + (65536 * (n div 65536 mod 256) +
      (256 * (n div 256 mod 256) + n mod 256))"
    by (simp only: 1 2 3)
  then show ?thesis unfolding be32_def uint32_def by (simp only: list.map append.simps of_be32.simps c add.assoc)
qed

lemma length_be32 [simp]: "length (be32 n) = 4"
  by (simp add: be32_def)

lemma xdr_word_codec:
  assumes "\<And>n. ok n \<Longrightarrow> conv (uint32 n) = n"
  shows "xdr_codec (xdr_word conv) ok"
  by unfold_locales (auto simp: xdr_word_def of_be32_be32 assms)

abbreviation fits :: "int \<Rightarrow> int \<Rightarrow> int \<Rightarrow> bool" where
  "fits lo hi n \<equiv> lo \<le> n \<and> n \<le> hi"

lemma wrap_id: "fits (- b) (b - 1) n \<Longrightarrow> (n mod (2 * b * m) + b) mod (2 * b) - b = (n :: int)"
proof -
  assume "fits (- b) (b - 1) n"
  have "(n mod (2 * b * m) + b) mod (2 * b) = (n mod (2 * b * m) mod (2 * b) + b) mod (2 * b)"
    by (simp only: mod_add_left_eq)
  also have "\<dots> = (n + b) mod (2 * b)" by (simp add: mod_mod_cancel mod_add_left_eq)
  also have "\<dots> = n + b" using \<open>fits (- b) (b - 1) n\<close> by simp
  finally show ?thesis by simp
qed

interpretation int_msg: xdr_codec xdr_int "fits INT_MIN INT_MAX"
  unfolding xdr_int_def
  by (rule xdr_word_codec) (use wrap_id [of 2147483648 _ 1] in \<open>simp add: int32_def uint32_def int_limits\<close>)

interpretation u_int_msg: xdr_codec xdr_u_int "fits 0 4294967295"
  unfolding xdr_u_int_def by (rule xdr_word_codec) simp

interpretation short_msg: xdr_codec xdr_short "fits (- 32768) 32767"
  unfolding xdr_short_def
  by (rule xdr_word_codec) (use wrap_id [of 32768 _ 65536] in \<open>simp add: int16_def uint32_def\<close>)

interpretation char_msg: xdr_codec xdr_char "fits (- 128) 127"
  unfolding xdr_char_def
  by (rule xdr_word_codec) (use wrap_id [of 128 _ 16777216] in \<open>simp add: int8_def uint32_def\<close>)

interpretation u_char_msg: xdr_codec xdr_u_char "fits 0 255"
  unfolding xdr_u_char_def by (rule xdr_word_codec) simp

subsection \<open>Bytes and strings\<close>

lemma roundup_props: "n \<le> roundup n" "4 dvd roundup n"
  unfolding roundup_def by linarith simp

lemma opaque_codec: "xdr_codec (xdr_opaque n) (\<lambda>x. length x = n)"
  using roundup_props [of n] by unfold_locales (auto simp: xdr_opaque_def)

lemma bytes_codec:
  assumes "maxsize \<le> 4294967295"
  shows "xdr_codec (xdr_bytes maxsize) (\<lambda>x. length x \<le> maxsize)"
proof
  fix x :: string and bs rest
  assume x: "length x \<le> maxsize"
  obtain d where d: "enc (xdr_opaque (length x)) x = Some d" "4 dvd length d"
    "\<And>rest. dec (xdr_opaque (length x)) (d @ rest) = Some (x, rest)"
    by (rule xdr_codec.encE [OF opaque_codec refl]) blast
  with x show "\<exists>bs. enc (xdr_bytes maxsize) x = Some bs \<and> 4 dvd length bs" by (simp add: xdr_bytes_def)
  assume "enc (xdr_bytes maxsize) x = Some bs"
  with x d have "bs = be32 (int (length x)) @ d" by (simp add: xdr_bytes_def)
  moreover have "dec xdr_u_int (be32 (int (length x)) @ d @ rest) = Some (int (length x), d @ rest)"
    using x assms u_int_msg.receives [of "int (length x)" "be32 (int (length x))" "d @ rest"]
    by (simp add: xdr_u_int_def xdr_word_def)
  ultimately show "dec (xdr_bytes maxsize) (bs @ rest) = Some (x, rest)"
    using x d(3) by (simp add: xdr_bytes_def)
qed

lemma string_codec:
  assumes "maxsize \<le> 4294967295"
  shows "xdr_codec (xdr_string maxsize) (\<lambda>x. length x \<le> maxsize \<and> NUL \<notin> set x)"
  using xdr_codec.sends [OF bytes_codec [OF assms]] xdr_codec.receives [OF bytes_codec [OF assms]]
  by unfold_locales (auto simp: xdr_string_def cstr_id)

subsection \<open>Combinations\<close>

lemma then_codec:
  assumes "xdr_codec p A" and "xdr_codec q B"
  shows "xdr_codec (xdr_then p q) (\<lambda>(x, y). A x \<and> B y)"
proof
  fix z :: "'a \<times> 'b" and bs rest
  assume "case z of (x, y) \<Rightarrow> A x \<and> B y"
  then obtain x y where z: "z = (x, y)" "A x" "B y" by (cases z) auto
  obtain a where a: "enc p x = Some a" "4 dvd length a" "\<And>r. dec p (a @ r) = Some (x, r)"
    by (rule xdr_codec.encE [OF assms(1) z(2)]) blast
  obtain b where b: "enc q y = Some b" "4 dvd length b" "\<And>r. dec q (b @ r) = Some (y, r)"
    by (rule xdr_codec.encE [OF assms(2) z(3)]) blast
  show "\<exists>bs. enc (xdr_then p q) z = Some bs \<and> 4 dvd length bs" using z a b by (simp add: xdr_then_def)
  assume "enc (xdr_then p q) z = Some bs"
  then show "dec (xdr_then p q) (bs @ rest) = Some (z, rest)" using z a b by (auto simp: xdr_then_def)
qed

lemma members_codec:
  assumes "xdr_codec p A" and "\<And>r. ok r \<Longrightarrow> A (sel r) \<and> mk (sel r) = r"
  shows "xdr_codec (xdr_members sel mk p) ok"
  using xdr_codec.sends [OF assms(1)] xdr_codec.receives [OF assms(1)] assms(2)
  by unfold_locales (fastforce simp: xdr_members_def)+

lemma union_codec:
  assumes "xdr_codec d A" and "xdr_codec p B"
  shows "xdr_codec (xdr_union d tag cleared p) (\<lambda>(s, x). A s \<and> (if s = tag then B x else x = cleared))"
proof
  fix z :: "int \<times> 'a" and bs rest
  assume "case z of (s, x) \<Rightarrow> A s \<and> (if s = tag then B x else x = cleared)"
  then obtain s x where z: "z = (s, x)" "A s" "if s = tag then B x else x = cleared" by (cases z) auto
  obtain a where a: "enc d s = Some a" "4 dvd length a" "\<And>r. dec d (a @ r) = Some (s, r)"
    by (rule xdr_codec.encE [OF assms(1) z(2)]) blast
  have "(\<exists>bs. enc (xdr_union d tag cleared p) z = Some bs \<and> 4 dvd length bs) \<and>
      (enc (xdr_union d tag cleared p) z = Some bs \<longrightarrow> dec (xdr_union d tag cleared p) (bs @ rest) = Some (z, rest))"
  proof (cases "s = tag")
    case True
    with z have "B x" by simp
    then obtain b where "enc p x = Some b" "4 dvd length b" "\<And>r. dec p (b @ r) = Some (x, r)"
      by (rule xdr_codec.encE [OF assms(2)]) blast
    with True z a show ?thesis by (auto simp: xdr_union_def)
  next
    case False
    with z a show ?thesis by (auto simp: xdr_union_def)
  qed
  then show "\<exists>bs. enc (xdr_union d tag cleared p) z = Some bs \<and> 4 dvd length bs"
    and "enc (xdr_union d tag cleared p) z = Some bs \<Longrightarrow> dec (xdr_union d tag cleared p) (bs @ rest) = Some (z, rest)"
    by blast+
qed

lemma many_codec:
  assumes "xdr_codec p A"
  shows "list_all A xs \<Longrightarrow> \<exists>bs. enc_many p xs = Some bs \<and> 4 dvd length bs \<and>
     (\<forall>rest. dec_many p (length xs) (bs @ rest) = Some (xs, rest))"
proof (induction xs)
  case (Cons x xs)
  then obtain bs where bs: "enc_many p xs = Some bs" "4 dvd length bs"
    "\<And>rest. dec_many p (length xs) (bs @ rest) = Some (xs, rest)" by auto
  from Cons.prems obtain a where "enc p x = Some a" "4 dvd length a" "\<And>r. dec p (a @ r) = Some (x, r)"
    by (auto elim: xdr_codec.encE [OF assms])
  with bs show ?case by simp
qed simp

lemma array_codec:
  assumes "xdr_codec p A"
  shows "xdr_codec (xdr_array 4294967295 4 p) (\<lambda>xs. list_all A xs \<and> length xs \<le> 1073741823)"
proof
  fix xs :: "'a list" and bs rest
  assume xs: "list_all A xs \<and> length xs \<le> 1073741823"
  with many_codec [OF assms] obtain b where b: "enc_many p xs = Some b" "4 dvd length b"
    "\<And>rest. dec_many p (length xs) (b @ rest) = Some (xs, rest)" by blast
  with xs show "\<exists>bs. enc (xdr_array 4294967295 4 p) xs = Some bs \<and> 4 dvd length bs"
    by (simp add: xdr_array_def)
  assume "enc (xdr_array 4294967295 4 p) xs = Some bs"
  with xs b have "bs = be32 (int (length xs)) @ b" by (simp add: xdr_array_def Let_def)
  moreover have "dec xdr_u_int (be32 (int (length xs)) @ b @ rest) = Some (int (length xs), b @ rest)"
    using xs u_int_msg.receives [of "int (length xs)" "be32 (int (length xs))" "b @ rest"]
    by (simp add: xdr_u_int_def xdr_word_def)
  ultimately show "dec (xdr_array 4294967295 4 p) (bs @ rest) = Some (xs, rest)"
    using xs b(3) by (simp add: xdr_array_def)
qed

lemma vector_codec:
  assumes "xdr_codec p A"
  shows "xdr_codec (xdr_vector n p) (\<lambda>xs. list_all A xs \<and> length xs = n)"
  using many_codec [OF assms] by unfold_locales (force simp: xdr_vector_def)+

lemma bool_codec: "xdr_codec xdr_bool (\<lambda>b. True)"
  by unfold_locales
    (auto simp: xdr_bool_def xdr_int_def xdr_word_def of_be32_be32 int32_def uint32_def split: if_splits)

lemma chain_codec:
  assumes "xdr_codec p A"
  shows "list_all A xs \<Longrightarrow> \<exists>bs. enc_chain p xs = Some bs \<and> 4 dvd length bs \<and> 4 * length xs < length bs \<and>
     (\<forall>rest n. length xs < n \<longrightarrow> dec_chain n p (bs @ rest) = Some (xs, rest))"
proof (induction xs)
  case Nil
  obtain f where "enc xdr_bool False = Some f" "4 dvd length f" "\<And>r. dec xdr_bool (f @ r) = Some (False, r)"
    by (rule xdr_codec.encE [OF bool_codec TrueI]) blast
  moreover have "length f = 4" using calculation(1) by (auto simp: xdr_bool_def xdr_int_def xdr_word_def)
  moreover have "dec_chain n p (f @ rest) = Some ([], rest)" if "0 < n" for n rest
    using that calculation(3) by (cases n) simp_all
  ultimately show ?case by auto
next
  case (Cons x xs)
  then obtain bs where bs: "enc_chain p xs = Some bs" "4 dvd length bs" "4 * length xs < length bs"
    "\<And>rest n. length xs < n \<Longrightarrow> dec_chain n p (bs @ rest) = Some (xs, rest)" by auto
  obtain t where t: "enc xdr_bool True = Some t" "4 dvd length t" "\<And>r. dec xdr_bool (t @ r) = Some (True, r)"
    by (rule xdr_codec.encE [OF bool_codec TrueI]) blast
  then have "length t = 4" by (auto simp: xdr_bool_def xdr_int_def xdr_word_def)
  moreover from Cons.prems obtain a where a: "enc p x = Some a" "4 dvd length a" "\<And>r. dec p (a @ r) = Some (x, r)"
    by (auto elim: xdr_codec.encE [OF assms])
  moreover have "dec_chain n p (t @ a @ bs @ rest) = Some (x # xs, rest)" if "length (x # xs) < n" for n rest
    using that t(3) a(3) bs(4) by (cases n) simp_all
  ultimately show ?case using bs t(1) by simp
qed

lemma xdr_chain_codec:
  assumes "xdr_codec p A"
  shows "xdr_codec (xdr_chain p) (list_all A)"
proof
  fix xs bs rest
  assume "list_all A xs"
  with chain_codec [OF assms] obtain b where b: "enc_chain p xs = Some b" "4 dvd length b" "4 * length xs < length b"
    "\<And>rest n. length xs < n \<Longrightarrow> dec_chain n p (b @ rest) = Some (xs, rest)" by blast
  then show "\<exists>bs. enc (xdr_chain p) xs = Some bs \<and> 4 dvd length bs" by (simp add: xdr_chain_def)
  assume "enc (xdr_chain p) xs = Some bs"
  with b show "dec (xdr_chain p) (bs @ rest) = Some (xs, rest)" by (simp add: xdr_chain_def del: dec_chain.simps)
qed

subsection \<open>The messages\<close>

definition path_ok :: "nat \<Rightarrow> string \<Rightarrow> bool" where
  "path_ok n x \<longleftrightarrow> length x \<le> n \<and> NUL \<notin> set x"

definition mountbody_ok :: "mountbody \<Rightarrow> bool" where
  "mountbody_ok m \<longleftrightarrow> path_ok MNTNAMLEN (ml_hostname m) \<and> path_ok MNTPATHLEN (ml_directory m)"

definition exportnode_ok :: "exportnode \<Rightarrow> bool" where
  "exportnode_ok e \<longleftrightarrow> path_ok MNTPATHLEN (ex_dir e) \<and> list_all (\<lambda>g. path_ok MNTNAMLEN (gr_name g)) (ex_groups e)"

definition fhstatus_ok :: "fhstatus \<Rightarrow> bool" where
  "fhstatus_ok r \<longleftrightarrow> fits 0 4294967295 (fhs_status r) \<and>
     (if fhs_status r = 0 then length (fhs_fhandle r) = FHSIZE else fhs_fhandle r = replicate FHSIZE NUL)"

definition mountinfo_ok :: "mountres3_ok \<Rightarrow> bool" where
  "mountinfo_ok i \<longleftrightarrow> length (fhandle3_of i) \<le> FHSIZE3 \<and> list_all (fits INT_MIN INT_MAX) (auth_flavours i) \<and>
     length (auth_flavours i) \<le> 1073741823"

definition mountres3_valid :: "mountres3 \<Rightarrow> bool" where
  "mountres3_valid r \<longleftrightarrow> fits INT_MIN INT_MAX (fhs_status3 r) \<and>
     (if fhs_status3 r = MNT_OK then mountinfo_ok (mountinfo r)
      else mountinfo r = \<lparr>fhandle3_of = [], auth_flavours = []\<rparr>)"

interpretation dirpath_msg: xdr_codec xdr_dirpath "path_ok MNTPATHLEN"
  unfolding xdr_dirpath_def path_ok_def [abs_def] by (rule string_codec) (simp add: MNTPATHLEN_def)

interpretation name_msg: xdr_codec xdr_name "path_ok MNTNAMLEN"
  unfolding xdr_name_def path_ok_def [abs_def] by (rule string_codec) (simp add: MNTNAMLEN_def)

interpretation fhandle3_msg: xdr_codec xdr_fhandle3 "\<lambda>h. length h \<le> FHSIZE3"
  unfolding xdr_fhandle3_def by (rule bytes_codec) (simp add: FHSIZE3_def)

interpretation fhstatus_msg: xdr_codec xdr_fhstatus fhstatus_ok
  unfolding xdr_fhstatus_def xdr_fhandle_def
  by (rule members_codec [OF union_codec [OF u_int_msg.xdr_codec_axioms opaque_codec]]) (auto simp: fhstatus_ok_def)

interpretation mountbody_msg: xdr_codec xdr_mountbody mountbody_ok
  unfolding xdr_mountbody_def
  by (rule members_codec [OF then_codec [OF name_msg.xdr_codec_axioms dirpath_msg.xdr_codec_axioms]])
    (simp add: mountbody_ok_def)

interpretation mountlist_msg: xdr_codec xdr_mountlist "list_all mountbody_ok"
  unfolding xdr_mountlist_def by (rule xdr_chain_codec) (rule mountbody_msg.xdr_codec_axioms)

interpretation groups_msg: xdr_codec xdr_groups "list_all (\<lambda>g. path_ok MNTNAMLEN (gr_name g))"
  unfolding xdr_groups_def xdr_groupnode_def
  by (rule xdr_chain_codec, rule members_codec [OF name_msg.xdr_codec_axioms]) simp

interpretation exports_msg: xdr_codec xdr_exports "list_all exportnode_ok"
  unfolding xdr_exports_def xdr_exportnode_def
  by (rule xdr_chain_codec, rule members_codec [OF then_codec [OF dirpath_msg.xdr_codec_axioms groups_msg.xdr_codec_axioms]])
    (simp add: exportnode_ok_def)

interpretation mountinfo_msg: xdr_codec xdr_mountres3_ok mountinfo_ok
  unfolding xdr_mountres3_ok_def
  by (rule members_codec [OF then_codec [OF fhandle3_msg.xdr_codec_axioms array_codec [OF int_msg.xdr_codec_axioms]]]) (simp add: mountinfo_ok_def)

interpretation mountres3_msg: xdr_codec xdr_mountres3 mountres3_valid
  unfolding xdr_mountres3_def xdr_mountstat3_def xdr_enum_def
  by (rule members_codec [OF union_codec [OF int_msg.xdr_codec_axioms mountinfo_msg.xdr_codec_axioms]])
    (auto simp: mountres3_valid_def)

text \<open>C25. What a mount server sends is what the client reads: a file handle of either version of the
  protocol, the list of mounts and the list of exports, for every admissible value and whatever follows on
  the stream; every message consists of whole four-byte units.\<close>

theorem mount_messages_roundtrip:
  assumes "fhstatus_ok fh" and "mountres3_valid res" and "list_all mountbody_ok ms" and "list_all exportnode_ok es"
  shows "\<exists>b1 b2 b3 b4. enc xdr_fhstatus fh = Some b1 \<and> dec xdr_fhstatus (b1 @ rest) = Some (fh, rest) \<and>
     enc xdr_mountres3 res = Some b2 \<and> dec xdr_mountres3 (b2 @ rest) = Some (res, rest) \<and>
     enc xdr_mountlist ms = Some b3 \<and> dec xdr_mountlist (b3 @ rest) = Some (ms, rest) \<and>
     enc xdr_exports es = Some b4 \<and> dec xdr_exports (b4 @ rest) = Some (es, rest) \<and>
     4 dvd length (b1 @ b2 @ b3 @ b4)"
proof -
  obtain b1 where 1: "enc xdr_fhstatus fh = Some b1" "4 dvd length b1" "dec xdr_fhstatus (b1 @ rest) = Some (fh, rest)"
    using fhstatus_msg.roundtrip [OF assms(1)] by blast
  obtain b2 where 2: "enc xdr_mountres3 res = Some b2" "4 dvd length b2" "dec xdr_mountres3 (b2 @ rest) = Some (res, rest)"
    using mountres3_msg.roundtrip [OF assms(2)] by blast
  obtain b3 where 3: "enc xdr_mountlist ms = Some b3" "4 dvd length b3" "dec xdr_mountlist (b3 @ rest) = Some (ms, rest)"
    using mountlist_msg.roundtrip [OF assms(3)] by blast
  obtain b4 where 4: "enc xdr_exports es = Some b4" "4 dvd length b4" "dec xdr_exports (b4 @ rest) = Some (es, rest)"
    using exports_msg.roundtrip [OF assms(4)] by blast
  show ?thesis using 1 2 3 4 by simp
qed

section \<open>Messages from an untrusted server\<close>

text \<open>Every byte sequence is either refused or gives values within the bounds of the protocol.\<close>

lemma dec_opaque_length: "dec (xdr_opaque n) bs = Some (x, r) \<Longrightarrow> length x = n"
  using roundup_props(1) [of n] by (auto simp: xdr_opaque_def split: if_splits)

lemma dec_bytes_length: "dec (xdr_bytes n) bs = Some (x, r) \<Longrightarrow> length x \<le> n"
  by (auto simp: xdr_bytes_def split: option.splits if_splits dest!: dec_opaque_length)

lemma dec_string_ok: "dec (xdr_string n) bs = Some (x, r) \<Longrightarrow> path_ok n x"
  using length_cstr order_trans
  by (fastforce simp: xdr_string_def path_ok_def dest!: dec_bytes_length)

lemma dec_chain_all:
  assumes "\<And>bs x r. dec p bs = Some (x, r) \<Longrightarrow> A x"
  shows "dec_chain n p bs = Some (xs, r) \<Longrightarrow> list_all A xs"
proof (induction n arbitrary: bs xs r)
  case (Suc n)
  then show ?case using assms by (fastforce split: option.splits bool.splits)
qed simp

text \<open>C26. Whatever bytes a server sends, a file handle that is accepted has exactly 32 bytes (version 2)
  or at most 64 (version 3), so the copies into the fixed arrays of the mount data stay within
  them, and host names, group names and paths have no null byte and at most 255 or 1024 characters.\<close>

theorem decoded_values_bounded:
  "(\<forall>fh r. dec xdr_fhstatus bs = Some (fh, r) \<longrightarrow> length (fhs_fhandle fh) = FHSIZE) \<and>
   (\<forall>res r. dec xdr_mountres3 bs = Some (res, r) \<longrightarrow> length (fhandle3_of (mountinfo res)) \<le> FHSIZE3) \<and>
   (\<forall>ms r. dec xdr_mountlist bs = Some (ms, r) \<longrightarrow> list_all mountbody_ok ms) \<and>
   (\<forall>es r. dec xdr_exports bs = Some (es, r) \<longrightarrow> list_all exportnode_ok es)"
proof (intro conjI allI impI)
  fix fh r
  assume "dec xdr_fhstatus bs = Some (fh, r)"
  then show "length (fhs_fhandle fh) = FHSIZE"
    by (auto simp: xdr_fhstatus_def xdr_members_def xdr_union_def xdr_fhandle_def dest: dec_opaque_length
      split: option.splits if_splits)
next
  fix res r
  assume "dec xdr_mountres3 bs = Some (res, r)"
  then show "length (fhandle3_of (mountinfo res)) \<le> FHSIZE3"
    by (auto simp: xdr_mountres3_def xdr_mountres3_ok_def xdr_members_def xdr_union_def xdr_then_def xdr_fhandle3_def
      dest!: dec_bytes_length split: option.splits if_splits)
next
  fix ms r
  assume "dec xdr_mountlist bs = Some (ms, r)"
  then have "dec_chain (Suc (length bs)) xdr_mountbody bs = Some (ms, r)" by (simp add: xdr_mountlist_def xdr_chain_def)
  then show "list_all mountbody_ok ms"
    by (rule dec_chain_all [rotated])
      (auto simp: xdr_mountbody_def xdr_members_def xdr_then_def xdr_name_def xdr_dirpath_def mountbody_ok_def
        dest: dec_string_ok split: option.splits)
next
  fix es r
  assume "dec xdr_exports bs = Some (es, r)"
  then have "dec_chain (Suc (length bs)) xdr_exportnode bs = Some (es, r)" by (simp add: xdr_exports_def xdr_chain_def)
  moreover have "list_all (\<lambda>g. path_ok MNTNAMLEN (gr_name g)) gs" if "dec xdr_groups cs = Some (gs, r')" for cs gs r'
    using that unfolding xdr_groups_def xdr_chain_def
    by (simp del: dec_chain.simps, elim dec_chain_all [rotated])
      (auto simp: xdr_groupnode_def xdr_members_def xdr_name_def dest: dec_string_ok)
  ultimately show "list_all exportnode_ok es"
    by (elim dec_chain_all [rotated])
      (auto simp: xdr_exportnode_def xdr_members_def xdr_then_def xdr_dirpath_def exportnode_ok_def
        dest: dec_string_ok split: option.splits)
qed

section \<open>Storing through a buffer\<close>

lemma enc_many_word: "enc_many (xdr_word conv) ns = Some (IXDR_PUT ns)"
  by (induction ns) (simp_all add: IXDR_PUT_def xdr_word_def)

lemma dec_many_word:
  "dec_many (xdr_word conv) n bs =
     (if length bs < 4 * n then None else Some (map conv (IXDR_GET n bs), drop (4 * n) bs))"
proof (induction n arbitrary: bs)
  case (Suc n)
  then show ?case by (auto simp: xdr_word_def add.commute)
qed simp

lemma inline_limits_same: "inline_limits = xdr_limits"
proof -
  have "enc inline_limits x = enc xdr_limits x" for x
    by (cases x)
      (simp add: inline_limits_def xdr_limits_def xdr_then_def xdr_vector_def xdr_short_def enc_many_word xdr_int_def
        xdr_word_def [of int32] IXDR_PUT_def)
  moreover have "IXDR_GET 6 bs = of_be32 bs # IXDR_GET 5 (drop 4 bs)" for bs
    by (simp add: eval_nat_numeral)
  then have "dec inline_limits bs = dec xdr_limits bs" for bs
    by (auto simp: inline_limits_def xdr_limits_def xdr_then_def xdr_vector_def xdr_short_def dec_many_word xdr_int_def
        xdr_word_def [of int32])
  ultimately show ?thesis by (cases inline_limits; cases xdr_limits) (simp add: fun_eq_iff)
qed

lemma inline_mask_same: "inline_mask = xdr_vector 2 xdr_short"
  by (simp add: inline_mask_def xdr_vector_def xdr_short_def enc_many_word dec_many_word fun_eq_iff)

text \<open>C27. Storing the members of a \<open>ppathcnf\<close> directly into the buffer of the stream gives the same bytes and
  reads the same values as the calls of the library functions, whichever of the two buffers the
  stream provides.\<close>

theorem ppathcnf_inline_equivalent: "xdr_ppathcnf i1 i2 = xdr_ppathcnf False False"
  unfolding xdr_ppathcnf_def by (simp only: inline_limits_same inline_mask_same if_cancel)

end
