(* ===== verification/MountClient.thy ===== *)
theory MountClient
  imports Kernel Xdr
begin

text \<open>
  The client side of the mount protocol, \<^verbatim>\<open>src/nfsmount_clnt.c\<close>: one function per remote procedure. The
  transport of the RPC library is a call into the environment that takes the encoded arguments and
  returns a status and the bytes of the result; encoding and decoding happen on this side of it.
\<close>

section \<open>Remote calls\<close>

definition RPC_SUCCESS :: int where "RPC_SUCCESS = 0"
definition RPC_CANTENCODEARGS :: int where "RPC_CANTENCODEARGS = 1"
definition RPC_CANTDECODERES :: int where "RPC_CANTDECODERES = 2"

definition MOUNTPROG :: int where "MOUNTPROG = 100005"
definition MOUNTVERS :: int where "MOUNTVERS = 1"
definition MOUNTPROC_NULL :: int where "MOUNTPROC_NULL = 0"
definition MOUNTPROC_MNT :: int where "MOUNTPROC_MNT = 1"
definition MOUNTPROC_DUMP :: int where "MOUNTPROC_DUMP = 2"
definition MOUNTPROC_UMNT :: int where "MOUNTPROC_UMNT = 3"
definition MOUNTPROC_UMNTALL :: int where "MOUNTPROC_UMNTALL = 4"
definition MOUNTPROC_EXPORT :: int where "MOUNTPROC_EXPORT = 5"
definition MOUNTPROC_EXPORTALL :: int where "MOUNTPROC_EXPORTALL = 6"
definition MOUNTPROC_PATHCONF :: int where "MOUNTPROC_PATHCONF = 7"
definition MOUNTPROC3_MNT :: int where "MOUNTPROC3_MNT = 1"

lemmas rpc_status = RPC_SUCCESS_def RPC_CANTENCODEARGS_def RPC_CANTDECODERES_def

definition clnt_call ::
  "env \<Rightarrow> int \<Rightarrow> int \<Rightarrow> 'a xdrproc \<Rightarrow> 'a \<Rightarrow> 'b xdrproc \<Rightarrow> ('s os_state_scheme, int \<times> 'b option) proc" where
  "clnt_call E clnt procnum xargs arg xres =
     (case enc xargs arg of
        None \<Rightarrow> ret (RPC_CANTENCODEARGS, None)
      | Some bs \<Rightarrow>
          bind (nsys E (Clnt_call clnt procnum bs)) (\<lambda>r.
          if rv r \<noteq> RPC_SUCCESS then ret (rv r, None)
          else
            (case dec xres (dat r) of
               None \<Rightarrow> ret (RPC_CANTDECODERES, None)
             | Some (x, _) \<Rightarrow> ret (RPC_SUCCESS, Some x))))"

text \<open>The body of the client functions: a null pointer unless the call succeeded.\<close>

definition clnt_res :: "('s, int \<times> 'b option) proc \<Rightarrow> ('s, 'b option) proc" where
  "clnt_res m = bind m (\<lambda>(clnt_stat, r). ret (if clnt_stat \<noteq> RPC_SUCCESS then None else r))"

section \<open>Version 1\<close>

definition mountproc_null_1 :: "env \<Rightarrow> int \<Rightarrow> ('s os_state_scheme, unit option) proc" where
  "mountproc_null_1 E clnt = clnt_res (clnt_call E clnt MOUNTPROC_NULL xdr_void () xdr_void)"

definition mountproc_mnt_1 :: "env \<Rightarrow> dirpath \<Rightarrow> int \<Rightarrow> ('s os_state_scheme, fhstatus option) proc" where
  "mountproc_mnt_1 E argp clnt = clnt_res (clnt_call E clnt MOUNTPROC_MNT xdr_dirpath argp xdr_fhstatus)"

definition mountproc_dump_1 :: "env \<Rightarrow> int \<Rightarrow> ('s os_state_scheme, mountbody list option) proc" where
  "mountproc_dump_1 E clnt = clnt_res (clnt_call E clnt MOUNTPROC_DUMP xdr_void () xdr_mountlist)"

definition mountproc_umnt_1 :: "env \<Rightarrow> dirpath \<Rightarrow> int \<Rightarrow> ('s os_state_scheme, unit option) proc" where
  "mountproc_umnt_1 E argp clnt = clnt_res (clnt_call E clnt MOUNTPROC_UMNT xdr_dirpath argp xdr_void)"

definition mountproc_umntall_1 :: "env \<Rightarrow> int \<Rightarrow> ('s os_state_scheme, unit option) proc" where
  "mountproc_umntall_1 E clnt = clnt_res (clnt_call E clnt MOUNTPROC_UMNTALL xdr_void () xdr_void)"

definition mountproc_export_1 :: "env \<Rightarrow> int \<Rightarrow> ('s os_state_scheme, exportnode list option) proc" where
  "mountproc_export_1 E clnt = clnt_res (clnt_call E clnt MOUNTPROC_EXPORT xdr_void () xdr_exports)"

definition mountproc_exportall_1 :: "env \<Rightarrow> int \<Rightarrow> ('s os_state_scheme, exportnode list option) proc" where
  "mountproc_exportall_1 E clnt = clnt_res (clnt_call E clnt MOUNTPROC_EXPORTALL xdr_void () xdr_exports)"

section \<open>Version 2\<close>

definition mountproc_null_2 :: "env \<Rightarrow> int \<Rightarrow> ('s os_state_scheme, unit option) proc" where
  "mountproc_null_2 E clnt = clnt_res (clnt_call E clnt MOUNTPROC_NULL xdr_void () xdr_void)"

definition mountproc_mnt_2 :: "env \<Rightarrow> dirpath \<Rightarrow> int \<Rightarrow> ('s os_state_scheme, fhstatus option) proc" where
  "mountproc_mnt_2 E argp clnt = clnt_res (clnt_call E clnt MOUNTPROC_MNT xdr_dirpath argp xdr_fhstatus)"

definition mountproc_dump_2 :: "env \<Rightarrow> int \<Rightarrow> ('s os_state_scheme, mountbody list option) proc" where
  "mountproc_dump_2 E clnt = clnt_res (clnt_call E clnt MOUNTPROC_DUMP xdr_void () xdr_mountlist)"

definition mountproc_umnt_2 :: "env \<Rightarrow> dirpath \<Rightarrow> int \<Rightarrow> ('s os_state_scheme, unit option) proc" where
  "mountproc_umnt_2 E argp clnt = clnt_res (clnt_call E clnt MOUNTPROC_UMNT xdr_dirpath argp xdr_void)"

definition mountproc_umntall_2 :: "env \<Rightarrow> int \<Rightarrow> ('s os_state_scheme, unit option) proc" where
  "mountproc_umntall_2 E clnt = clnt_res (clnt_call E clnt MOUNTPROC_UMNTALL xdr_void () xdr_void)"

definition mountproc_export_2 :: "env \<Rightarrow> int \<Rightarrow> ('s os_state_scheme, exportnode list option) proc" where
  "mountproc_export_2 E clnt = clnt_res (clnt_call E clnt MOUNTPROC_EXPORT xdr_void () xdr_exports)"

definition mountproc_exportall_2 :: "env \<Rightarrow> int \<Rightarrow> ('s os_state_scheme, exportnode list option) proc" where
  "mountproc_exportall_2 E clnt = clnt_res (clnt_call E clnt MOUNTPROC_EXPORTALL xdr_void () xdr_exports)"

definition mountproc_pathconf_2 ::
  "env \<Rightarrow> bool \<Rightarrow> bool \<Rightarrow> dirpath \<Rightarrow> int \<Rightarrow> ('s os_state_scheme, ppathcnf option) proc" where
  "mountproc_pathconf_2 E i1 i2 argp clnt =
     clnt_res (clnt_call E clnt MOUNTPROC_PATHCONF xdr_dirpath argp (xdr_ppathcnf i1 i2))"

section \<open>A remote call is a call\<close>

text \<open>A server that applies \<open>f\<close>: it decodes the arguments, and sends the encoded result.\<close>

definition serves :: "env \<Rightarrow> int \<Rightarrow> int \<Rightarrow> 'a xdrproc \<Rightarrow> ('a \<Rightarrow> 'b) \<Rightarrow> 'b xdrproc \<Rightarrow> bool" where
  "serves E clnt procnum xargs f xres \<longleftrightarrow> (\<forall>tr bs a r. dec xargs bs = Some (a, r) \<longrightarrow>
     (let rep = kern E tr (NetCall (Clnt_call clnt procnum bs)) in
      rv rep = RPC_SUCCESS \<and> enc xres (f a) = Some (dat rep)))"

lemma clnt_call_serves:
  assumes "xdr_codec xargs A" and "A a" and "xdr_codec xres B" and "B (f a)"
    and "serves E clnt procnum xargs f xres"
  shows "\<exists>bs r. enc xargs a = Some bs \<and>
     clnt_res (clnt_call E clnt procnum xargs a xres) s =
       (Ret (Some (f a)), s\<lparr>trace := trace s @ [(NetCall (Clnt_call clnt procnum bs), r)]\<rparr>)"
proof -
  obtain bs where bs: "enc xargs a = Some bs" "\<And>rest. dec xargs (bs @ rest) = Some (a, rest)"
    by (rule xdr_codec.encE [OF assms(1,2)]) blast
  let ?r = "kern E (trace s) (NetCall (Clnt_call clnt procnum bs))"
  from bs(2) [of "[]"] have "dec xargs bs = Some (a, [])" by simp
  with assms(5) have r: "rv ?r = RPC_SUCCESS" "enc xres (f a) = Some (dat ?r)"
    unfolding serves_def by (metis (full_types))+
  from xdr_codec.receives [OF assms(3,4) r(2), of "[]"] have "dec xres (dat ?r) = Some (f a, [])" by simp
  with bs(1) r(1) show ?thesis by (auto simp: clnt_res_def clnt_call_def bind_assoc)
qed

lemma void_codec: "xdr_codec xdr_void (\<lambda>_. True)"
  by unfold_locales (auto simp: xdr_void_def)

text \<open>C28. Asking a server for the handle of a directory gives what the server's function says, with a
  single remote call that carries the path, provided the path and the result are admissible for the
  protocol; a path that is too long is refused without a call.\<close>

theorem mount_request_answered:
  assumes "serves E clnt MOUNTPROC_MNT xdr_dirpath f xdr_fhstatus"
    and "NUL \<notin> set dir" and "fhstatus_ok (f dir)"
  shows "if length dir \<le> MNTPATHLEN
     then \<exists>bs r. enc xdr_dirpath dir = Some bs \<and> mountproc_mnt_1 E dir clnt s =
       (Ret (Some (f dir)), s\<lparr>trace := trace s @ [(NetCall (Clnt_call clnt MOUNTPROC_MNT bs), r)]\<rparr>)
     else mountproc_mnt_1 E dir clnt s = (Ret None, s)"
proof (cases "length dir \<le> MNTPATHLEN")
  case True
  with assms(2) have "path_ok MNTPATHLEN dir" by (simp add: path_ok_def)
  from clnt_call_serves [OF dirpath_msg.xdr_codec_axioms this fhstatus_msg.xdr_codec_axioms assms(3,1)] True
  show ?thesis unfolding mountproc_mnt_1_def by simp
next
  case False
  with assms(2) have "enc xdr_dirpath dir = None"
    by (simp add: xdr_dirpath_def xdr_string_def xdr_bytes_def cstr_id)
  with False show ?thesis by (simp add: mountproc_mnt_1_def clnt_call_def clnt_res_def rpc_status)
qed

end
