(* ===== verification/Umount.thy ===== *)
theory Umount
  imports Fstab MountClient
begin

text \<open>
  \<^verbatim>\<open>src/umount.c\<close> as the shutdown uses it, with \<open>del_loop\<close> of \<^verbatim>\<open>src/lomount.c\<close>: unmounting all file
  systems of the mount table, last mounted first.
\<close>

section \<open>Loop devices\<close>

definition del_loop :: "env \<Rightarrow> string \<Rightarrow> ('s mnt_state_scheme, bool) proc" where
  "del_loop E device =
     bind (fsys E (Open device O_RDONLY)) (\<lambda>fd.
     if rv fd < 0 then
       andthen (fprintf_err E ''loop: can't delete device %s: %s'' [AStr device, AInt (err fd)]) (ret True)
     else
       bind (ssys E (Loop_clr_fd (rv fd))) (\<lambda>r.
       if rv r < 0 then andthen (perror E ''ioctl: LOOP_CLR_FD'' (err r)) (ret True)
       else
         andthen (do_sys E (FileCall (Close (rv fd))))
         (bind (gets mount_verbose) (\<lambda>v.
          andthen (whenp (v > 1) (printf_out E ''del_loop(%s): success'' [AStr device]))
          (ret False)))))"

section \<open>Telling an NFS server\<close>

definition rpc_host :: "string \<Rightarrow> string option" where
  "rpc_host opts = map_option (\<lambda>p. takeWhile (\<lambda>c. c \<noteq> CHR '','') (drop 5 p)) (strstr opts ''addr='')"

definition xdr_dir :: "string xdrproc" where
  "xdr_dir = xdr_string MNTPATHLEN"

definition umount_rpc :: "env \<Rightarrow> int \<Rightarrow> string \<Rightarrow> ('s mnt_state_scheme, int) proc" where
  "umount_rpc E addr dirname =
     bind (nsys E (Clntudp_create addr 0 MOUNTPROG MOUNTVERS)) (\<lambda>clp.
     if rv clp = 0 then andthen (fprintf_err E ''Cannot MOUNTPROG RPC'' []) (ret 1)
     else
       andthen (do_sys E (NetCall (Authunix_create (rv clp))))
       (bind (clnt_call E (rv clp) MOUNTPROC_UMNT xdr_dir dirname xdr_void) (\<lambda>(clnt_stat, _).
        if clnt_stat \<noteq> RPC_SUCCESS then andthen (fprintf_err E ''Bad UMNT RPC'' []) (ret 1)
        else
          andthen (do_sys E (NetCall (Auth_destroy (rv clp))))
          (andthen (do_sys E (NetCall (Clnt_destroy (rv clp))))
          (ret 0)))))"

definition nfs_umount_rpc_call :: "env \<Rightarrow> string \<Rightarrow> string \<Rightarrow> ('s mnt_state_scheme, int) proc" where
  "nfs_umount_rpc_call E spec opts =
     (case strchr spec (CHR '':'') of
        None \<Rightarrow> ret 0
      | Some p \<Rightarrow>
          (let host = take (length spec - length p) spec; dirname = tl p in
           bind (xstrndup E (Some spec) (int (length host))) (\<lambda>_.
           bind (xstrdup E (Some dirname)) (\<lambda>_.
           bind
             (case rpc_host opts of
                None \<Rightarrow> ret host
              | Some h \<Rightarrow> bind (xstrndup E (Some h) (int (length h))) (\<lambda>_. ret h)) (\<lambda>hostname.
           bind
             (if hostname \<noteq> [] \<and> isdigit (hd hostname) then
                bind (nsys E (Inet_addr hostname)) (\<lambda>a. ret (Some (v1 a)))
              else
                bind (msys E (Gethostbyname hostname)) (\<lambda>hostp.
                if rv hostp = 0 then
                  andthen (fprintf_err E ''umount: can't get address for %s'' [AStr hostname]) (ret None)
                else
                  andthen (whenp (v1 hostp > 4) (fprintf_err E ''umount: got bad hostp->h_length'' []))
                  (ret (Some (v2 hostp))))) (\<lambda>found.
           case found of None \<Rightarrow> ret 1 | Some addr \<Rightarrow> umount_rpc E addr dirname))))))"

section \<open>One file system\<close>

definition complain :: "env \<Rightarrow> int \<Rightarrow> string \<Rightarrow> ('s mnt_state_scheme, unit) proc" where
  "complain E e dev =
     (if e = ENXIO then error_msg E ''umount: %s: invalid block device'' [AStr dev]
      else if e = EINVAL then error_msg E ''umount: %s: not mounted'' [AStr dev]
      else if e = EIO then error_msg E ''umount: %s: can't write superblock'' [AStr dev]
      else if e = EBUSY then error_msg E ''umount: %s: device is busy'' [AStr dev]
      else if e = ENOENT then error_msg E ''umount: %s: not found'' [AStr dev]
      else if e = EPERM then error_msg E ''umount: %s: must be superuser to umount'' [AStr dev]
      else if e = EACCES then error_msg E ''umount: %s: block devices not permitted on fs'' [AStr dev]
      else error_msg E ''umount: %s: %s'' [AStr dev, AStr (strerr E e)])"

definition is_root :: "string \<Rightarrow> bool" where
  "is_root node \<longleftrightarrow> node = ''/'' \<or> node = ''root'' \<or> node = ''rootfs''"

text \<open>The calls of \<open>umount\<close>: on the directory and, unless it is busy or the same, on the device. The
  result of the last call and the two error numbers; \<open>errno\<close> after a successful second call is the
  value the first one left.\<close>

definition try_umount :: "env \<Rightarrow> string \<Rightarrow> string \<Rightarrow> ('s mnt_state_scheme, int \<times> int \<times> int) proc" where
  "try_umount E spec node =
     bind (ssys E (Umount node)) (\<lambda>r.
     if rv r < 0 \<and> err r \<noteq> EBUSY \<and> node \<noteq> spec then
       bind (gets umount_verbose) (\<lambda>v.
       andthen (whenp (v \<noteq> 0) (printf_out E ''could not umount %s - trying %s instead'' [AStr node, AStr spec]))
       (bind (ssys E (Umount spec)) (\<lambda>r2.
        let e = (if rv r2 < 0 then err r2 else err r);
            err2 = (if e = ENOENT \<and> CHR '':'' \<in> set spec then 0 else if rv r2 < 0 then err r2 else 0)
        in ret (rv r2, err r, err2))))
     else ret (rv r, if rv r < 0 then err r else 0, 0))"

text \<open>The entry of a read-only remount; its last two fields are not initialised.\<close>

definition uninit_int :: "env \<Rightarrow> nat \<Rightarrow> int" where
  "uninit_int E k = int32 (\<Sum>i<4. of_char (uninit E 8 ! (k + i)) * 256 ^ i)"

definition remount_entry :: "env \<Rightarrow> string \<Rightarrow> mntent" where
  "remount_entry E node =
     \<lparr>mnt_fsname = None, mnt_dir = node, mnt_type = None, mnt_opts = ''ro'',
      mnt_freq = uninit_int E 0, mnt_passno = uninit_int E 4\<rparr>"

text \<open>The remount: whether the function returns 0 at once.\<close>

definition try_remount :: "env \<Rightarrow> string \<Rightarrow> string \<Rightarrow> ('s mnt_state_scheme, bool) proc" where
  "try_remount E spec node =
     bind (ssys E (Remount_ro spec node)) (\<lambda>r.
     if rv r = 0 then
       andthen (fprintf_err E ''umount: %s busy - remounted read-only'' [AStr spec])
       (bind (xstrdup E (Some node)) (\<lambda>_.
        andthen (update_mtab E node (Some (remount_entry E node)))
        (ret True)))
     else
       andthen
         (whenp (err r \<noteq> EBUSY)
            (andthen (perror E ''remount'' (err r))
            (fprintf_err E ''umount: could not remount %s read-only'' [AStr spec])))
       (ret False))"

text \<open>The loop over the options: the device of the first \<open>loop=\<close> option is freed.\<close>

definition del_loop_option :: "env \<Rightarrow> string \<Rightarrow> ('s mnt_state_scheme, bool) proc" where
  "del_loop_option E opts =
     (case find (is_prefix ''loop='') (strtok_all (CHR '','') opts) of
        None \<Rightarrow> ret False
      | Some opt \<Rightarrow> del_loop E (drop 5 opt))"

text \<open>After a successful \<open>umount\<close>: free the loop device of the entry in mtab, and remove the
  entry. The result says whether a loop device could not be freed.\<close>

definition forget_mount :: "env \<Rightarrow> string \<Rightarrow> string \<Rightarrow> ('s mnt_state_scheme, bool) proc" where
  "forget_mount E spec node =
     bind (getmntfile E spec) (\<lambda>m1.
     bind (case m1 of None \<Rightarrow> getmntfile E node | Some _ \<Rightarrow> ret m1) (\<lambda>m.
     case m of
       Some mc \<Rightarrow>
         bind (if mc_type mc = ''loop'' then del_loop E spec else ret False) (\<lambda>failed.
         if failed then ret True
         else
           bind (xstrdup E (Some (mc_opts mc))) (\<lambda>_.
           bind (del_loop_option E (mc_opts mc)) (\<lambda>failed2.
           if failed2 then ret True
           else andthen (update_mtab E node None) (ret False))))
     | None \<Rightarrow>
         bind (getmntoptfile E (Some spec)) (\<lambda>mo.
         andthen (update_mtab E (case mo of None \<Rightarrow> node | Some mc \<Rightarrow> mc_dir mc) None)
         (ret False))))"

definition umount_failed :: "env \<Rightarrow> string \<Rightarrow> string \<Rightarrow> int \<Rightarrow> int \<Rightarrow> ('s mnt_state_scheme, int) proc" where
  "umount_failed E spec node e e2 =
     bind (gets umount_nomtab) (\<lambda>nomtab.
     andthen (whenp (nomtab = 0 \<and> (e = EINVAL \<or> e = ENOENT)) (update_mtab E node None))
     (andthen (whenp (e2 \<noteq> 0) (complain E e2 spec))
     (andthen (whenp (e \<noteq> 0 \<and> e \<noteq> e2) (complain E e node))
     (ret 1))))"

definition umount_done :: "env \<Rightarrow> string \<Rightarrow> string \<Rightarrow> int \<Rightarrow> int \<Rightarrow> ('s mnt_state_scheme, int) proc" where
  "umount_done E spec node e e2 =
     bind (gets umount_verbose) (\<lambda>v.
     andthen (whenp (v \<noteq> 0) (printf_out E ''%s umounted'' [AStr spec]))
     (bind (gets umount_nomtab) (\<lambda>nomtab.
      bind (if nomtab = 0 then mtab_is_writable E else ret False) (\<lambda>writable.
      bind (if writable then forget_mount E spec node else ret False) (\<lambda>failed.
      if failed then umount_failed E spec node e e2 else ret 0)))))"

definition umount_one :: "env \<Rightarrow> string \<Rightarrow> string \<Rightarrow> string \<Rightarrow> string \<Rightarrow> ('s mnt_state_scheme, int) proc" where
  "umount_one E spec node type opts =
     andthen (whenp (is_root node) (modify (umount_nomtab_update (\<lambda>n. n + 1))))
     (andthen (whenp (strcaseeq type ''nfs'') (bind (nfs_umount_rpc_call E spec opts) (\<lambda>_. ret ())))
     (bind (try_umount E spec node) (\<lambda>(res, e, e2).
      bind (gets remount) (\<lambda>rem.
      bind (if res < 0 \<and> rem \<noteq> 0 \<and> (e = EBUSY \<or> e2 = EBUSY) then try_remount E spec node else ret False) (\<lambda>ok.
      if ok then ret 0
      else if res \<ge> 0 then umount_done E spec node e e2
      else umount_failed E spec node e e2)))))"

section \<open>All file systems\<close>

fun umount_each :: "env \<Rightarrow> string list \<Rightarrow> mntentchn list \<Rightarrow> int \<Rightarrow> ('s mnt_state_scheme, int) proc" where
  "umount_each E types [] errors = ret errors"
| "umount_each E types (mc # mcs) errors =
     (if matching_type (mc_type mc) types then
        bind (umount_one E (mc_fsname mc) (mc_dir mc) (mc_type mc) (mc_opts mc)) (\<lambda>r.
        umount_each E types mcs (errors OR r))
      else umount_each E types mcs errors)"

definition umount_all :: "env \<Rightarrow> string list \<Rightarrow> ('s mnt_state_scheme, int) proc" where
  "umount_all E types =
     bind (mtab_head E) (\<lambda>head.
     case head of
       None \<Rightarrow> die E 2 ''umount: cannot find list of filesystems to unmount'' []
     | Some mcs \<Rightarrow>
         bind (umount_each E types (rev mcs) 0) (\<lambda>errors.
         andthen (do_sys E (SysCall Sync))
         (ret errors)))"

section \<open>The order of unmounting\<close>

text \<open>On most systems \<^verbatim>\<open>/etc/mtab\<close> is a link to the table of the kernel: it is not updated.\<close>

definition mtab_linked :: "env \<Rightarrow> bool" where
  "mtab_linked E \<longleftrightarrow> (\<forall>tr. rv (kern E tr (FileCall (Lstat MOUNTED))) = 0 \<and>
     S_ISLNK (v1 (kern E tr (FileCall (Lstat MOUNTED)))))"

text \<open>The mount table has been read, and what is known about mtab is that it is a link.\<close>

definition link_known :: "'s mnt_state_scheme \<Rightarrow> bool" where
  "link_known s \<longleftrightarrow> got_mtab s \<and> (have_mtab_info s \<longrightarrow> var_mtab_is_a_symlink s)"

fun is_umount :: "syscall \<Rightarrow> bool" where
  "is_umount (SysCall (Umount d)) = True"
| "is_umount c = False"

text \<open>The calls of \<open>umount\<close> for one entry.\<close>

definition umount_calls :: "mntentchn \<Rightarrow> syscall list \<Rightarrow> bool" where
  "umount_calls mc cs \<longleftrightarrow> cs = [SysCall (Umount (mc_dir mc))] \<or>
     cs = [SysCall (Umount (mc_dir mc)), SysCall (Umount (mc_fsname mc))]"

lemma no_malloc_umount: "no_malloc is_umount"
  by (simp add: no_malloc_def)

text \<open>What a caller has to keep true while file systems are unmounted, on such a machine: the
  operations then return and keep it.\<close>

locale mtab_invariant =
  fixes I :: "'s mnt_state_scheme \<Rightarrow> bool"
  assumes I_trace: "I s \<Longrightarrow> I (s\<lparr>trace := t\<rparr>)"
    and I_link: "I s \<Longrightarrow> link_known s"
    and I_flags: "I s \<Longrightarrow> I (s\<lparr>var_mtab_is_a_symlink := True, have_mtab_info := True\<rparr>)"
    and I_nomtab: "I s \<Longrightarrow> I (umount_nomtab_update f s)"
begin

abbreviation keeps_mounts :: "('s mnt_state_scheme, 'a) proc \<Rightarrow> bool" where
  "keeps_mounts \<equiv> runs I (\<lambda>c. \<not> is_umount c)"

lemma keeps_mounts_sys:
  assumes "\<not> is_umount c"
  shows "keeps_mounts (sysc E c)" and "keeps_mounts (do_sys E c)"
  using assms by (auto intro: runs_sysc runs_do_sys I_trace)

lemma keeps_mounts_acts: "acts is_umount x [] m \<Longrightarrow> keeps_mounts m"
  by (erule acts_runs) (rule I_trace)

text \<open>Messages and copies of strings.\<close>

lemma keeps_mounts_messages:
  "keeps_mounts (perror E what e)" "keeps_mounts (printf_out E f args)" "keeps_mounts (fprintf_err E f args)"
  by (simp_all add: perror_def printf_out_def fprintf_err_def keeps_mounts_sys)

lemma keeps_mounts_copies:
  assumes "memory_ok E"
  shows "keeps_mounts (xstrdup E (Some t))" and "0 \<le> n \<Longrightarrow> keeps_mounts (xstrndup E (Some t) n)"
    and "keeps_mounts (error_msg E f args)"
proof -
  show "keeps_mounts (xstrdup E (Some t))" "0 \<le> n \<Longrightarrow> keeps_mounts (xstrndup E (Some t) n)"
    by (rule keeps_mounts_acts, rule acts_xstrdup acts_xstrndup, simp_all add: assms no_malloc_umount)+
  have alloc: "keeps_mounts (xmalloc E (int k + 1))" for k
    by (rule keeps_mounts_acts, rule acts_xmalloc) (simp_all add: assms no_malloc_umount)
  show "keeps_mounts (error_msg E f args)"
    unfolding error_msg_def xstrconcat2_def xstrconcat_def Let_def
    by (intro runs_bind runs_gets runs_if runs_ret alloc keeps_mounts_sys) simp
qed

text \<open>What happens around the calls of \<open>umount\<close>.\<close>

lemma linked_info:
  assumes "mtab_linked E" and "I s"
  shows "\<exists>s' es. get_mtab_info E s = (Ret (), s') \<and> I s' \<and> var_mtab_is_a_symlink s' \<and> trace s' = trace s @ es \<and>
     (\<forall>e \<in> set es. \<not> is_umount (fst e))"
proof (cases "have_mtab_info s")
  case True
  with I_link [OF assms(2)] have "var_mtab_is_a_symlink s" by (simp add: link_known_def)
  with True assms(2) show ?thesis by (simp add: get_mtab_info_def)
next
  case False
  with assms I_flags [OF I_trace [OF assms(2)]] show ?thesis by (simp add: get_mtab_info_def mtab_linked_def)
qed

lemma keeps_mounts_writable:
  assumes "mtab_linked E"
  shows "keeps_mounts (mtab_is_writable E)"
proof (rule runsI)
  fix s
  assume "I s"
  then obtain s' es where "get_mtab_info E s = (Ret (), s')" "I s'" "var_mtab_is_a_symlink s'"
    "trace s' = trace s @ es" "\<forall>e \<in> set es. \<not> is_umount (fst e)" using linked_info [OF assms] by blast
  then show "\<exists>x s' es. mtab_is_writable E s = (Ret x, s') \<and> I s' \<and> trace s' = trace s @ es \<and>
      (\<forall>e \<in> set es. \<not> is_umount (fst e))"
    by (auto simp: mtab_is_writable_def mtab_is_a_symlink_def bind_andthen andthen_apply_Ret)
qed

lemma keeps_mounts_update:
  assumes "mtab_linked E"
  shows "keeps_mounts (update_mtab E dir instead)"
proof (rule runsI)
  fix s
  assume "I s"
  then obtain s1 es1 where 1: "get_mtab_info E s = (Ret (), s1)" "I s1" "var_mtab_is_a_symlink s1"
    "trace s1 = trace s @ es1" "\<forall>e \<in> set es1. \<not> is_umount (fst e)" using linked_info [OF assms] by blast
  then obtain s2 es2 where 2: "get_mtab_info E s1 = (Ret (), s2)" "I s2" "var_mtab_is_a_symlink s2"
    "trace s2 = trace s1 @ es2" "\<forall>e \<in> set es2. \<not> is_umount (fst e)" using linked_info [OF assms] by blast
  from 1 2 show "\<exists>x s' es. update_mtab E dir instead s = (Ret x, s') \<and> I s' \<and> trace s' = trace s @ es \<and>
      (\<forall>e \<in> set es. \<not> is_umount (fst e))"
    by (cases "var_mtab_does_not_exist s1")
      (auto simp: update_mtab_def mtab_does_not_exist_def mtab_is_a_symlink_def bind_andthen andthen_apply_Ret)
qed

lemma keeps_mounts_rpc: "memory_ok E \<Longrightarrow> keeps_mounts (nfs_umount_rpc_call E spec opts)"
  unfolding nfs_umount_rpc_call_def umount_rpc_def clnt_call_def Let_def
  by (intro runs_case_option runs_case_prod runs_bind runs_if runs_andthen runs_whenp runs_ret keeps_mounts_sys
      keeps_mounts_messages keeps_mounts_copies) simp_all

lemma keeps_mounts_del_loop: "keeps_mounts (del_loop E device)" "keeps_mounts (del_loop_option E opts)"
proof -
  show 1: "keeps_mounts (del_loop E device)" for device
    unfolding del_loop_def
    by (intro runs_bind runs_if runs_andthen runs_whenp runs_ret runs_gets keeps_mounts_sys keeps_mounts_messages) simp_all
  show "keeps_mounts (del_loop_option E opts)"
    unfolding del_loop_option_def by (intro runs_case_option runs_ret 1)
qed

lemma keeps_mounts_head: "keeps_mounts (mtab_head E)"
  unfolding mtab_head_def
  by (rule runs_bind_gets, drule I_link) (simp add: link_known_def runs_gets)

lemma keeps_mounts_getmnt: "keeps_mounts (getmntfile E name)" "keeps_mounts (getmntoptfile E file)"
  unfolding getmntfile_def getmntoptfile_def
  by (intro runs_case_option runs_bind keeps_mounts_head runs_ret)+

lemma keeps_mounts_complain: "memory_ok E \<Longrightarrow> keeps_mounts (complain E e dev)"
  unfolding complain_def by (intro runs_if keeps_mounts_copies)

lemma keeps_mounts_after:
  assumes "memory_ok E" and "mtab_linked E"
  shows "keeps_mounts (try_remount E spec node)" and "keeps_mounts (umount_failed E spec node e e2)"
    and "keeps_mounts (umount_done E spec node e e2)"
proof -
  note rules = runs_case_option runs_bind runs_if runs_andthen runs_whenp runs_ret runs_gets
    keeps_mounts_messages keeps_mounts_copies [OF assms(1)] keeps_mounts_writable [OF assms(2)] keeps_mounts_update [OF assms(2)]
    keeps_mounts_getmnt keeps_mounts_del_loop keeps_mounts_complain [OF assms(1)]
  show "keeps_mounts (try_remount E spec node)"
    unfolding try_remount_def by (intro rules keeps_mounts_sys) simp_all
  show failed: "keeps_mounts (umount_failed E spec node e e2)" for e e2
    unfolding umount_failed_def by (intro rules)
  show "keeps_mounts (umount_done E spec node e e2)"
    unfolding umount_done_def forget_mount_def by (intro rules failed)
qed

lemma performs_try_umount:
  "performs I is_umount (\<lambda>r. umount_calls mc) (try_umount E (mc_fsname mc) (mc_dir mc))"
  by (rule performsI)
    (auto simp: try_umount_def Let_def umount_calls_def I_trace whenp_def printf_out_def)

lemma performs_umount_one:
  assumes "memory_ok E" and "mtab_linked E"
  shows "performs I is_umount (\<lambda>r. umount_calls mc)
     (umount_one E (mc_fsname mc) (mc_dir mc) (mc_type mc) (mc_opts mc))"
  unfolding umount_one_def
proof (intro performs_quiet_andthen performs_bind_quiet [OF performs_try_umount] runs_case_prod)
  show "keeps_mounts (whenp (is_root (mc_dir mc)) (modify (umount_nomtab_update (\<lambda>n. n + 1))))"
    by (intro runs_whenp runs_modify) (simp_all add: I_nomtab)
  show "keeps_mounts (whenp (strcaseeq (mc_type mc) ''nfs'')
      (bind (nfs_umount_rpc_call E (mc_fsname mc) (mc_opts mc)) (\<lambda>_. ret ())))"
    by (intro runs_whenp runs_bind keeps_mounts_rpc [OF assms(1)] runs_ret)
qed (intro runs_bind runs_gets runs_if runs_ret keeps_mounts_after [OF assms])

lemma performs_umount_each:
  assumes "memory_ok E" and "mtab_linked E"
  shows "performs I is_umount
     (\<lambda>_ cs. \<exists>css. cs = concat css \<and> list_all2 umount_calls (filter (\<lambda>mc. matching_type (mc_type mc) types) mcs) css)
     (umount_each E types mcs errors)"
proof (induction mcs arbitrary: errors)
  case Nil
  show ?case by (simp only: umount_each.simps, rule performs_ret) simp
next
  case (Cons mc mcs)
  show ?case
  proof (cases "matching_type (mc_type mc) types")
    case True
    then show ?thesis
      by (simp only: umount_each.simps if_True filter.simps)
        (rule performs_bind [OF performs_umount_one [OF assms]], rule performs_mono [OF Cons.IH],
          metis concat.simps(2) list_all2_Cons)
  next
    case False
    then show ?thesis using Cons.IH by simp
  qed
qed

end

interpretation lk: mtab_invariant link_known
  by unfold_locales (simp_all add: link_known_def)


end
