(* ===== verification/Shutdown.thy ===== *)
theory Shutdown
  imports Umount
begin

text \<open>
  \<^verbatim>\<open>src/shutdown.c\<close> and \<^verbatim>\<open>src/ifdown.c\<close>: stopping the daemon, and taking the system down.

  \<open>keep_alive\<close> and \<open>safe_sleep\<close> are the instances of the daemon (\<open>wd_keep_alive\<close>,
  \<open>wd_safe_sleep\<close>), which also write the heartbeat.
\<close>

section \<open>State and names\<close>

record PROC =
  p_pid :: int
  p_sid :: int

record shut_state = mnt_state +
  plist :: "PROC list"

definition MAJOR_VERSION :: int where "MAJOR_VERSION = 5"
definition MINOR_VERSION :: int where "MINOR_VERSION = 15"
definition PATH_SENDMAIL :: string where "PATH_SENDMAIL = ''/usr/lib/sendmail''"
definition RANDOM_SEED :: string where "RANDOM_SEED = ''/var/run/random-seed''"
definition PATH_WTMP :: string where "PATH_WTMP = ''/var/log/wtmp''"
definition PATH_MNTTAB :: string where "PATH_MNTTAB = ''/etc/fstab''"
definition MAXHOSTNAMELEN :: nat where "MAXHOSTNAMELEN = 64"
definition MAX_IFS :: nat where "MAX_IFS = 64"

section \<open>Stopping the daemon\<close>

text \<open>A call whose result the source ignores.\<close>

definition ignored :: "('s, 'a) proc \<Rightarrow> ('s, unit) proc" where
  "ignored m = bind m (\<lambda>_. ret ())"

definition close_all :: "env \<Rightarrow> ('s shut_state_scheme, unit) proc" where
  "close_all E =
     run_all [ignored (close_watchdog E), ignored (close_loadcheck E), ignored (close_memcheck E),
       ignored close_tempcheck, ignored (close_heartbeat E), free_process]"

definition terminate :: "env \<Rightarrow> int \<Rightarrow> ('s shut_state_scheme, 'a) proc" where
  "terminate E code =
     andthen (log_msg E LOG_NOTICE ''stopping daemon'' [AInt MAJOR_VERSION, AInt MINOR_VERSION])
     (andthen (unlock_our_memory E)
     (andthen (close_all E)
     (andthen (ignored (remove_pid_file E))
     (andthen (ignored (close_logging E))
     (andthen (do_sys E (ProcCall (Usleep 100000)))
     (stop code))))))"

definition panic :: "env \<Rightarrow> ('s shut_state_scheme, 'a) proc" where
  "panic E =
     andthen (ignored (open_logging E None (MSG_TO_STDERR OR MSG_TO_SYSLOG)))
     (andthen (log_msg E LOG_ALERT ''WATCHDOG PANIC: failed to reboot, trying hard-reset'' [])
     (bind (gets (dev_timeout \<circ> cfg)) (\<lambda>t.
      andthen (do_sys E (ProcCall (Sleep (uint32 (t * 4)))))
     (andthen (log_msg E LOG_ALERT ''WATCHDOG PANIC: still alive after sleeping'' [AInt (int32 (4 * t))])
     (andthen (close_all E)
     (andthen (ignored (close_logging E))
     (stop 1)))))))"

section \<open>Swap and quota\<close>

text \<open>\<open>hasmntopt\<close>: the option stands at the start or after a comma, and ends with the string, a
  comma or an equals sign.\<close>

fun has_option :: "bool \<Rightarrow> string \<Rightarrow> string \<Rightarrow> bool" where
  "has_option at_start opt [] = (at_start \<and> opt = [])"
| "has_option at_start opt (c # cs) =
     (at_start \<and> is_prefix opt (c # cs) \<and>
        (let rest = drop (length opt) (c # cs) in rest = [] \<or> hd rest = CHR '','' \<or> hd rest = CHR ''='') \<or>
      has_option (c = CHR '','') opt cs)"

definition hasmntopt :: "string \<Rightarrow> string \<Rightarrow> bool" where
  "hasmntopt opts opt = has_option True opt opts"

definition or_perror :: "env \<Rightarrow> sys_call \<Rightarrow> string \<Rightarrow> ('s shut_state_scheme, unit) proc" where
  "or_perror E c what = bind (ssys E c) (\<lambda>r. whenp (rv r < 0) (perror E what (err r)))"

definition mnt_off_entry :: "env \<Rightarrow> string \<Rightarrow> string \<Rightarrow> string \<Rightarrow> ('s shut_state_scheme, unit) proc" where
  "mnt_off_entry E fsname type opts =
     andthen (whenp (type = ''swap'') (or_perror E (Swapoff fsname) fsname))
     (if hasmntopt opts ''noauto'' \<or> type \<noteq> ''ext2'' then ret ()
      else
        andthen (whenp (hasmntopt opts ''grpquota'') (or_perror E (Quotaoff True fsname) fsname))
        (whenp (hasmntopt opts ''usrquota'') (or_perror E (Quotaoff False fsname) fsname)))"

text \<open>The entries of the table, four strings each.\<close>

fun mnt_off_entries :: "env \<Rightarrow> string list \<Rightarrow> ('s shut_state_scheme, unit) proc" where
  "mnt_off_entries E (fsname # dir # type # opts # rest) =
     andthen (mnt_off_entry E fsname type opts) (mnt_off_entries E rest)"
| "mnt_off_entries E _ = ret ()"

definition mnt_off :: "env \<Rightarrow> ('s shut_state_scheme, unit) proc" where
  "mnt_off E =
     bind (fsys E (Setmntent PATH_MNTTAB)) (\<lambda>fp.
     andthen (whenp (rv fp \<noteq> 0) (mnt_off_entries E (names fp)))
     (do_sys E (FileCall (Endmntent (rv fp)))))"

section \<open>Killing all processes\<close>

fun readproc_entries :: "env \<Rightarrow> int \<Rightarrow> string list \<Rightarrow> ('s shut_state_scheme, int) proc" where
  "readproc_entries E dir [] = andthen (do_sys E (FileCall (Closedir dir))) (ret 0)"
| "readproc_entries E dir (d # ds) =
     (if atoi d = 0 then readproc_entries E dir ds
      else
        bind (psys E (Malloc 16)) (\<lambda>m.
        if rv m = 0 then
          andthen (log_msg E LOG_ERR ''out of memory'' [])
          (andthen (do_sys E (FileCall (Closedir dir)))
          (ret (- 1)))
        else
          bind (psys E (Getsid (atoi d))) (\<lambda>sid.
          andthen (modify (plist_update (\<lambda>ps. \<lparr>p_pid = atoi d, p_sid = rv sid\<rparr> # ps)))
          (readproc_entries E dir ds))))"

definition readproc :: "env \<Rightarrow> ('s shut_state_scheme, int) proc" where
  "readproc E =
     bind (fsys E (Opendir ''/proc'')) (\<lambda>dir.
     if rv dir = 0 then andthen (log_msg E LOG_ERR ''cannot opendir /proc'' []) (ret (- 1))
     else
       andthen (modify (plist_update (\<lambda>_. [])))
       (readproc_entries E (rv dir) (names dir)))"

definition own_sid :: "int \<Rightarrow> PROC list \<Rightarrow> int" where
  "own_sid self ps = (case find (\<lambda>p. p_pid p = self) ps of None \<Rightarrow> - 1 | Some p \<Rightarrow> p_sid p)"

definition spared :: "int \<Rightarrow> int \<Rightarrow> PROC \<Rightarrow> bool" where
  "spared self sid p \<longleftrightarrow> p_pid p = self \<or> p_sid p = sid \<or> p_sid p = 0"

definition kill_others :: "env \<Rightarrow> int \<Rightarrow> ('s shut_state_scheme, unit) proc" where
  "kill_others E sig =
     bind (gets plist) (\<lambda>ps.
     bind (gets daemon_pid) (\<lambda>self.
     run_all (map (\<lambda>p. whenp (\<not> spared self (own_sid self ps) p) (do_sys E (ProcCall (Kill (p_pid p) sig)))) ps)))"

definition killall5 :: "env \<Rightarrow> int \<Rightarrow> ('s shut_state_scheme, unit) proc" where
  "killall5 E sig =
     andthen (ignored suspend_logging)
     (andthen (do_sys E (ProcCall (Kill (- 1) SIGSTOP)))
     (bind (readproc E) (\<lambda>r.
      andthen (whenp (r = 0) (kill_others E sig))
     (andthen (do_sys E (ProcCall (Kill (- 1) SIGCONT)))
     (ignored (resume_logging E))))))"

section \<open>The clean part of a shutdown\<close>

text \<open>Mail to the administrator. The command line is built in a buffer of 128 bytes.\<close>

definition mail_body :: "env \<Rightarrow> int \<Rightarrow> string" where
  "mail_body E errorcode =
     (if errorcode = ETOOHOT then
        ''Message from watchdog: It is too hot to keep on working. The system will be halted!''
      else fmt E ''Message from watchdog: The system will be rebooted because of error %d = %s''
             [AInt errorcode, AStr (wd_strerror E errorcode)])"

definition mail_print :: "env \<Rightarrow> int \<Rightarrow> string \<Rightarrow> ('s shut_state_scheme, unit) proc \<Rightarrow> ('s shut_state_scheme, unit) proc" where
  "mail_print E ph txt k =
     andthen (do_sys E (MailCall (Mail_printf ph txt)))
     (bind (msys E (Mail_ferror ph)) (\<lambda>r.
      if rv r \<noteq> 0 then log_msg E LOG_ERR ''cannot send mail'' [AInt (err r)] else k))"

definition send_mail :: "env \<Rightarrow> int \<Rightarrow> string \<Rightarrow> int \<Rightarrow> ('s shut_state_scheme, unit) proc" where
  "send_mail E ph to errorcode =
     bind (msys E Gethostname) (\<lambda>me.
     andthen
       (mail_print E ph (fmt E ''To: %s'' [AStr to])
         (bind (msys E (Gethostbyname (dat me))) (\<lambda>hp.
          mail_print E ph (fmt E ''Subject: %s is going down!'' [AStr (if rv hp \<noteq> 0 then dat hp else dat me)])
            (mail_print E ph (mail_body E errorcode) (ret ())))))
     (bind (msys E (Pclose ph)) (\<lambda>r.
      whenp (rv r = - 1) (log_msg E LOG_ERR ''cannot finish mail'' [AInt (err r)]))))"

definition tell_admin :: "env \<Rightarrow> int \<Rightarrow> ('s shut_state_scheme, unit) proc" where
  "tell_admin E errorcode =
     bind (gets (admin \<circ> cfg)) (\<lambda>adm.
     case adm of
       None \<Rightarrow> ret ()
     | Some to \<Rightarrow>
         bind (fsys E (Stat PATH_SENDMAIL)) (\<lambda>st.
         if rv st \<noteq> 0 \<or> v1 st AND S_IXUSR = 0 then
           log_msg E LOG_ERR ''sendmail does not exist or is not executable'' [AStr PATH_SENDMAIL, AInt (err st)]
         else
           (let exe = PATH_SENDMAIL @ '' -i '' @ to in
            if length exe \<ge> 128 then fault
            else
              bind (msys E (Popen exe)) (\<lambda>ph.
              if rv ph = 0 then log_msg E LOG_ERR ''cannot start sendmail'' [AStr PATH_SENDMAIL, AInt (err ph)]
              else send_mail E (rv ph) to errorcode))))"

definition close_files :: "env \<Rightarrow> ('s shut_state_scheme, unit) proc" where
  "close_files E =
     andthen (run_all (map (\<lambda>i. bind (psys E (Isatty i)) (\<lambda>r. whenp (rv r = 0) (do_sys E (FileCall (Close i)))))
                [0, 1, 2]))
     (andthen (run_all (map (\<lambda>i. bind get_watchdog_fd (\<lambda>fd. whenp (int i \<noteq> fd) (do_sys E (FileCall (Close (int i))))))
                [3..<20]))
     (do_sys E (FileCall (Close 255))))"

definition ignore_signals :: "env \<Rightarrow> ('s shut_state_scheme, unit) proc" where
  "ignore_signals E = run_all (map (\<lambda>i. do_sys E (ProcCall (Signal_ignore (int i)))) [1..<NSIG])"

definition stop_processes :: "env \<Rightarrow> ('s shut_state_scheme, unit) proc" where
  "stop_processes E =
     andthen (do_sys E (ProcCall (Kill 1 SIGTSTP)))
     (andthen (killall5 E SIGTERM)
     (andthen (wd_safe_sleep E 1)
     (andthen (killall5 E SIGTERM)
     (bind (gets (sigterm_delay \<circ> cfg)) (\<lambda>d.
      andthen (wd_safe_sleep E (int32 (d - 1)))
     (andthen (killall5 E SIGKILL)
     (andthen (ignored (wd_keep_alive E))
     (andthen (killall5 E SIGKILL)
     (ignored (wd_keep_alive E))))))))))"

text \<open>The record in wtmp: its bytes depend on the layout of \<open>struct utmp\<close> and on the time, and are
  what \<open>fmt\<close> makes of these fields.\<close>

definition wtmp_record :: "env \<Rightarrow> int \<Rightarrow> string" where
  "wtmp_record E t = fmt E ''utmp'' [AStr ''shutdown'', AStr ''~'', AStr ''~~'', AInt 0, AInt 1, AInt t]"

definition record_wtmp :: "env \<Rightarrow> ('s shut_state_scheme, unit) proc" where
  "record_wtmp E =
     bind (fsys E (Open PATH_WTMP O_WRONLY_APPEND)) (\<lambda>fd.
     whenp (rv fd \<ge> 0)
       (bind (psys E Time) (\<lambda>t.
        bind (fsys E (Write (rv fd) (wtmp_record E (v1 t)))) (\<lambda>w.
        andthen (whenp (rv w < 0) (log_msg E LOG_ERR ''failed writing wtmp'' [AInt (err w)]))
        (do_sys E (FileCall (Close (rv fd))))))))"

definition save_seed :: "env \<Rightarrow> ('s shut_state_scheme, unit) proc" where
  "save_seed E =
     whenp (RANDOM_SEED \<noteq> [])
       (bind (fsys E (Open ''/dev/urandom'' O_RDONLY)) (\<lambda>sd.
        whenp (rv sd \<ge> 0)
          (andthen
            (bind (fsys E (Creat RANDOM_SEED)) (\<lambda>bck.
             whenp (rv bck \<ge> 0)
               (bind (fsys E (Read (rv sd) 512)) (\<lambda>r.
                andthen
                  (whenp (rv r = 512)
                    (bind (fsys E (Write (rv bck) (dat r))) (\<lambda>w.
                     whenp (rv w < 0) (log_msg E LOG_ERR ''failed writing urandom'' [AInt (err w)]))))
                (do_sys E (FileCall (Close (rv bck))))))))
          (do_sys E (FileCall (Close (rv sd)))))))"

definition stop_acct :: "env \<Rightarrow> ('s shut_state_scheme, unit) proc" where
  "stop_acct E =
     bind (ssys E Acct_off) (\<lambda>r.
     whenp (rv r < 0) (log_msg E LOG_ERR ''failed stopping acct()'' [AInt (err r)]))"

section \<open>Network interfaces (ifdown.c)\<close>

definition ifdown_one :: "env \<Rightarrow> int \<Rightarrow> string \<Rightarrow> ('s shut_state_scheme, unit) proc" where
  "ifdown_one E fd nm =
     (if nm = ''lo'' \<or> CHR '':'' \<in> set nm then ret ()
      else
        bind (nsys E (Siocsifflags_down fd nm)) (\<lambda>r.
        whenp (rv r < 0)
          (andthen (fprintf_err E ''ifdown: shutdown '' []) (perror E nm (err r)))))"

definition ifdown :: "env \<Rightarrow> ('s shut_state_scheme, int) proc" where
  "ifdown E =
     bind (nsys E Dgram_socket) (\<lambda>fd.
     if rv fd < 0 then
       andthen (fprintf_err E ''ifdown: '' []) (andthen (perror E ''socket'' (err fd)) (ret (- 1)))
     else
       bind (nsys E (Siocgifconf (rv fd))) (\<lambda>ifc.
       if rv ifc < 0 then
         andthen (fprintf_err E ''ifdown: '' [])
         (andthen (perror E ''SIOCGIFCONF'' (err ifc))
         (andthen (do_sys E (FileCall (Close (rv fd)))) (ret (- 1))))
       else
         andthen (run_all (map (ifdown_one E (rv fd)) (take MAX_IFS (names ifc))))
         (andthen (do_sys E (FileCall (Close (rv fd)))) (ret 0))))"

section \<open>Shutting down\<close>

definition try_clean_shutdown :: "env \<Rightarrow> int \<Rightarrow> ('s shut_state_scheme, unit) proc" where
  "try_clean_shutdown E errorcode =
     run_all [tell_admin E errorcode, ignored (close_logging E), wd_safe_sleep E 10, close_files E,
       ignore_signals E, stop_processes E, ignored (remove_pid_file E), record_wtmp E, save_seed E,
       stop_acct E, ignored (wd_keep_alive E), mnt_off E, ignored (umount_all E []), ignored (ifdown E)]"

definition final_reboot :: "env \<Rightarrow> int \<Rightarrow> ('s shut_state_scheme, unit) proc" where
  "final_reboot E errorcode =
     (if errorcode \<noteq> ETOOHOT then
        bind get_watchdog_fd (\<lambda>fd.
        andthen
          (whenp (fd \<noteq> - 1)
            (andthen (ignored (set_watchdog_timeout E 1))
            (bind (gets (dev_timeout \<circ> cfg)) (\<lambda>t. do_sys E (ProcCall (Sleep (uint32 (t * 4))))))))
        (do_sys E (SysCall (Reboot RB_AUTOBOOT))))
      else
        bind (gets (temp_poweroff \<circ> cfg)) (\<lambda>p.
        if p \<noteq> 0 then do_sys E (SysCall (Reboot RB_POWER_OFF))
        else
          andthen (do_sys E (SysCall (Reboot RB_ENABLE_CAD)))
          (do_sys E (SysCall (Reboot RB_HALT_SYSTEM)))))"

definition do_shutdown :: "env \<Rightarrow> int \<Rightarrow> ('s shut_state_scheme, 'a) proc" where
  "do_shutdown E errorcode =
     andthen (log_msg E LOG_ALERT ''shutting down the system because of error''
        [AInt errorcode, AStr (wd_strerror E errorcode)])
     (andthen
       (if errorcode \<noteq> ERESET then try_clean_shutdown E errorcode
        else andthen (do_sys E (SysCall Sync)) (do_sys E (ProcCall (Sleep 1))))
     (andthen (final_reboot E errorcode)
     (panic E)))"

section \<open>What happens before the final call\<close>

text \<open>The calls no other function makes: \<open>reboot\<close>, and the start of a process.\<close>

fun is_reboot :: "syscall \<Rightarrow> bool" where
  "is_reboot (SysCall (Reboot k)) = True"
| "is_reboot c = False"

fun is_fork :: "syscall \<Rightarrow> bool" where
  "is_fork (ProcCall Fork) = True"
| "is_fork c = False"

abbreviation mild :: "('s os_state_scheme, 'a) proc \<Rightarrow> bool" where
  "mild \<equiv> emits (\<lambda>c. \<not> is_reboot c \<and> \<not> is_fork c)"

lemma log_call_mild [simp]: "is_log_call c \<Longrightarrow> \<not> is_reboot c \<and> \<not> is_fork c"
  by (cases c rule: is_log_call.cases) simp_all

lemma emits_map: "(\<And>x. emits P (f x)) \<Longrightarrow> emits P (run_all (map f xs))"
  by (induction xs) (simp_all add: emits_ret emits_andthen)

lemma mild_messages [emits_intro]:
  "mild (perror E what e)" "mild (printf_out E f args)" "mild (fprintf_err E f args)"
  unfolding perror_def printf_out_def fprintf_err_def by (intro emits_intro; simp)+

lemma mild_memory [emits_intro]:
  "mild (xmalloc E n)" "mild (xstrdup E t)" "mild (xstrndup E t k)" "mild (error_msg E f args)"
  unfolding error_msg_def xstrconcat2_def xstrconcat_def xstrndup_def xstrdup_def xmalloc_def
  by (intro emits_intro; simp)+

lemma mild_heartbeat [emits_intro]: "mild (write_heartbeat E)"
  unfolding write_heartbeat_def put_stamp_def next_value_def write_stamps_def fwrite_stamps_def
  by (intro emits_intro) simp_all

lemma mild_keep_alive [emits_intro]: "mild (wd_keep_alive E)" "mild (wd_safe_sleep E sec)"
  unfolding wd_keep_alive_def wd_safe_sleep_def safe_sleep_def keep_alive_stmt_def keep_alive_def
  by (intro emits_intro; simp)+

lemma mild_ignored [emits_intro]: "mild m \<Longrightarrow> mild (ignored m)"
  unfolding ignored_def by (intro emits_intro)

lemma mild_device [emits_intro]: "mild (close_watchdog E)" "mild (set_watchdog_timeout E n)"
proof -
  show "mild (close_watchdog E)" unfolding close_watchdog_def by (intro emits_intro) simp_all
  have "mild (try_times E n ts)" for ts
    by (induction ts) (simp_all only: try_times.simps, (intro emits_intro; simp)+)
  then show "mild (set_watchdog_timeout E n)"
    unfolding set_watchdog_timeout_def try_other_times_def by (intro emits_intro) simp_all
qed

lemma mild_close_all [emits_intro]: "mild (close_all E)"
  unfolding close_all_def close_loadcheck_def close_memcheck_def close_tempcheck_def close_heartbeat_def free_process_def
  by (simp only: run_all.simps, intro emits_intro) simp_all

lemma mild_mntent [emits_intro]:
  "mild (my_setmntent E file mode)" "mild (my_endmntent E mfp)" "mild (my_addmntent E mfp m)" "mild (my_getmntent E mfp)"
proof -
  have un: "mild (unmangle E s)" "mild (mangle E t)" for s t
    unfolding unmangle_def mangle_def by (intro emits_intro)+
  have parse: "mild (parse_mntent E s)" for s
    unfolding parse_mntent_def by (intro emits_intro un)
  have "mild (getmntent_loop E mfp ls)" for mfp ls
    by (induction ls arbitrary: mfp)
      (simp_all only: getmntent_loop.simps bad_line_def, (intro emits_intro parse | simp)+)
  then show "mild (my_getmntent E mfp)" unfolding my_getmntent_def .
  show "mild (my_setmntent E file mode)" "mild (my_endmntent E mfp)" "mild (my_addmntent E mfp m)"
    unfolding my_setmntent_def my_endmntent_def my_addmntent_def by (intro emits_intro un; simp)+
qed

lemma mild_mtab [emits_intro]:
  "mild (mtab_does_not_exist E)" "mild (mtab_is_a_symlink E)" "mild (mtab_is_writable E)"
  unfolding mtab_does_not_exist_def mtab_is_writable_def mtab_is_a_symlink_def get_mtab_info_def
  by (intro emits_intro; simp)+

lemma mild_lock [emits_intro]: "mild (unlock_mtab E)" "mild (die E code f args)" "mild (lock_mtab E)"
proof -
  show un: "mild (unlock_mtab E)" unfolding unlock_mtab_def by (intro emits_intro) simp_all
  show die: "mild (die E code f args)" for code f args
    unfolding die_def by (intro emits_intro un)
  show "mild (lock_mtab E)"
    unfolding lock_mtab_def by (intro emits_intro die) (simp_all add: list_all_iff emits_do_sys)
qed

lemma mild_update [emits_intro]: "mild (update_mtab E dir instead)"
proof -
  have wr: "mild (write_entry E mf m)" for mf m unfolding write_entry_def by (intro emits_intro)
  have re: "mild (remounted E i m)" for i m unfolding remounted_def by (intro emits_intro)
  have "mild (copy_entries n E dir instead mfp mf k)" for n mfp mf k
    by (induction n arbitrary: mfp k) (simp_all only: copy_entries.simps, (intro emits_intro wr re | assumption)+)
  then show ?thesis
    unfolding update_mtab_def copy_mtab_def rewrite_mtab_def by (intro emits_intro wr) simp_all
qed

lemma mild_tables [emits_intro]: "mild (mtab_head E)" "mild (getmntfile E name)" "mild (getmntoptfile E file)"
proof -
  have "mild (read_entries n E mfp)" for n mfp
    by (induction n arbitrary: mfp) (simp_all only: read_entries.simps, (intro emits_intro | assumption)+)
  then show head: "mild (mtab_head E)"
    unfolding mtab_head_def read_mounttable_def read_mntentchn_def by (intro emits_intro) simp_all
  show "mild (getmntfile E name)" "mild (getmntoptfile E file)"
    unfolding getmntfile_def getmntoptfile_def by (intro emits_intro head)+
qed

lemma mild_umount [emits_intro]: "mild (umount_all E types)"
proof -
  have rpc: "mild (nfs_umount_rpc_call E spec opts)" for spec opts
    unfolding nfs_umount_rpc_call_def umount_rpc_def clnt_call_def by (intro emits_intro) simp_all
  have loop: "mild (del_loop E d)" "mild (del_loop_option E opts)" for d opts
    unfolding del_loop_option_def del_loop_def by (intro emits_intro; simp)+
  have compl: "mild (complain E e d)" for e d
    unfolding complain_def by (intro emits_intro)
  have fail: "mild (umount_failed E spec node e e2)" for spec node e e2
    unfolding umount_failed_def by (intro emits_intro compl)
  have dn: "mild (umount_done E spec node e e2)" for spec node e e2
    unfolding umount_done_def forget_mount_def by (intro emits_intro loop fail)
  have one: "mild (umount_one E spec node type opts)" for spec node type opts
    unfolding umount_one_def try_umount_def try_remount_def by (intro emits_intro rpc fail dn) simp_all
  have "mild (umount_each E types mcs n)" for mcs n
    by (induction mcs arbitrary: n) (simp_all only: umount_each.simps, (intro emits_intro one | assumption)+)
  then show ?thesis unfolding umount_all_def by (intro emits_intro) simp_all
qed

lemma mild_killall5 [emits_intro]: "mild (killall5 E sig)"
proof -
  have "mild (readproc_entries E dir ds)" for dir ds
    by (induction ds) (simp_all only: readproc_entries.simps, (intro emits_intro | assumption | simp)+)
  then show ?thesis
    unfolding killall5_def readproc_def kill_others_def
    by (intro emits_intro) (simp_all add: list_all_iff emits_whenp emits_do_sys)
qed

lemma mild_ifdown [emits_intro]: "mild (ifdown E)"
proof -
  have "mild (ifdown_one E fd nm)" for fd nm
    unfolding ifdown_one_def by (intro emits_intro) simp_all
  then show ?thesis unfolding ifdown_def by (intro emits_map emits_intro) simp_all
qed

lemma mild_shutdown_parts [emits_intro]:
  "mild (tell_admin E code)" "mild (close_files E)" "mild (ignore_signals E)" "mild (stop_processes E)"
  "mild (record_wtmp E)" "mild (save_seed E)" "mild (stop_acct E)" "mild (remove_pid_file E)"
  unfolding tell_admin_def send_mail_def mail_print_def close_files_def ignore_signals_def stop_processes_def
    record_wtmp_def save_seed_def stop_acct_def remove_pid_file_def get_watchdog_fd_def
  by ((rule emits_map emits_intro | simp)+)

lemma mild_mnt_off [emits_intro]: "mild (mnt_off E)"
proof -
  have "mild (mnt_off_entries E ns)" for ns
    by (induction ns rule: mnt_off_entries.induct)
      (simp_all only: mnt_off_entries.simps mnt_off_entry_def or_perror_def, (intro emits_intro | assumption | simp)+)
  then show ?thesis unfolding mnt_off_def by (intro emits_intro) simp_all
qed

lemma mild_clean [emits_intro]: "mild (try_clean_shutdown E code)"
  unfolding try_clean_shutdown_def by (simp only: run_all.simps, intro emits_intro) simp_all

lemma mild_panic [emits_intro]: "mild (panic E)"
  unfolding panic_def by (intro emits_intro) simp_all

section \<open>How a shutdown ends\<close>

text \<open>\<open>exits c m\<close>: in every state \<open>m\<close> ends the process with code \<open>c\<close>.\<close>

definition exits :: "int \<Rightarrow> ('s, 'a) proc \<Rightarrow> bool" where
  "exits c m \<longleftrightarrow> (\<forall>s. \<exists>s'. m s = (Exit c, s'))"

lemma exits_stop: "exits c (stop c)"
  by (simp add: exits_def)

lemma exits_bind: "returns m \<Longrightarrow> (\<And>x. exits c (f x)) \<Longrightarrow> exits c (bind m f)"
  unfolding exits_def returns_def by (metis bind_apply_Ret)

lemma exits_andthen: "returns m \<Longrightarrow> exits c n \<Longrightarrow> exits c (andthen m n)"
  unfolding andthen_def by (rule exits_bind)

lemmas exits_intro = exits_stop exits_bind exits_andthen

lemma returns_ignored [returns_intro]: "returns m \<Longrightarrow> returns (ignored m)"
  unfolding ignored_def by (intro returns_intro)

lemma returns_close_all [returns_intro]: "returns (close_all E)"
  unfolding close_all_def close_watchdog_def close_loadcheck_def close_memcheck_def close_tempcheck_def
    close_heartbeat_def free_process_def
  by (simp only: run_all.simps, intro returns_intro)

lemma returns_set_timeout [returns_intro]: "returns (set_watchdog_timeout E n)"
proof -
  have "returns (try_times E n ts)" for ts
    by (induction ts) (simp_all only: try_times.simps, (intro returns_intro | simp)+)
  then show ?thesis
    unfolding set_watchdog_timeout_def try_other_times_def by (intro returns_intro)
qed

lemma exits_panic: "exits 1 (panic E)"
  unfolding panic_def by (intro exits_intro returns_intro)

lemma exits_terminate: "exits code (terminate E code)"
  unfolding terminate_def unlock_our_memory_def remove_pid_file_def by (intro exits_intro returns_intro)

text \<open>The final calls.\<close>

definition final_calls :: "int \<Rightarrow> int \<Rightarrow> syscall list" where
  "final_calls errorcode poweroff =
     map (SysCall \<circ> Reboot) (if errorcode \<noteq> ETOOHOT then [RB_AUTOBOOT]
       else if poweroff \<noteq> 0 then [RB_POWER_OFF] else [RB_ENABLE_CAD, RB_HALT_SYSTEM])"

lemma mild_calls:
  assumes "mild m" and "m s = (r, s')"
  shows "calls is_reboot s' = calls is_reboot s"
  using assms by (elim emitsE) (auto simp: calls_def filter_empty_conv)

lemma final_reboot_run:
  "\<exists>s'. final_reboot E code s = (Ret (), s') \<and>
     calls is_reboot s' = calls is_reboot s @ final_calls code (temp_poweroff (cfg s))"
proof (cases "code = ETOOHOT")
  case True
  then show ?thesis by (auto simp: final_reboot_def final_calls_def)
next
  case False
  let ?pre = "\<lambda>fd. whenp (fd \<noteq> - 1) (andthen (ignored (set_watchdog_timeout E 1))
            (bind (gets (dev_timeout \<circ> cfg)) (\<lambda>t. do_sys E (ProcCall (Sleep (uint32 (t * 4)))))))"
  have "returns (?pre fd)" for fd by (intro returns_intro)
  then obtain s1 where 1: "?pre (watchdog_fd s) s = (Ret (), s1)" by (rule returns_unitE)
  have "mild (?pre fd)" for fd by (intro emits_intro) simp
  then have "calls is_reboot s1 = calls is_reboot s" using 1 by (rule mild_calls)
  with False 1 show ?thesis
    by (auto simp: final_reboot_def get_watchdog_fd_def final_calls_def andthen_apply_Ret)
qed

text \<open>The calls of a shutdown: the part before the final calls either ends the process or returns, and
  then the final calls are made.\<close>

definition prepare :: "env \<Rightarrow> int \<Rightarrow> ('s shut_state_scheme, unit) proc" where
  "prepare E errorcode =
     andthen (log_msg E LOG_ALERT ''shutting down the system because of error''
        [AInt errorcode, AStr (wd_strerror E errorcode)])
     (if errorcode \<noteq> ERESET then try_clean_shutdown E errorcode
      else andthen (do_sys E (SysCall Sync)) (do_sys E (ProcCall (Sleep 1))))"

lemma do_shutdown_prepare: "do_shutdown E code = andthen (prepare E code) (andthen (final_reboot E code) (panic E))"
  by (simp add: do_shutdown_def prepare_def proc_assoc)

lemma mild_prepare: "mild (prepare E code)"
  unfolding prepare_def by (intro emits_intro) simp_all

lemma shutdown_after_prepare:
  assumes "prepare E code s = (Ret (), s1)"
  shows "\<exists>s'. (do_shutdown E code :: ('s shut_state_scheme, 'a) proc) s = (Exit 1, s') \<and>
     calls is_reboot s' = calls is_reboot s @ final_calls code (temp_poweroff (cfg s1))"
proof -
  obtain s2 where 2: "final_reboot E code s1 = (Ret (), s2)"
    "calls is_reboot s2 = calls is_reboot s1 @ final_calls code (temp_poweroff (cfg s1))"
    using final_reboot_run by blast
  obtain s3 where 3: "(panic E :: ('s shut_state_scheme, 'a) proc) s2 = (Exit 1, s3)" using exits_panic unfolding exits_def by blast
  have "(do_shutdown E code :: ('s shut_state_scheme, 'a) proc) s = (Exit 1, s3)"
    unfolding do_shutdown_prepare by (rule run_andthen, rule assms, rule run_andthen, rule 2(1), rule 3)
  with 2(2) mild_calls [OF mild_prepare assms] mild_calls [OF mild_panic 3] show ?thesis by auto
qed

lemma do_shutdown_calls:
  "\<exists>r s' rs. (do_shutdown E code :: ('s shut_state_scheme, 'a) proc) s = (r, s') \<and> (\<forall>x. r \<noteq> Ret x) \<and>
     calls is_reboot s' = calls is_reboot s @ rs \<and> rs \<in> {[], final_calls code 0, final_calls code 1}"
proof -
  obtain r1 s1 where 1: "prepare E code s = (r1, s1)" by fastforce
  show ?thesis
  proof (cases "r1 = Ret ()")
    case True
    with 1 shutdown_after_prepare [where 'a = 'a, of E code s s1] show ?thesis by (auto simp: final_calls_def)
  next
    case False
    then have "\<exists>r. (do_shutdown E code :: ('s shut_state_scheme, 'a) proc) s = (r, s1) \<and> (\<forall>x. r \<noteq> Ret x)"
      unfolding do_shutdown_prepare andthen_def using 1 by (cases r1) (auto simp: bind_def)
    moreover have "calls is_reboot s1 = calls is_reboot s" using mild_prepare 1 by (rule mild_calls)
    ultimately show ?thesis by auto
  qed
qed

text \<open>C3. A shutdown never returns to its caller, whatever the kernel replies; and it makes no other
  call of \<open>reboot\<close> than the ones its reason asks for: a restart, or, when the machine is too hot, power
  off or a halt after Ctrl-Alt-Del has been enabled.\<close>

theorem shutdown_never_returns:
  "\<exists>r s' rs. (do_shutdown E code :: ('s shut_state_scheme, 'a) proc) s = (r, s') \<and> (\<forall>x. r \<noteq> Ret x) \<and>
     calls is_reboot s' = calls is_reboot s @ rs \<and>
     rs \<in> (if code = ETOOHOT
             then {[], [SysCall (Reboot RB_POWER_OFF)], [SysCall (Reboot RB_ENABLE_CAD), SysCall (Reboot RB_HALT_SYSTEM)]}
             else {[], [SysCall (Reboot RB_AUTOBOOT)]})"
  using do_shutdown_calls [where 'a = 'a, of E code s] by (cases "code = ETOOHOT") (simp_all add: final_calls_def insert_commute)

text \<open>The hard way down.\<close>

fun disturbs :: "syscall \<Rightarrow> bool" where
  "disturbs (SysCall c) = True"
| "disturbs (ProcCall (Kill p sig)) = True"
| "disturbs (FileCall (Unlink f)) = True"
| "disturbs c = False"

lemma log_call_undisturbing [simp]: "is_log_call c \<Longrightarrow> \<not> disturbs c"
  by (cases c rule: is_log_call.cases) simp_all

lemma gentle_device [emits_intro]:
  "emits (\<lambda>c. \<not> disturbs c) (close_watchdog E)" "emits (\<lambda>c. \<not> disturbs c) (set_watchdog_timeout E n)"
proof -
  show "emits (\<lambda>c. \<not> disturbs c) (close_watchdog E)" unfolding close_watchdog_def by (intro emits_intro) simp_all
  have "emits (\<lambda>c. \<not> disturbs c) (try_times E n ts)" for ts
    by (induction ts) (simp_all only: try_times.simps, (intro emits_intro; simp)+)
  then show "emits (\<lambda>c. \<not> disturbs c) (set_watchdog_timeout E n)"
    unfolding set_watchdog_timeout_def try_other_times_def by (intro emits_intro) simp_all
qed

lemma gentle_panic: "emits (\<lambda>c. \<not> disturbs c) (panic E)"
  unfolding panic_def close_all_def close_loadcheck_def close_memcheck_def close_tempcheck_def close_heartbeat_def
    free_process_def ignored_def
  by (simp only: run_all.simps, intro emits_intro) simp_all

lemma restart_run:
  assumes "code \<noteq> ETOOHOT"
  shows "\<exists>s'. final_reboot E code s = (Ret (), s') \<and> calls disturbs s' = calls disturbs s @ [SysCall (Reboot RB_AUTOBOOT)]"
proof -
  let ?pre = "\<lambda>fd. whenp (fd \<noteq> - 1) (andthen (ignored (set_watchdog_timeout E 1))
            (bind (gets (dev_timeout \<circ> cfg)) (\<lambda>t. do_sys E (ProcCall (Sleep (uint32 (t * 4)))))))"
  have "returns (?pre fd)" for fd by (intro returns_intro)
  then obtain s1 where 1: "?pre (watchdog_fd s) s = (Ret (), s1)" by (rule returns_unitE)
  have "emits (\<lambda>c. \<not> disturbs c) (?pre fd)" for fd unfolding ignored_def by (intro emits_intro) simp
  from keepsD [OF emits_keeps_calls [OF this] 1] assms 1 show ?thesis
    by (auto simp: final_reboot_def get_watchdog_fd_def andthen_apply_Ret)
qed

lemma prepare_reset: "\<exists>s1. prepare E ERESET s = (Ret (), s1) \<and> calls disturbs s1 = calls disturbs s @ [SysCall Sync]"
  by (simp add: prepare_def log_run calls_logged)

text \<open>A reset (\<open>ERESET\<close>) is immediate: whatever the kernel replies, the disks are synchronised and
  the machine is restarted, with no process signalled, no file removed and no file system unmounted on
  the way; a daemon that survives the restart ends with code 1.\<close>

lemma hard_reset_calls:
  "\<exists>s'. (do_shutdown E ERESET :: ('s shut_state_scheme, 'a) proc) s = (Exit 1, s') \<and>
     calls disturbs s' = calls disturbs s @ [SysCall Sync, SysCall (Reboot RB_AUTOBOOT)]"
proof -
  obtain s1 where 1: "prepare E ERESET s = (Ret (), s1)" "calls disturbs s1 = calls disturbs s @ [SysCall Sync]"
    using prepare_reset by blast
  obtain s2 where 2: "final_reboot E ERESET s1 = (Ret (), s2)"
    "calls disturbs s2 = calls disturbs s1 @ [SysCall (Reboot RB_AUTOBOOT)]"
    using restart_run [of ERESET E s1] by (auto simp: wd_err_defs)
  obtain s3 where 3: "(panic E :: ('s shut_state_scheme, 'a) proc) s2 = (Exit 1, s3)"
    using exits_panic unfolding exits_def by blast
  have "(do_shutdown E ERESET :: ('s shut_state_scheme, 'a) proc) s = (Exit 1, s3)"
    unfolding do_shutdown_prepare by (rule run_andthen, rule 1(1), rule run_andthen, rule 2(1), rule 3)
  with 1(2) 2(2) keepsD [OF emits_keeps_calls [OF gentle_panic] 3] show ?thesis by simp
qed

section \<open>Killing all other processes\<close>

text \<open>The numbered directories of \<^verbatim>\<open>/proc\<close>, in the order of the list, on a machine where processes do
  not change their session.\<close>

definition process_ids :: "string list \<Rightarrow> int list" where
  "process_ids ds = filter (\<lambda>p. p \<noteq> 0) (map atoi ds)"

definition proc_readable :: "env \<Rightarrow> string list \<Rightarrow> (int \<Rightarrow> int) \<Rightarrow> bool" where
  "proc_readable E ds sid \<longleftrightarrow> (\<forall>tr. rv (kern E tr (FileCall (Opendir ''/proc''))) \<noteq> 0 \<and>
     names (kern E tr (FileCall (Opendir ''/proc''))) = ds \<and> rv (kern E tr (ProcCall (Malloc 16))) \<noteq> 0 \<and>
     (\<forall>p. rv (kern E tr (ProcCall (Getsid p))) = sid p))"

abbreviation with_sid :: "(int \<Rightarrow> int) \<Rightarrow> int \<Rightarrow> PROC" where
  "with_sid sid p \<equiv> \<lparr>p_pid = p, p_sid = sid p\<rparr>"

lemma readproc_entries_run:
  assumes "proc_readable E ds0 sid"
  shows "\<exists>s' es. readproc_entries E dir ds s = (Ret 0, s') \<and> trace s' = trace s @ es \<and>
     (\<forall>e \<in> set es. \<not> is_kill (fst e)) \<and> daemon_pid s' = daemon_pid s \<and>
     plist s' = map (with_sid sid) (rev (process_ids ds)) @ plist s"
proof (induction ds arbitrary: s)
  case Nil
  show ?case by (simp add: process_ids_def)
next
  case (Cons d ds)
  show ?case
  proof (cases "atoi d = 0")
    case True
    with Cons.IH [of s] show ?thesis by (simp add: process_ids_def)
  next
    case False
    let ?c = "ProcCall (Malloc 16)" and ?g = "ProcCall (Getsid (atoi d))"
    let ?s1 = "s\<lparr>trace := trace s @ [(?c, kern E (trace s) ?c)]\<rparr>"
    let ?s2 = "?s1\<lparr>trace := trace ?s1 @ [(?g, kern E (trace ?s1) ?g)]\<rparr>"
    let ?s3 = "plist_update (\<lambda>ps. \<lparr>p_pid = atoi d, p_sid = rv (kern E (trace ?s1) ?g)\<rparr> # ps) ?s2"
    from Cons.IH [of ?s3] False assms show ?thesis by (auto simp: process_ids_def proc_readable_def)
  qed
qed

lemma readproc_run:
  assumes "proc_readable E ds sid"
  shows "\<exists>s' es. readproc E s = (Ret 0, s') \<and> trace s' = trace s @ es \<and>
     (\<forall>e \<in> set es. \<not> is_kill (fst e)) \<and> daemon_pid s' = daemon_pid s \<and>
     plist s' = map (with_sid sid) (rev (process_ids ds))"
proof -
  let ?c = "FileCall (Opendir ''/proc'')"
  let ?s1 = "plist_update (\<lambda>_. []) (s\<lparr>trace := trace s @ [(?c, kern E (trace s) ?c)]\<rparr>)"
  from readproc_entries_run [OF assms, of "rv (kern E (trace s) ?c)" ds ?s1] assms show ?thesis
    by (auto simp: readproc_def proc_readable_def)
qed

lemma kill_list_run:
  "\<exists>s'. run_all (map (\<lambda>p. whenp (\<not> Q p) (do_sys E (ProcCall (Kill (p_pid p) sig)))) ps) s = (Ret (), s') \<and>
     calls is_kill s' = calls is_kill s @ map (\<lambda>p. ProcCall (Kill (p_pid p) sig)) (filter (\<lambda>p. \<not> Q p) ps)"
proof (induction ps arbitrary: s)
  case (Cons p ps)
  let ?c = "ProcCall (Kill (p_pid p) sig)"
  show ?case
    using Cons.IH [of s] Cons.IH [of "s\<lparr>trace := trace s @ [(?c, kern E (trace s) ?c)]\<rparr>"] by (cases "Q p") (auto simp del: do_sys_apply)
qed simp

lemma own_sid_map:
  "own_sid self (map (with_sid sid) ps) = (if self \<in> set ps then sid self else - 1)"
  by (induction ps) (auto simp: own_sid_def)

lemma killall5_run:
  assumes "proc_readable E ds sid"
  shows "\<exists>s'. killall5 E sig s = (Ret (), s') \<and> calls is_kill s' = calls is_kill s @ [ProcCall (Kill (- 1) SIGSTOP)] @
     map (\<lambda>p. ProcCall (Kill p sig))
       (filter (\<lambda>p. \<not> (p = daemon_pid s \<or>
           sid p = (if daemon_pid s \<in> set (process_ids ds) then sid (daemon_pid s) else - 1) \<or> sid p = 0))
         (rev (process_ids ds))) @
     [ProcCall (Kill (- 1) SIGCONT)]"
proof -
  let ?s0 = "if err_count s = 0 then s\<lparr>err_count := 1\<rparr> else s"
  let ?stop = "ProcCall (Kill (- 1) SIGSTOP)" and ?cont = "ProcCall (Kill (- 1) SIGCONT)"
  let ?s1 = "?s0\<lparr>trace := trace ?s0 @ [(?stop, kern E (trace ?s0) ?stop)]\<rparr>"
  have c0: "calls is_kill ?s0 = calls is_kill s" "daemon_pid ?s0 = daemon_pid s" by (simp_all add: calls_def)
  obtain s2 es where 2: "readproc E ?s1 = (Ret 0, s2)" "trace s2 = trace ?s1 @ es" "\<forall>e \<in> set es. \<not> is_kill (fst e)"
    "daemon_pid s2 = daemon_pid ?s1" "plist s2 = map (with_sid sid) (rev (process_ids ds))"
    using readproc_run [OF assms] by blast
  let ?Q = "spared (daemon_pid s2) (own_sid (daemon_pid s2) (plist s2))"
  obtain s3 where 3: "kill_others E sig s2 = (Ret (), s3)"
    "calls is_kill s3 = calls is_kill s2 @ map (\<lambda>p. ProcCall (Kill (p_pid p) sig)) (filter (\<lambda>p. \<not> ?Q p) (plist s2))"
    using kill_list_run [of ?Q E sig "plist s2" s2] by (auto simp: kill_others_def)
  let ?s4 = "s3\<lparr>trace := trace s3 @ [(?cont, kern E (trace s3) ?cont)]\<rparr>"
  obtain s5 where 5: "ignored (resume_logging E) ?s4 = (Ret (), s5)"
    using returns_ignored [OF log_returns(7)] by (rule returns_unitE)
  have "emits (\<lambda>c. \<not> is_kill c) (ignored (resume_logging E))" unfolding ignored_def by (intro emits_intro) simp
  then have 6: "calls is_kill s5 = calls is_kill ?s4" using 5 by (rule keepsD [OF emits_keeps_calls])
  have "killall5 E sig s = (Ret (), s5)"
    using 2(1) 3(1) 5 by (simp add: killall5_def ignored_def suspend_logging_def proc_assoc bind_apply_Ret andthen_apply_Ret)
  moreover have "calls is_kill s2 = calls is_kill s @ [?stop]"
    using 2(2,3) c0 by (simp add: filter_none)
  ultimately show ?thesis
    using 3(2) 6 2(4,5) c0(2) by (simp add: filter_map o_def spared_def own_sid_map)
qed

text \<open>C9. \<open>killall5\<close> freezes the system, signals every process once except the daemon itself, the other
  processes of its session and the kernel threads, and then lets the survivors continue.\<close>

theorem killall5_signals:
  assumes "proc_readable E ds sid" and "daemon_pid s \<in> set (process_ids ds)"
  shows "\<exists>s'. killall5 E sig s = (Ret (), s') \<and> calls is_kill s' = calls is_kill s @ [ProcCall (Kill (- 1) SIGSTOP)] @
     map (\<lambda>p. ProcCall (Kill p sig))
       (filter (\<lambda>p. p \<noteq> daemon_pid s \<and> sid p \<noteq> sid (daemon_pid s) \<and> sid p \<noteq> 0) (rev (process_ids ds))) @
     [ProcCall (Kill (- 1) SIGCONT)]"
  using killall5_run [OF assms(1), of sig s] assms(2) by simp


section \<open>Stopping\<close>

text \<open>C11. A daemon that stops disarms the watchdog device first, whatever the kernel replies, and ends
  with the code it was given: the machine is not reset after a regular stop.\<close>

theorem terminate_disarms:
  "\<exists>s'. (terminate E code :: ('s shut_state_scheme, 'a) proc) s = (Exit code, s') \<and>
     calls is_dev_call s' = calls is_dev_call s @
       (if watchdog_fd s = - 1 then [] else [FileCall (Write (watchdog_fd s) ''V'')])"
proof -
  let ?A = "andthen (log_msg E LOG_NOTICE ''stopping daemon'' [AInt MAJOR_VERSION, AInt MINOR_VERSION]) (unlock_our_memory E)"
  let ?B = "andthen (run_all [ignored (close_loadcheck E), ignored (close_memcheck E), ignored close_tempcheck,
       ignored (close_heartbeat E), free_process]) (andthen (ignored (remove_pid_file E))
       (andthen (ignored (close_logging E)) (andthen (do_sys E (ProcCall (Usleep 100000))) (stop code))))"
  have A: "returns ?A" "keeps watchdog_fd ?A" "emits (\<lambda>c. \<not> is_dev_call c) ?A"
    unfolding unlock_our_memory_def by (intro returns_intro keeps_intro emits_intro; simp add: log_frame_def)+
  have B: "exits code ?B" "emits (\<lambda>c. \<not> is_dev_call c) ?B"
    unfolding remove_pid_file_def close_loadcheck_def close_memcheck_def close_tempcheck_def
      close_heartbeat_def free_process_def ignored_def
    by (simp only: run_all.simps, intro exits_intro returns_intro) (simp only: run_all.simps, intro emits_intro; simp)
  obtain s1 where 1: "?A s = (Ret (), s1)" using A(1) by (rule returns_unitE)
  obtain r s2 where 2: "close_watchdog E s1 = (Ret r, s2)"
    "calls is_dev_call s2 = calls is_dev_call s1 @ closing_calls (watchdog_fd s1)"
    using close_watchdog_run by blast
  obtain s3 where 3: "(?B :: ('s shut_state_scheme, 'a) proc) s2 = (Exit code, s3)" using B(1) unfolding exits_def by blast
  have "terminate E code = andthen ?A (andthen (ignored (close_watchdog E)) (?B :: ('s shut_state_scheme, 'a) proc))"
    by (simp add: terminate_def close_all_def proc_assoc)
  then have "(terminate E code :: ('s shut_state_scheme, 'a) proc) s = (Exit code, s3)"
    using 1 2(1) 3 by (simp add: andthen_apply_Ret bind_apply_Ret ignored_def)
  moreover have "watchdog_fd s1 = watchdog_fd s" using A(2) 1 by (rule keepsD)
  moreover have "calls is_dev_call s1 = calls is_dev_call s" "calls is_dev_call s3 = calls is_dev_call s2"
    using keepsD [OF emits_keeps_calls [OF A(3)] 1] keepsD [OF emits_keeps_calls [OF B(2)] 3] by simp_all
  ultimately show ?thesis using 2(2) by (simp add: closing_calls_def)
qed

end
