(* ===== verification/ShutdownEnd.thy ===== *)
theory ShutdownEnd
  imports Shutdown
begin

text \<open>
  A clean shutdown reaches the call of \<open>reboot\<close>: on a machine with memory, where the table of mounted
  file systems is a link to the one of the kernel, none of its steps ends the daemon or runs into
  undefined behaviour, whatever else the kernel replies.
\<close>

section \<open>The machine and the daemon\<close>

text \<open>The machine: memory is available, \<^verbatim>\<open>/etc/mtab\<close> is a link and can be read.\<close>

definition sound_machine :: "env \<Rightarrow> bool" where
  "sound_machine E \<longleftrightarrow> memory_ok E \<and> mtab_linked E \<and>
     (\<forall>tr. rv (kern E tr (FileCall (Fopen MOUNTED ''r''))) \<noteq> 0 \<and> v1 (kern E tr (FileCall (Fopen MOUNTED ''r''))) = 0)"

text \<open>The daemon: its heartbeat can be written, the mail command fits its buffer, and what it knows of
  the mount table is consistent with the machine.\<close>

definition short_admin :: "config \<Rightarrow> bool" where
  "short_admin c \<longleftrightarrow> (case admin c of None \<Rightarrow> True | Some to \<Rightarrow> length (PATH_SENDMAIL @ '' -i '' @ to) < 128)"

definition going_down :: "env \<Rightarrow> config \<Rightarrow> 's shut_state_scheme \<Rightarrow> bool" where
  "going_down E cf s \<longleftrightarrow> hb_ok E s \<and> cfg s = cf \<and> short_admin cf \<and> (have_mtab_info s \<longrightarrow> var_mtab_is_a_symlink s) \<and>
     (got_mtab s \<longrightarrow> mounttable s \<noteq> None)"

abbreviation steps_down :: "env \<Rightarrow> config \<Rightarrow> ('s shut_state_scheme, 'a) proc \<Rightarrow> bool" where
  "steps_down E cf \<equiv> runs (going_down E cf) (\<lambda>c. True)"

lemma hb_ok_fields:
  "hb_ok E (have_mtab_info_update f1 s) = hb_ok E s" "hb_ok E (var_mtab_is_a_symlink_update f1 s) = hb_ok E s"
  "hb_ok E (got_mtab_update f1 s) = hb_ok E s" "hb_ok E (mounttable_update f2 s) = hb_ok E s"
  "hb_ok E (umount_nomtab_update f3 s) = hb_ok E s" "hb_ok E (plist_update f4 s) = hb_ok E s"
  "hb_ok E (saved_fname_update f5 s) = hb_ok E s"
  by (simp_all add: hb_ok_def hb_inv_def ring_of_def)

lemma going_down_frame: "log_frame (going_down E cf)"
  unfolding going_down_def [abs_def] by (intro log_frame_conj hb_ok_frame) (simp_all add: log_frame_def)

lemma going_down_trace: "going_down E cf s \<Longrightarrow> going_down E cf (s\<lparr>trace := t\<rparr>)"
  by (simp only: log_frame_trace [OF going_down_frame])

text \<open>The heartbeat keeps all of it, so the pace of \<open>safe_sleep\<close> holds during the shutdown too.\<close>

lemma write_heartbeat_keeps_tables:
  "keeps (\<lambda>s. (have_mtab_info s, var_mtab_is_a_symlink s, got_mtab s, mounttable s)) (write_heartbeat E)"
  unfolding write_heartbeat_def put_stamp_def next_value_def write_stamps_def fwrite_stamps_def
  by (intro keeps_intro) (simp_all add: log_frame_def)

interpretation gd: heartbeat_writer write_heartbeat "\<lambda>E. going_down E cf" for cf
proof
  fix E and s :: "'s shut_state_scheme"
  assume gd: "going_down E cf s"
  then obtain r s' where 1: "write_heartbeat E s = (Ret r, s')" "hb_ok E s'" "dev_part s' = dev_part s" "cfg s' = cfg s"
    "calls is_pace_call s' = calls is_pace_call s" using write_heartbeat_contract unfolding going_down_def by blast
  with gd keepsD [OF write_heartbeat_keeps_tables 1(1)] have "going_down E cf s'" by (simp add: going_down_def)
  with 1 show "\<exists>r s'. write_heartbeat E s = (Ret r, s') \<and> going_down E cf s' \<and> dev_part s' = dev_part s \<and> cfg s' = cfg s \<and>
      calls is_pace_call s' = calls is_pace_call s" by blast
qed (rule going_down_frame)

lemma runs_of_emits:
  assumes "\<And>s. I s \<Longrightarrow> \<exists>x s'. m s = (Ret x, s') \<and> I s'" and "mild m"
  shows "runs I (\<lambda>c. True) m"
proof (rule runsI)
  fix s
  assume "I s"
  with assms(1) obtain x s' where 1: "m s = (Ret x, s')" "I s'" by blast
  from assms(2) 1(1) obtain es where "trace s' = trace s @ es" by (rule emitsE)
  with 1 show "\<exists>x s' es. m s = (Ret x, s') \<and> I s' \<and> trace s' = trace s @ es \<and> (\<forall>e \<in> set es. True)" by blast
qed

lemma steps_down_pace:
  "steps_down E cf (wd_keep_alive E)" "steps_down E cf (wd_safe_sleep E sec)"
proof -
  show "steps_down E cf (wd_keep_alive E)"
    using gd.keep_alive_run by (intro runs_of_emits mild_keep_alive) (unfold wd_keep_alive_def, blast)
  show "steps_down E cf (wd_safe_sleep E sec)"
    using gd.safe_sleep_run by (intro runs_of_emits mild_keep_alive) (unfold wd_safe_sleep_def, blast)
qed

lemma steps_down_sys: "steps_down E cf (sysc E c)" "steps_down E cf (do_sys E c)"
  by (auto intro: runs_sysc runs_do_sys going_down_trace)

lemma steps_down_ignored: "steps_down E cf m \<Longrightarrow> steps_down E cf (ignored m)"
  unfolding ignored_def by (intro runs_bind runs_ret)

lemma steps_down_combine:
  fixes m :: "('s shut_state_scheme, 'a) proc"
  assumes "returns m" and "keeps (going_down E cf) m" and "mild m"
  shows "steps_down E cf m"
  using assms keeps_preserves [of "going_down E cf" m "\<lambda>b. b"] by (intro runs_combine) (auto intro: emits_mono)

lemma steps_down_logging:
  "steps_down E cf (log_msg E l f a)" "steps_down E cf (close_logging E)" "steps_down E cf suspend_logging" "steps_down E cf (resume_logging E)"
  by (rule steps_down_combine; intro log_returns keeps_intro going_down_frame emits_intro; simp)+

lemmas down_rules = runs_bind runs_andthen runs_if runs_whenp runs_ret runs_gets runs_case_option runs_let runs_run_all
  steps_down_sys steps_down_ignored steps_down_pace steps_down_logging

lemma steps_down_messages: "steps_down E cf (perror E what e)" "steps_down E cf (fprintf_err E f args)"
  unfolding perror_def fprintf_err_def by (rule steps_down_sys)+

lemma steps_down_tell_admin: "steps_down E cf (tell_admin E code)"
  unfolding tell_admin_def
proof (rule runs_bind_gets)
  fix s :: "'s shut_state_scheme"
  assume "going_down E cf s"
  then have "length (PATH_SENDMAIL @ '' -i '' @ to) < 128" if "(admin \<circ> cfg) s = Some to" for to
    using that by (simp add: going_down_def short_admin_def)
  then show "steps_down E cf (case (admin \<circ> cfg) s of None \<Rightarrow> ret ()
     | Some to \<Rightarrow>
         bind (fsys E (Stat PATH_SENDMAIL)) (\<lambda>st.
         if rv st \<noteq> 0 \<or> v1 st AND S_IXUSR = 0 then
           log_msg E LOG_ERR ''sendmail does not exist or is not executable'' [AStr PATH_SENDMAIL, AInt (err st)]
         else
           (let exe = PATH_SENDMAIL @ '' -i '' @ to in
            if length exe \<ge> 128 then fault
            else
              bind (msys E (Popen exe)) (\<lambda>ph.
              if rv ph = 0 then log_msg E LOG_ERR ''cannot start sendmail'' [AStr PATH_SENDMAIL, AInt (err ph)]
              else send_mail E (rv ph) to code))))"
    unfolding send_mail_def mail_print_def by (intro down_rules) auto
qed

lemma going_down_fields:
  "going_down E cf (plist_update f4 s) = going_down E cf s" "going_down E cf (saved_fname_update f5 s) = going_down E cf s"
  by (simp_all add: going_down_def hb_ok_fields)

lemma steps_down_killall5: "steps_down E cf (killall5 E sig)"
proof -
  have entries: "steps_down E cf (readproc_entries E dir ds)" for dir ds
  proof (induction ds)
    case (Cons d ds)
    show ?case
      unfolding readproc_entries.simps
      by (intro down_rules Cons.IH runs_modify) (simp_all add: going_down_fields)
  qed (simp only: readproc_entries.simps, intro down_rules)
  show ?thesis
    unfolding killall5_def readproc_def kill_others_def
    by (intro down_rules entries runs_modify) (simp_all add: going_down_fields)
qed

lemma steps_down_parts:
  "steps_down E cf (close_files E)" "steps_down E cf (ignore_signals E)" "steps_down E cf (stop_processes E)"
  "steps_down E cf (remove_pid_file E)" "steps_down E cf (record_wtmp E)" "steps_down E cf (save_seed E)"
  "steps_down E cf (stop_acct E)" "steps_down E cf (ifdown E)"
  unfolding close_files_def ignore_signals_def stop_processes_def remove_pid_file_def record_wtmp_def save_seed_def
    stop_acct_def ifdown_def ifdown_one_def get_watchdog_fd_def
  by (intro down_rules steps_down_killall5 steps_down_messages runs_modify; simp add: going_down_fields)+

lemma steps_down_mnt_off: "steps_down E cf (mnt_off E)"
proof -
  have "steps_down E cf (mnt_off_entries E ns)" for ns
    by (induction ns rule: mnt_off_entries.induct)
      (simp_all only: mnt_off_entries.simps mnt_off_entry_def or_perror_def,
        (intro down_rules steps_down_messages | assumption)+)
  then show ?thesis unfolding mnt_off_def by (intro down_rules)
qed

section \<open>Reading the table\<close>

text \<open>While the table is read, the daemon has no table.\<close>

definition reading :: "env \<Rightarrow> config \<Rightarrow> 's shut_state_scheme \<Rightarrow> bool" where
  "reading E cf s \<longleftrightarrow> got_mtab s \<and> hb_ok E s \<and> cfg s = cf \<and> short_admin cf \<and> (have_mtab_info s \<longrightarrow> var_mtab_is_a_symlink s)"

lemma reading_trace: "reading E cf s \<Longrightarrow> reading E cf (s\<lparr>trace := t\<rparr>)"
  by (simp add: reading_def log_frame_trace [OF hb_ok_frame])

abbreviation gives :: "env \<Rightarrow> config \<Rightarrow> ('a \<Rightarrow> bool) \<Rightarrow> ('s shut_state_scheme, 'a) proc \<Rightarrow> bool" where
  "gives E cf R \<equiv> performs (reading E cf) (\<lambda>c. False) (\<lambda>x cs. R x)"

lemma gives_acts:
  fixes m :: "('s shut_state_scheme, 'a) proc"
  assumes "acts (\<lambda>c. False) x [] m" and "R x"
  shows "gives E cf R m"
proof (rule performsI)
  fix s :: "'s shut_state_scheme"
  assume s: "reading E cf s"
  obtain es where "m s = (Ret x, s\<lparr>trace := trace s @ es\<rparr>)" using assms(1) by (rule actsE)
  with s assms(2) show "\<exists>x s' es. m s = (Ret x, s') \<and> reading E cf s' \<and> trace s' = trace s @ es \<and> R x"
    by (auto intro: reading_trace)
qed

lemma gives_bind: "gives E cf S m \<Longrightarrow> (\<And>x. S x \<Longrightarrow> gives E cf R (f x)) \<Longrightarrow> gives E cf R (bind m f)"
  by (rule performs_bind [where R = "\<lambda>x cs. S x"])

lemma gives_andthen: "gives E cf S m \<Longrightarrow> gives E cf R n \<Longrightarrow> gives E cf R (andthen m n)"
  unfolding andthen_def by (rule gives_bind)

lemma gives_if: "(b \<Longrightarrow> gives E cf R m) \<Longrightarrow> (\<not> b \<Longrightarrow> gives E cf R n) \<Longrightarrow> gives E cf R (if b then m else n)"
  by simp

lemma gives_ret: "R x \<Longrightarrow> gives E cf R (ret x)"
  by (rule performs_ret)

lemma gives_sys: "gives E cf (\<lambda>_. True) (do_sys E' c)"
  by (rule performs_do_sys) (auto intro: reading_trace)

lemma no_malloc_none: "no_malloc (\<lambda>c. False)"
  by (simp add: no_malloc_def)

text \<open>An entry that is read has a device and a type, and consumes a line.\<close>

definition entry_read :: "int \<Rightarrow> nat \<Rightarrow> mntent option \<times> mntFILE \<Rightarrow> bool" where
  "entry_read e n r \<longleftrightarrow> mntent_ferror (snd r) = e \<and>
     (case fst r of None \<Rightarrow> True
      | Some m \<Rightarrow> mnt_fsname m \<noteq> None \<and> mnt_type m \<noteq> None \<and> length (mntent_lines (snd r)) < n)"

lemma entry_read_mono: "entry_read e n r \<Longrightarrow> n \<le> k \<Longrightarrow> entry_read e k r"
  by (auto simp: entry_read_def split: option.splits)

lemma gives_getmntent_loop:
  assumes "memory_ok E"
  shows "gives E cf (entry_read (mntent_ferror mfp) (length ls)) (getmntent_loop E mfp ls :: ('s shut_state_scheme, _) proc)"
proof (induction ls arbitrary: mfp)
  case Nil
  show ?case
    unfolding getmntent_loop.simps by (cases "mntent_errs mfp \<or> mntent_softerrs mfp \<ge> ERR_MAX")
      (simp_all only: if_True if_False, (rule gives_ret, simp add: entry_read_def)+)
next
  case (Cons l ls)
  have IH: "gives E cf (entry_read (mntent_ferror mfp) (length (l # ls))) (getmntent_loop E mfp' ls :: ('s shut_state_scheme, _) proc)"
    if "mntent_ferror mfp' = mntent_ferror mfp" for mfp'
    by (rule performs_mono [OF Cons.IH]) (simp add: that entry_read_mono)
  let ?s = "skip_spaces (takeWhile (\<lambda>c. c \<noteq> CHR 0x0A) (cstr l))"
  have parse: "gives E cf (\<lambda>m. case m of None \<Rightarrow> True | Some e \<Rightarrow> mnt_fsname e \<noteq> None \<and> mnt_type e \<noteq> None) (parse_mntent E ?s)"
    by (rule gives_acts [OF acts_parse_mntent [OF assms no_malloc_none]]) (simp split: option.split)
  consider "mntent_errs mfp \<or> mntent_softerrs mfp \<ge> ERR_MAX"
    | "\<not> (mntent_errs mfp \<or> mntent_softerrs mfp \<ge> ERR_MAX)" "CHR 0x0A \<notin> set (cstr l)"
    | "\<not> (mntent_errs mfp \<or> mntent_softerrs mfp \<ge> ERR_MAX)" "\<not> CHR 0x0A \<notin> set (cstr l)" "?s = [] \<or> hd ?s = CHR ''#''"
    | "\<not> (mntent_errs mfp \<or> mntent_softerrs mfp \<ge> ERR_MAX)" "\<not> CHR 0x0A \<notin> set (cstr l)" "\<not> (?s = [] \<or> hd ?s = CHR ''#'')"
    by blast
  then show ?case
  proof cases
    case 1
    then show ?thesis
      by (simp only: getmntent_loop.simps if_True) (rule gives_ret, simp add: entry_read_def)
  next
    case 2
    then show ?thesis
      by (simp only: getmntent_loop.simps simp_thms if_True if_False Let_def bad_line_def)
        (rule gives_andthen [OF gives_sys], rule IH, simp)
  next
    case 3
    then show ?thesis
      by (simp only: getmntent_loop.simps simp_thms if_True if_False Let_def) (rule IH, simp)
  next
    case 4
    then show ?thesis
      apply (simp only: getmntent_loop.simps simp_thms if_False Let_def bad_line_def)
      apply (rule gives_bind [OF parse])
      subgoal for m
        by (cases m) (simp_all only: option.case,
          rule gives_andthen [OF gives_sys], rule IH, simp, rule gives_ret, simp add: entry_read_def)
      done
  qed
qed

lemma gives_getmntent:
  "memory_ok E \<Longrightarrow> gives E cf (entry_read (mntent_ferror mfp) (length (mntent_lines mfp))) (my_getmntent E mfp)"
  unfolding my_getmntent_def by (rule gives_getmntent_loop)

lemma gives_read_entries:
  assumes "memory_ok E"
  shows "length (mntent_lines mfp) < n \<Longrightarrow>
    gives E cf (\<lambda>(mcs, mfp'). mntent_ferror mfp' = mntent_ferror mfp) (read_entries n E mfp :: ('s shut_state_scheme, _) proc)"
proof (induction n arbitrary: mfp)
  case (Suc n)
  have mal: "gives E cf (\<lambda>_. True) (xmalloc E 48)"
    by (rule gives_acts [OF acts_xmalloc [OF assms no_malloc_none]]) simp_all
  show ?case
    unfolding read_entries.simps
  proof (rule gives_bind [OF gives_getmntent [OF assms]])
    fix r
    assume r: "entry_read (mntent_ferror mfp) (length (mntent_lines mfp)) r"
    obtain m mfp' where rr: "r = (m, mfp')" by fastforce
    show "gives E cf (\<lambda>(mcs, mfp'). mntent_ferror mfp' = mntent_ferror mfp) (case r of (m, mfp') \<Rightarrow>
       (case m of
       None \<Rightarrow> (ret ([], mfp') :: ('s shut_state_scheme, _) proc)
     | Some mnt \<Rightarrow>
         (case (mnt_fsname mnt, mnt_type mnt) of
            (Some f, Some t) \<Rightarrow>
              if t = MNTTYPE_IGNORE then ret ([], mfp')
              else
                bind (xmalloc E 48) (\<lambda>_.
                bind (read_entries n E mfp') (\<lambda>(mcs, mfp'').
                ret (\<lparr>mc_fsname = f, mc_dir = mnt_dir mnt, mc_type = t, mc_opts = mnt_opts mnt\<rparr> # mcs, mfp'')))
          | _ \<Rightarrow> fault)))"
    proof (cases m)
      case None
      with r rr show ?thesis by (simp only: prod.case option.case) (rule gives_ret, simp add: entry_read_def)
    next
      case (Some e)
      then obtain f t where ft: "mnt_fsname e = Some f" "mnt_type e = Some t"
        and l: "length (mntent_lines mfp') < n" and fe: "mntent_ferror mfp' = mntent_ferror mfp"
        using r rr Suc.prems by (auto simp: entry_read_def)
      have rest: "gives E cf (\<lambda>(mcs, mfp'). mntent_ferror mfp' = mntent_ferror mfp) (bind (xmalloc E 48) (\<lambda>_.
                bind (read_entries n E mfp') (\<lambda>(mcs, mfp'').
                ret (\<lparr>mc_fsname = f, mc_dir = mnt_dir e, mc_type = t, mc_opts = mnt_opts e\<rparr> # mcs, mfp''))) :: ('s shut_state_scheme, _) proc)"
        by (rule gives_bind [OF mal], rule gives_bind [OF Suc.IH [OF l]])
          (clarify, rule gives_ret, simp add: fe)
      have skip: "gives E cf (\<lambda>(mcs, mfp'). mntent_ferror mfp' = mntent_ferror mfp) (ret ([], mfp'))"
        by (rule gives_ret) (simp add: fe)
      show ?thesis
        unfolding rr Some prod.case option.case ft by (rule gives_if, rule skip, rule rest)
    qed
  qed
qed simp

lemma going_down_reading: "going_down E cf s \<Longrightarrow> reading E cf (s\<lparr>got_mtab := True, mounttable := None\<rparr>)"
  by (simp add: going_down_def reading_def hb_ok_fields)

lemma reading_done: "reading E cf s \<Longrightarrow> going_down E cf (s\<lparr>mounttable := Some mcs\<rparr>)"
  by (simp add: going_down_def reading_def hb_ok_fields)

lemma gives_sysc:
  assumes "\<And>tr. R (kern E' tr c)"
  shows "gives E cf R (sysc E' c)"
  by (rule performsI) (auto intro: reading_trace assms)

lemma gives_setmntent:
  assumes "sound_machine E"
  shows "gives E cf (\<lambda>(mfp, e). mntent_fp mfp \<noteq> 0 \<and> mntent_ferror mfp = 0) (my_setmntent E MOUNTED ''r'')"
proof -
  have mem: "memory_ok E" and op: "\<And>tr. rv (kern E tr (FileCall (Fopen MOUNTED ''r''))) \<noteq> 0 \<and>
      v1 (kern E tr (FileCall (Fopen MOUNTED ''r''))) = 0"
    using assms by (simp_all add: sound_machine_def)
  have 1: "gives E cf (\<lambda>_. True) (xmalloc E 40)"
    by (rule gives_acts [OF acts_xmalloc [OF mem no_malloc_none]]) simp_all
  have 2: "gives E cf (\<lambda>r. rv r \<noteq> 0 \<and> v1 r = 0) (fsys E (Fopen MOUNTED ''r''))"
    using op by (rule gives_sysc)
  have 3: "gives E cf (\<lambda>_. True) (xstrdup E (Some MOUNTED))"
    by (rule gives_acts [OF acts_xstrdup [OF mem no_malloc_none]]) simp
  show ?thesis
    unfolding my_setmntent_def
    by (rule gives_bind [OF 1], rule gives_bind [OF 2], rule gives_bind [OF 3], rule gives_ret) simp
qed

lemma gives_read_mntentchn:
  assumes "memory_ok E" and "mntent_ferror mfp = 0"
  shows "gives E cf (\<lambda>head. head \<noteq> None) (read_mntentchn E mfp fnam)"
proof -
  have en: "gives E cf (\<lambda>_. True) (my_endmntent E mfp')" for mfp'
    unfolding my_endmntent_def whenp_def by (intro gives_if gives_sys gives_ret) simp
  show ?thesis
    unfolding read_mntentchn_def
  proof (rule gives_bind [OF gives_read_entries [OF assms(1)]])
    fix r :: "mntentchn list \<times> mntFILE"
    assume "case r of (mcs, mfp') \<Rightarrow> mntent_ferror mfp' = mntent_ferror mfp"
    with assms(2) have z: "mntent_ferror (snd r) = 0" by (auto split: prod.splits)
    show "gives E cf (\<lambda>head. head \<noteq> None) (case r of (mcs, mfp') \<Rightarrow>
      bind (if mntent_eof mfp' \<and> mntent_ferror mfp' \<noteq> 0 then
              andthen (error_msg E ''warning: error reading %s: %s'' [AStr fnam, AInt (mntent_ferror mfp')]) (ret None)
            else ret (Some mcs)) (\<lambda>head. andthen (my_endmntent E mfp') (ret head)))"
      using z by (cases r) (simp, intro gives_andthen [OF en] gives_ret, simp)
  qed simp
qed

lemma mtab_head_run:
  assumes "sound_machine E" and "going_down E cf s"
  shows "\<exists>mcs s'. mtab_head E s = (Ret (Some mcs), s') \<and> going_down E cf s' \<and> got_mtab s'"
proof (cases "got_mtab s")
  case True
  with assms(2) show ?thesis by (auto simp: mtab_head_def going_down_def)
next
  case False
  let ?s0 = "s\<lparr>got_mtab := True, mounttable := None\<rparr>"
  have mem: "memory_ok E" using assms(1) by (simp add: sound_machine_def)
  obtain mfp e s1 where 1: "my_setmntent E MOUNTED ''r'' ?s0 = (Ret (mfp, e), s1)" "reading E cf s1"
    "mntent_fp mfp \<noteq> 0" "mntent_ferror mfp = 0"
    using gives_setmntent [OF assms(1)] going_down_reading [OF assms(2)] by (rule performsE) auto
  obtain mcs s2 where 2: "read_mntentchn E mfp MOUNTED s1 = (Ret (Some mcs), s2)" "reading E cf s2"
    using gives_read_mntentchn [OF mem 1(4)] 1(2) by (rule performsE) auto
  have "read_mounttable E s = (Ret (), s2\<lparr>mounttable := Some mcs\<rparr>)"
    using 1 2 by (simp add: read_mounttable_def bind_apply_Ret)
  with False 2(2) reading_done [OF 2(2), of mcs] show ?thesis
    by (simp add: mtab_head_def andthen_apply_Ret reading_def)
qed

section \<open>Unmounting\<close>

interpretation ud: mtab_invariant "\<lambda>s. going_down E cf s \<and> got_mtab s" for E cf
  by unfold_locales (simp_all add: going_down_def link_known_def hb_ok_fields log_frame_trace [OF hb_ok_frame])

lemma steps_down_umount:
  assumes "sound_machine E"
  shows "steps_down E cf (umount_all E types)"
proof (rule runs_of_emits [OF _ mild_umount])
  fix s
  assume "going_down E cf s"
  then obtain mcs s1 where 1: "mtab_head E s = (Ret (Some mcs), s1)" "going_down E cf s1 \<and> got_mtab s1"
    using mtab_head_run [OF assms] by blast
  have "memory_ok E" "mtab_linked E" using assms by (simp_all add: sound_machine_def)
  from performs_calls [OF ud.performs_umount_each [OF this, where types = types and mcs = "rev mcs" and errors = 0] 1(2)]
  obtain errors s2 where "umount_each E types (rev mcs) 0 s1 = (Ret errors, s2)" "going_down E cf s2" by blast
  with 1(1) show "\<exists>x s'. umount_all E types s = (Ret x, s') \<and> going_down E cf s'"
    by (auto simp: umount_all_def bind_apply_Ret going_down_trace)
qed

section \<open>The end\<close>

lemma steps_down_prepare:
  assumes "sound_machine E"
  shows "steps_down E cf (prepare E code)"
  unfolding prepare_def try_clean_shutdown_def
  by (simp only: run_all.simps, intro down_rules steps_down_tell_admin steps_down_parts steps_down_mnt_off
      steps_down_umount [OF assms])


end
