(* ===== verification/Watchdog.thy ===== *)
theory Watchdog
  imports Shutdown
begin

text \<open>
  \<^verbatim>\<open>src/watchdog.c\<close>, the main program of the daemon, and \<^verbatim>\<open>src/sigterm.c\<close>.

  The options come as \<open>getopt_long\<close> returns them, one character and its argument each. The handler
  of SIGTERM only clears \<open>_running\<close>, which nothing but the condition of the main loop reads, so its
  effect is sampled there (\<open>Poll_sigterm\<close>). The loop ends with \<open>Unfinished\<close> when the
  bound of the environment is used up.

  In the child of a \<open>fork\<close> the model follows the child; in the parent it follows the parent.
\<close>

section \<open>State\<close>

record wd_state = shut_state +
  no_act :: bool
  running :: bool

definition PIDFILE :: string where "PIDFILE = ''/var/run/watchdog.pid''"

definition sigterm_handler :: "('s wd_state_scheme, unit) proc" where
  "sigterm_handler = modify (running_update (\<lambda>_. False))"

section \<open>Repairing\<close>

definition usage :: "env \<Rightarrow> string \<Rightarrow> ('s wd_state_scheme, 'a) proc" where
  "usage E name =
     andthen (run_all (map (\<lambda>l. fprintf_err E l [AStr name])
        [''%s version %d.%d, usage:'', ''%s [options]'', ''options:'',
         ''  -c | --config-file <file>  specify location of config file'',
         ''  -f | --force               do not sanity-check config or use PID file'',
         ''  -F | --foreground          run in foreground'',
         ''  -X | --loop-exit <number>  run a fixed number of loops then exit'',
         ''  -q | --no-action           do not reboot or halt'',
         ''  -b | --softboot            soft-boot on error'',
         ''  -s | --sync                sync filesystem'',
         ''  -v | --verbose             verbose messages'']))
     (stop 1)"

definition sync_system :: "env \<Rightarrow> bool \<Rightarrow> ('s wd_state_scheme, int) proc" where
  "sync_system E sync_it =
     andthen (whenp sync_it (andthen (do_sys E (SysCall Sync)) (do_sys E (SysCall Sync)))) (ret 0)"

text \<open>The child of \<open>repair\<close>. When the program cannot be started it goes on as a second daemon: it
  returns the error number to its caller.\<close>

definition repair_args :: "string \<Rightarrow> string \<Rightarrow> string option \<Rightarrow> int \<Rightarrow> string list" where
  "repair_args rbinary parm name version =
     [rbinary] @ (if version = 0 then [] else [''repair'']) @ [parm] @ (case name of None \<Rightarrow> [] | Some n \<Rightarrow> [n])"

definition repair_child :: "env \<Rightarrow> string \<Rightarrow> string \<Rightarrow> string option \<Rightarrow> int \<Rightarrow> ('s wd_state_scheme, int) proc" where
  "repair_child E rbinary parm name version =
     bind (gets (logdir \<circ> cfg)) (\<lambda>ld.
     case ld of
       None \<Rightarrow> fault
     | Some dir \<Rightarrow>
         andthen (redirect E (dir @ ''/repair-bin.stdout'') 1)
         (andthen (redirect E (dir @ ''/repair-bin.stderr'') 2)
         (let args = repair_args rbinary parm name version in
          bind (psys E (Execl rbinary args)) (\<lambda>x.
          if rv x = 0 then exec_image rbinary args else ret (err x)))))"

text \<open>The loop that waits for the child: the last reply of \<open>waitpid\<close>.\<close>

fun await_child :: "nat \<Rightarrow> env \<Rightarrow> int \<Rightarrow> ('s wd_state_scheme, reply) proc" where
  "await_child left E child =
     andthen (do_sys E (ProcCall (Sleep 1)))
     (andthen (ignored (wd_keep_alive E))
     (bind (psys E (Waitpid child True)) (\<lambda>w.
      if rv w \<noteq> 0 then ret w
      else case left of
             Suc (Suc n) \<Rightarrow> await_child (Suc n) E child
           | _ \<Rightarrow> ret w)))"

text \<open>The result of the child. \<open>waitpid\<close> stores a status only when it returns the child, so
  otherwise the exit status is read from the error that was to be repaired.\<close>

definition repair_result :: "env \<Rightarrow> string \<Rightarrow> int \<Rightarrow> int \<Rightarrow> reply \<Rightarrow> ('s wd_state_scheme, int) proc" where
  "repair_result E rbinary result child w =
     (if rv w = 0 then
        andthen (log_msg E LOG_ERR ''repair child timed out'' [AInt child]) (ret EREBOOT)
      else
        bind (gets (softboot \<circ> cfg)) (\<lambda>soft.
        andthen (whenp (rv w \<noteq> child) (log_msg E LOG_ERR ''child does not exist'' [AInt child, AInt (err w)]))
        (if rv w \<noteq> child \<and> soft \<noteq> 0 then ret (err w)
         else
           (let code = WEXITSTATUS (if rv w = child then v1 w else result) in
            andthen
              (whenp (code \<noteq> 0) (log_msg E LOG_ERR ''repair binary returned''
                 [AStr rbinary, AInt code, AStr (wd_strerror E code)]))
            (ret code)))))"

definition repair :: "env \<Rightarrow> string option \<Rightarrow> int \<Rightarrow> string option \<Rightarrow> int \<Rightarrow> ('s wd_state_scheme, int) proc" where
  "repair E rbinary result name version =
     (case rbinary of
        None \<Rightarrow> ret result
      | Some rb \<Rightarrow>
          (let parm = show_int result in
           if length parm \<ge> 5 then fault
           else
             bind (psys E Fork) (\<lambda>child.
             if rv child = 0 then repair_child E rb parm name version
             else if rv child < 0 then
               andthen (log_msg E LOG_ERR ''process fork failed'' [AInt (err child)]) (ret EREBOOT)
             else
               bind (gets (repair_timeout \<circ> cfg)) (\<lambda>t.
               bind (if t > 0 then await_child (nat t) E (rv child)
                     else psys E (Waitpid (rv child) False)) (\<lambda>w.
               repair_result E rb result (rv child) w)))))"

section \<open>Reacting to the result of a check\<close>

text \<open>The retry timer of an entry: whether it has run out, and the entry with the time of the first
  failure.\<close>

definition retry_timer :: "env \<Rightarrow> entry \<Rightarrow> ('s wd_state_scheme, bool \<times> entry) proc" where
  "retry_timer E act =
     bind (gets cfg) (\<lambda>c.
     if retry_timeout c > 0 then
       bind (psys E Time) (\<lambda>now.
       if last_time act = 0 then ret (False, act\<lparr>last_time := v1 now\<rparr>)
       else
         (let tused = int32 (v1 now - last_time act) in
          if tused > retry_timeout c then
            andthen (log_msg E LOG_WARNING ''Retry timed-out'' [AInt tused, AStr (e_name act)]) (ret (True, act))
          else
            andthen (whenp (is_verbose c) (log_msg E LOG_DEBUG ''Retry'' [AInt tused, AStr (e_name act)]))
            (ret (False, act))))
     else ret (True, act))"

text \<open>The limit on repair attempts: whether one more is allowed.\<close>

definition count_repair :: "env \<Rightarrow> entry \<Rightarrow> ('s wd_state_scheme, bool \<times> entry) proc" where
  "count_repair E act =
     bind (gets cfg) (\<lambda>c.
     if repair_max c > 0 then
       (let n = int32 (repair_count act + 1); act' = act\<lparr>repair_count := n\<rparr> in
        if n > repair_max c then
          andthen (log_msg E LOG_WARNING ''Repair count exceeded'' [AInt n, AStr (e_name act)]) (ret (False, act'))
        else
          andthen (whenp (is_verbose c) (log_msg E LOG_DEBUG ''Repair attempt'' [AInt n, AStr (e_name act)]))
          (ret (True, act'\<lparr>last_time := 0\<rparr>)))
     else ret (True, act))"

text \<open>The branch for an error that might be repairable: the error that remains, and the entry.\<close>

definition try_repair ::
  "env \<Rightarrow> int \<Rightarrow> string option \<Rightarrow> entry option \<Rightarrow> ('s wd_state_scheme, int \<times> entry option) proc" where
  "try_repair E result rbinary act =
     (case act of
        None \<Rightarrow> bind (repair E rbinary result None 0) (\<lambda>r. ret (r, None))
      | Some a \<Rightarrow>
          bind (retry_timer E a) (\<lambda>(timeout, a1).
          if timeout then
            bind (count_repair E a1) (\<lambda>(again, a2).
            if again then
              bind (repair E (if e_version a = 1 then Some (e_name a) else rbinary) result
                      (Some (e_name a)) (e_version a)) (\<lambda>r.
              ret (r, Some a2))
            else ret (result, Some a2))
          else ret (ENOERR, Some a1)))"

definition consider_reboot :: "env \<Rightarrow> int \<Rightarrow> ('s wd_state_scheme, unit) proc" where
  "consider_reboot E result =
     bind (gets no_act) (\<lambda>na.
     whenp (result \<noteq> ENOERR)
       (if na then
          bind (gets cfg) (\<lambda>c.
          whenp (is_verbose c) (log_msg E LOG_DEBUG ''Shutdown blocked by --no-action''
            [AInt result, AStr (wd_strerror E result)]))
        else do_shutdown E result))"

definition wd_action ::
  "env \<Rightarrow> int \<Rightarrow> string option \<Rightarrow> entry option \<Rightarrow> ('s wd_state_scheme, entry option) proc" where
  "wd_action E result rbinary act =
     (if result = ENOERR then
        ret (map_option (\<lambda>a. a\<lparr>last_time := 0, repair_count := 0\<rparr>) act)
      else if result = EDONTKNOW then ret act
      else
        bind (if result = EREBOOT \<or> result = ERESET \<or> result = ETOOHOT then ret (result, act)
              else try_repair E result rbinary act) (\<lambda>(result', act').
        andthen (consider_reboot E result')
        (ret act')))"

definition do_check ::
  "env \<Rightarrow> int \<Rightarrow> string option \<Rightarrow> entry option \<Rightarrow> ('s wd_state_scheme, entry option) proc" where
  "do_check E res rbinary act =
     bind (wd_action E res rbinary act) (\<lambda>act'.
     bind (wd_keep_alive E) (\<lambda>k.
     bind (wd_action E k rbinary None) (\<lambda>_.
     ret act')))"

section \<open>Starting\<close>

definition old_option :: "env \<Rightarrow> char \<Rightarrow> string \<Rightarrow> ('s wd_state_scheme, unit) proc" where
  "old_option E c configfile =
     fprintf_err E ''Option -%c is no longer valid, please specify it in %s.'' [AStr [c], AStr configfile]"

definition info :: "env \<Rightarrow> string \<Rightarrow> farg list \<Rightarrow> ('s wd_state_scheme, unit) proc" where
  "info E f args = log_msg E LOG_INFO f args"

definition yes_no :: "bool \<Rightarrow> farg" where
  "yes_no b = AStr (if b then ''yes'' else ''no'')"

definition or_none :: "string option \<Rightarrow> farg" where
  "or_none s = AStr (case s of None \<Rightarrow> ''[none]'' | Some t \<Rightarrow> t)"

definition info_list :: "env \<Rightarrow> string \<Rightarrow> (entry \<Rightarrow> ('s wd_state_scheme, unit) proc) \<Rightarrow> entry list \<Rightarrow> ('s wd_state_scheme, unit) proc" where
  "info_list E none f es = (if es = [] then info E none [] else run_all (map f es))"

definition print_info :: "env \<Rightarrow> bool \<Rightarrow> bool \<Rightarrow> ('s wd_state_scheme, unit) proc" where
  "print_info E sync_it force =
     bind (gets cfg) (\<lambda>c.
     bind (gets no_act) (\<lambda>na.
     run_all
      [info E ''int=%ds realtime=%s sync=%s load=%d,%d,%d soft=%s''
         [AInt (tint c), yes_no (realtime c \<noteq> 0), yes_no sync_it, AInt (maxload1 c), AInt (maxload5 c),
          AInt (maxload15 c), yes_no (softboot c \<noteq> 0)],
       (if minpages c = 0 \<and> minalloc c = 0 then info E ''memory not checked'' []
        else info E ''memory: minimum pages = %d free, %d allocatable (%d byte pages)''
          [AInt (minpages c), AInt (minalloc c), AInt (exec_pagesize E)]),
       info_list E ''ping: no machine to check'' (\<lambda>a. info E ''ping: %s'' [AStr (e_name a)]) (target_list c),
       info_list E ''file: no file to check'' (\<lambda>a. info E ''file: %s:%d'' [AStr (e_name a), AInt (f_mtime a)]) (file_list c),
       info_list E ''pidfile: no server process to check'' (\<lambda>a. info E ''pidfile: %s'' [AStr (e_name a)]) (pidfile_list c),
       info_list E ''interface: no interface to check'' (\<lambda>a. info E ''interface: %s'' [AStr (e_name a)]) (iface_list c),
       (if temp_list c = [] then info E ''temperature: no sensors to check'' []
        else andthen (info E ''temperature: maximum = %d'' [AInt (maxtemp c)])
          (run_all (map (\<lambda>a. info E ''temperature: %s'' [AStr (e_name a)]) (temp_list c)))),
       (if tr_bin_list c = [] then info E ''no test binary files'' []
        else andthen (info E ''test binary time-out = %d'' [AInt (test_timeout c)])
          (run_all (map (\<lambda>a. info E ''%s: %s''
             [AStr (if e_version a = 0 then ''test binary V0'' else ''test/repair V1''), AStr (e_name a)]) (tr_bin_list c)))),
       (case repair_bin c of
          None \<Rightarrow> info E ''no repair binary files'' []
        | Some rb \<Rightarrow> andthen (info E ''repair binary: time-out = %d'' [AInt (repair_timeout c)])
            (info E ''repair binary: program = %s'' [AStr rb])),
       info E ''error retry time-out = %d seconds'' [AInt (retry_timeout c)],
       (if repair_max c > 0 then info E ''repair attempts = %d'' [AInt (repair_max c)]
        else info E ''repair attempts = unlimited'' []),
       info E ''alive=%s heartbeat=%s to=%s no_act=%s force=%s''
         [or_none (devname c), or_none (heartbeat c), or_none (admin c), yes_no na, yes_no force]]))"

definition check_parameters :: "env \<Rightarrow> ('s wd_state_scheme, unit) proc" where
  "check_parameters E =
     bind (gets cfg) (\<lambda>c.
     let slow = tint c \<ge> int32 (dev_timeout c - 1);
         low = maxload1 c > 0 \<and> maxload1 c < MINLOAD
     in
       andthen (whenp slow (log_msg E LOG_ERR ''This interval length might reboot the system while the process sleeps!''
          [AInt (tint c), AInt (int32 (dev_timeout c - 1))]))
       (andthen (whenp low (log_msg E LOG_ERR ''Using this maximal load average might reboot the system too often!''
          [AInt (maxload1 c)]))
       (whenp (slow \<or> low)
          (fatal_error E EX_USAGE ''To force parameter(s) use the --force command line option.'' []))))"

record options =
  o_configfile :: string
  o_foreground :: bool
  o_force :: bool
  o_sync_it :: bool
  o_count_max :: int

definition default_options :: options where
  "default_options = \<lparr>o_configfile = CONFIG_FILENAME, o_foreground = False, o_force = False,
     o_sync_it = False, o_count_max = 0\<rparr>"

fun parse_options :: "env \<Rightarrow> string \<Rightarrow> (char \<times> string) list \<Rightarrow> options \<Rightarrow> ('s wd_state_scheme, options) proc" where
  "parse_options E name [] opt = ret opt"
| "parse_options E name ((c, optarg) # cs) opt =
     (if c \<in> set ''npardtlmi'' then andthen (old_option E c (o_configfile opt)) (usage E name)
      else if c = CHR ''c'' then parse_options E name cs (opt\<lparr>o_configfile := optarg\<rparr>)
      else if c = CHR ''F'' then parse_options E name cs (opt\<lparr>o_foreground := True\<rparr>)
      else if c = CHR ''f'' then parse_options E name cs (opt\<lparr>o_force := True\<rparr>)
      else if c = CHR ''s'' then parse_options E name cs (opt\<lparr>o_sync_it := True\<rparr>)
      else if c = CHR ''b'' then
        andthen (modify (cfg_update (softboot_update (\<lambda>_. 1)))) (parse_options E name cs opt)
      else if c = CHR ''q'' then
        andthen (modify (no_act_update (\<lambda>_. True))) (parse_options E name cs opt)
      else if c = CHR ''v'' then
        andthen (modify (cfg_update (verbose_update (\<lambda>_. 1)))) (parse_options E name cs opt)
      else if c = CHR ''X'' then
        andthen (log_msg E LOG_WARNING ''NOTE: Using --loop-exit so daemon will exit'' [AInt (atol optarg)])
        (parse_options E name cs (opt\<lparr>o_count_max := atol optarg\<rparr>))
      else usage E name)"

text \<open>What follows the options, up to the main loop.\<close>

definition configure :: "env \<Rightarrow> options \<Rightarrow> ('s wd_state_scheme, unit) proc" where
  "configure E opt =
     andthen (read_config E (o_configfile opt))
     (andthen (modify (cfg_update (\<lambda>c. if softboot c \<noteq> 0 then c\<lparr>retry_timeout := 0\<rparr> else c)))
     (andthen (whenp (\<not> o_force opt) (check_parameters E))
     (bind (gets (logdir \<circ> cfg)) (\<lambda>ld.
      case ld of
        None \<Rightarrow> fault
      | Some dir \<Rightarrow>
          bind (fsys E (Mkdir dir)) (\<lambda>r.
          andthen (whenp (rv r \<noteq> 0 \<and> err r \<noteq> EEXIST)
            (fatal_error E EX_SYSERR ''Cannot create directory'' [AStr dir, AInt (err r)]))
          (bind (gets (target_list \<circ> cfg)) (\<lambda>ts.
           andthen (whenp (ts \<noteq> [])
             (bind (open_netcheck E ts) (\<lambda>(_, ts'). modify (cfg_update (target_list_update (\<lambda>_. ts'))))))
           (ignored (xcalloc E (int (length dir) + 20) 1)))))))))"

definition daemonize :: "env \<Rightarrow> options \<Rightarrow> ('s wd_state_scheme, unit) proc" where
  "daemonize E opt =
     andthen
       (whenp (\<not> o_foreground opt)
         (bind (wd_daemon E False False) (\<lambda>r.
          andthen (whenp (r \<noteq> 0) (fatal_error E EX_SYSERR ''failed to daemonize'' []))
          (ignored (open_logging E None MSG_TO_SYSLOG)))))
     (whenp (\<not> o_force opt)
       (bind (write_pid_file E (Some PIDFILE)) (\<lambda>r.
        whenp (r \<noteq> 0) (fatal_error E EX_USAGE ''unable to gain lock via PID file'' []))))"

definition open_devices :: "env \<Rightarrow> ('s wd_state_scheme, unit) proc" where
  "open_devices E =
     bind (gets no_act) (\<lambda>na.
     bind (gets cfg) (\<lambda>c.
     andthen (whenp (\<not> na) (ignored (open_watchdog E (devname c) (dev_timeout c))))
     (bind (open_tempcheck E (temp_list c)) (\<lambda>(_, ts).
      andthen (modify (cfg_update (temp_list_update (\<lambda>_. ts))))
     (andthen (ignored (open_heartbeat E))
     (andthen (ignored (open_loadcheck E))
     (ignored (open_memcheck E))))))))"

definition startup :: "env \<Rightarrow> options \<Rightarrow> ('s wd_state_scheme, unit) proc" where
  "startup E opt =
     andthen (configure E opt)
     (andthen (daemonize E opt)
     (andthen (log_msg E LOG_NOTICE ''starting daemon'' [AInt MAJOR_VERSION, AInt MINOR_VERSION])
     (andthen (print_info E (o_sync_it opt) (o_force opt))
     (andthen (open_devices E)
     (andthen (do_sys E (ProcCall Signal_sigterm))
     (bind (gets cfg) (\<lambda>c.
      bind (gets daemon_pid) (\<lambda>p.
      lock_our_memory E (realtime c) (schedprio c) p))))))))"

section \<open>The main loop\<close>

definition check_plain :: "env \<Rightarrow> ('s wd_state_scheme, int) proc \<Rightarrow> ('s wd_state_scheme, unit) proc" where
  "check_plain E check =
     bind check (\<lambda>r.
     bind (gets (repair_bin \<circ> cfg)) (\<lambda>rb.
     ignored (do_check E r rb None)))"

text \<open>A loop over the entries of a list. The check of an entry may update it, and so does the
  reaction to its result.\<close>

definition check_entry ::
  "env \<Rightarrow> (entry \<Rightarrow> ('s wd_state_scheme, int \<times> entry) proc) \<Rightarrow> entry \<Rightarrow> ('s wd_state_scheme, entry) proc" where
  "check_entry E check act =
     bind (check act) (\<lambda>(r, act').
     bind (gets (repair_bin \<circ> cfg)) (\<lambda>rb.
     bind (do_check E r rb (Some act')) (\<lambda>a.
     ret (case a of None \<Rightarrow> act' | Some act'' \<Rightarrow> act''))))"

definition check_list ::
  "env \<Rightarrow> (config \<Rightarrow> entry list) \<Rightarrow> (entry list \<Rightarrow> config \<Rightarrow> config) \<Rightarrow>
     (entry \<Rightarrow> ('s wd_state_scheme, int \<times> entry) proc) \<Rightarrow> ('s wd_state_scheme, unit) proc" where
  "check_list E get put check =
     bind (gets (get \<circ> cfg)) (\<lambda>acts.
     bind (for_each (check_entry E check) acts) (\<lambda>acts'.
     modify (cfg_update (put acts'))))"

definition run_temp :: "env \<Rightarrow> entry \<Rightarrow> ('s wd_state_scheme, int \<times> entry) proc" where
  "run_temp E act = bind (check_temp E (Some act)) (\<lambda>(r, a). ret (r, case a of None \<Rightarrow> act | Some a' \<Rightarrow> a'))"

definition run_file :: "env \<Rightarrow> entry \<Rightarrow> ('s wd_state_scheme, int \<times> entry) proc" where
  "run_file E act = bind (check_file_stat E (Some act)) (\<lambda>r. ret (r, act))"

definition run_pidfile :: "env \<Rightarrow> entry \<Rightarrow> ('s wd_state_scheme, int \<times> entry) proc" where
  "run_pidfile E act = bind (check_pidfile E act) (\<lambda>r. ret (r, act))"

definition run_ping :: "env \<Rightarrow> entry \<Rightarrow> ('s wd_state_scheme, int \<times> entry) proc" where
  "run_ping E act =
     bind (gets cfg) (\<lambda>c.
     bind (check_net E (Some (e_name act)) (sock_fp act) (net_to act) (packet act) (tint c) (pingcount c)) (\<lambda>(r, pk).
     ret (r, act\<lparr>packet := pk\<rparr>)))"

definition run_bin :: "env \<Rightarrow> entry \<Rightarrow> ('s wd_state_scheme, int \<times> entry) proc" where
  "run_bin E act =
     bind (gets cfg) (\<lambda>c.
     bind (check_bin E (Some (e_name act)) (test_timeout c) (e_version act)) (\<lambda>r. ret (r, act)))"

definition all_checks :: "env \<Rightarrow> bool \<Rightarrow> ('s wd_state_scheme, unit) proc" where
  "all_checks E sync_it =
     run_all
      [check_plain E (sync_system E sync_it), check_plain E (check_file_table E), check_plain E (check_load E),
       check_plain E (check_memory E), check_plain E (check_allocatable E),
       check_list E temp_list (\<lambda>l. temp_list_update (\<lambda>_. l)) (run_temp E),
       check_list E file_list (\<lambda>l. file_list_update (\<lambda>_. l)) (run_file E),
       check_list E pidfile_list (\<lambda>l. pidfile_list_update (\<lambda>_. l)) (run_pidfile E),
       check_list E iface_list (\<lambda>l. iface_list_update (\<lambda>_. l)) (check_iface E),
       check_list E target_list (\<lambda>l. target_list_update (\<lambda>_. l)) (run_ping E),
       check_list E tr_bin_list (\<lambda>l. tr_bin_list_update (\<lambda>_. l)) (run_bin E)]"

definition swait :: int where "swait = 50000"

text \<open>\<open>tint * 1000000\<close> is computed as an \<open>int\<close>.\<close>

definition twait :: "int \<Rightarrow> int" where
  "twait t = uint64 (uint64 (int32 (t * 1000000)) - swait)"

definition count_tick :: "env \<Rightarrow> int \<Rightarrow> ('s wd_state_scheme, unit) proc" where
  "count_tick E count =
     bind (gets cfg) (\<lambda>c.
     whenp (verbose c \<noteq> 0 \<and> logtick c \<noteq> 0)
       (andthen (modify (cfg_update (ticker_update (\<lambda>n. int32 (n - 1)))))
       (whenp (int32 (ticker c - 1) = 0)
         (andthen (modify (cfg_update (ticker_update (\<lambda>_. logtick c))))
         (log_msg E LOG_DEBUG ''still alive after %ld interval(s)'' [AInt count])))))"

definition interval :: "env \<Rightarrow> bool \<Rightarrow> int \<Rightarrow> int \<Rightarrow> int \<Rightarrow> ('s wd_state_scheme, unit) proc" where
  "interval E sync_it wait count count_max =
     bind (wd_keep_alive E) (\<lambda>k.
     bind (gets (repair_bin \<circ> cfg)) (\<lambda>rb.
     andthen (ignored (wd_action E k rb None))
     (andthen (all_checks E sync_it)
     (andthen (do_sys E (ProcCall (Usleep swait)))
     (bind (gets (test_timeout \<circ> cfg)) (\<lambda>t.
      andthen (ignored (check_bin E None t 0))
     (andthen (do_sys E (ProcCall (Usleep wait)))
     (andthen (count_tick E (count + 1))
     (whenp (count_max > 0 \<and> count + 1 \<ge> count_max)
       (andthen (log_msg E LOG_WARNING ''loop exit on interval counter reached'' [])
       (modify (running_update (\<lambda>_. False)))))))))))))"

text \<open>The condition of the loop, with the signals that have arrived.\<close>

definition still_running :: "env \<Rightarrow> ('s wd_state_scheme, bool) proc" where
  "still_running E =
     bind (psys E Poll_sigterm) (\<lambda>p.
     andthen (whenp (rv p \<noteq> 0) sigterm_handler)
     (gets running))"

fun main_loop :: "nat \<Rightarrow> env \<Rightarrow> bool \<Rightarrow> int \<Rightarrow> int \<Rightarrow> int \<Rightarrow> ('s wd_state_scheme, unit) proc" where
  "main_loop 0 E sync_it wait count count_max = unfinished"
| "main_loop (Suc n) E sync_it wait count count_max =
     bind (still_running E) (\<lambda>go.
     if go then
       andthen (interval E sync_it wait count count_max)
       (main_loop n E sync_it wait (count + 1) count_max)
     else ret ())"

definition main :: "env \<Rightarrow> string \<Rightarrow> (char \<times> string) list \<Rightarrow> ('s wd_state_scheme, int) proc" where
  "main E name args =
     andthen (ignored (open_logging E (Some name) (MSG_TO_STDERR OR MSG_TO_SYSLOG)))
     (bind (parse_options E name args default_options) (\<lambda>opt.
      andthen (startup E opt)
     (bind (gets (tint \<circ> cfg)) (\<lambda>t.
      andthen (main_loop (loop_bound E) E (o_sync_it opt) (twait t) 0 (o_count_max opt))
     (terminate E 0)))))"

section \<open>Parameters\<close>

lemma fatal_error_run:
  "\<exists>s'. (fatal_error E x f a :: ('s wd_state_scheme, unit) proc) s = (Exit x, s') \<and> cfg s' = cfg s"
proof -
  let ?m = "fatal_error E x f a :: ('s wd_state_scheme, unit) proc"
  have "exits x ?m" unfolding fatal_error_def by (intro exits_intro log_returns)
  then obtain s' where 1: "?m s = (Exit x, s')" unfolding exits_def by blast
  have "keeps cfg ?m" by (rule fatal_error_keeps) (simp add: log_frame_def)
  then have "cfg s' = cfg s" using 1 by (rule keepsD)
  with 1 show ?thesis by blast
qed

definition sane :: "config \<Rightarrow> bool" where
  "sane c \<longleftrightarrow> tint c < int32 (dev_timeout c - 1) \<and> (maxload1 c \<le> 0 \<or> MINLOAD \<le> maxload1 c)"


text \<open>The long sleep of an interval is the interval less the short sleep before the reports of test
  binaries are collected, for all intervals up to 2147 seconds; from 2148 seconds on the product
  overflows.\<close>

lemma twait_exact:
  "(1 \<le> t \<and> t \<le> 2147 \<longrightarrow> twait t + swait = t * 1000000) \<and> twait 2148 + swait = 2 ^ 64 - (2 ^ 32 - 2148000000)"
  by (auto simp: twait_def swait_def uint64_def int32_def)

section \<open>The loop ends\<close>

text \<open>\<open>leaves Q m\<close>: whenever \<open>m\<close> returns, it does so in a state that satisfies \<open>Q\<close>.\<close>

definition leaves :: "('s \<Rightarrow> bool) \<Rightarrow> ('s, 'a) proc \<Rightarrow> bool" where
  "leaves Q m \<longleftrightarrow> (\<forall>s x s'. m s = (Ret x, s') \<longrightarrow> Q s')"

lemma leavesD: "leaves Q m \<Longrightarrow> m s = (Ret x, s') \<Longrightarrow> Q s'"
  unfolding leaves_def by blast

lemma leaves_bind: "(\<And>x. leaves Q (f x)) \<Longrightarrow> leaves Q (bind m f)"
  unfolding leaves_def by (blast elim: bind_RetE)

lemma leaves_andthen: "leaves Q n \<Longrightarrow> leaves Q (andthen m n)"
  by (simp add: andthen_def leaves_bind)

lemma leaves_modify: "(\<And>s. Q (f s)) \<Longrightarrow> leaves Q (modify f)"
  by (simp add: leaves_def)

text \<open>What comes after a step matters only for the states in which the step returns.\<close>

lemma andthen_cong:
  assumes "\<And>x s'. m s = (Ret x, s') \<Longrightarrow> k s' = k' s'"
  shows "andthen m k s = andthen m k' s"
  using assms by (cases "m s") (auto simp: andthen_def bind_def split: outcome.splits)

lemma interval_stops:
  assumes "0 < count_max" and "count_max \<le> count + 1"
  shows "leaves (\<lambda>s. \<not> running s) (interval E sync_it wait count count_max)"
  unfolding interval_def using assms
  by (intro leaves_bind leaves_andthen) (simp add: leaves_andthen leaves_modify)

lemma main_loop_stopped:
  assumes "\<not> running s"
  shows "main_loop (Suc n) E sync_it wait count count_max s = main_loop (Suc m) E sync_it wait count count_max s"
proof -
  have "still_running E s = (Ret False, snd (still_running E s))"
    using assms by (simp add: still_running_def sigterm_handler_def whenp_def)
  then show ?thesis by (simp add: bind_apply_Ret)
qed

declare main_loop.simps [simp del]

lemma loop_exit:
  assumes "0 \<le> count" and "count < count_max" and "nat (count_max - count) < n"
  shows "main_loop n E sync_it wait count count_max =
     (main_loop (Suc (nat (count_max - count))) E sync_it wait count count_max :: ('s wd_state_scheme, unit) proc)"
  using assms
proof (induction "nat (count_max - count)" arbitrary: count n)
  case (Suc k)
  obtain n' where n: "n = Suc n'" "nat (count_max - count) \<le> n'" using Suc.prems(3) by (cases n) auto
  have rest: "andthen (interval E sync_it wait count count_max) (main_loop n' E sync_it wait (count + 1) count_max) =
    andthen (interval E sync_it wait count count_max) (main_loop (nat (count_max - count)) E sync_it wait (count + 1) count_max
      :: ('s wd_state_scheme, unit) proc)"
  proof (cases "count + 1 < count_max")
    case True
    then have k: "k = nat (count_max - (count + 1))" "Suc k = nat (count_max - count)" using Suc.hyps(2) by auto
    with Suc.hyps(1) [of "count + 1" n'] True Suc.prems n(2) show ?thesis by simp
  next
    case False
    then have one: "nat (count_max - count) = Suc 0" using Suc.prems(2) by simp
    then obtain m where m: "n' = Suc m" using n(2) by (cases n') auto
    have "leaves (\<lambda>s. \<not> running s) (interval E sync_it wait count count_max)"
      using False Suc.prems by (intro interval_stops) auto
    then show ?thesis
      unfolding one m by (intro ext andthen_cong main_loop_stopped) (rule leavesD)
  qed
  show ?case unfolding n(1) main_loop.simps rest ..
qed simp

text \<open>C6. With \<^verbatim>\<open>--loop-exit N\<close> the main loop ends by itself after at most \<open>N\<close> intervals, whatever
  happens in them: a larger bound on the iterations changes nothing.\<close>

theorem loop_exit_bounds:
  assumes "0 < count_max" and "nat count_max < n"
  shows "main_loop n E sync_it wait 0 count_max s = main_loop (Suc (nat count_max)) E sync_it wait 0 count_max s"
  using assms by (simp add: loop_exit [of 0 count_max n])

section \<open>Counting repairs\<close>

text \<open>\<open>forks_at_most k m\<close>: in every run, however it ends, \<open>m\<close> starts at most \<open>k\<close> processes.\<close>

definition forks_at_most :: "nat \<Rightarrow> ('s os_state_scheme, 'a) proc \<Rightarrow> bool" where
  "forks_at_most k m \<longleftrightarrow> (\<forall>s. length (calls is_fork (snd (m s))) \<le> length (calls is_fork s) + k)"

lemma forks_at_mostD: "forks_at_most k m \<Longrightarrow> m s = (r, s') \<Longrightarrow> length (calls is_fork s') \<le> length (calls is_fork s) + k"
  unfolding forks_at_most_def by (metis snd_conv)

lemma mild_forks: "mild m \<Longrightarrow> forks_at_most 0 m"
  unfolding forks_at_most_def
proof
  fix s
  assume "mild m"
  then obtain es where "trace (snd (m s)) = trace s @ es" "\<forall>e \<in> set es. \<not> is_reboot (fst e) \<and> \<not> is_fork (fst e)"
    unfolding emits_def by blast
  then show "length (calls is_fork (snd (m s))) \<le> length (calls is_fork s) + 0" by (simp add: filter_none)
qed

lemma forks_bind:
  assumes "forks_at_most j m" and "\<And>x. forks_at_most k (f x)"
  shows "forks_at_most (j + k) (bind m f)"
  unfolding forks_at_most_def
proof
  fix s
  obtain r s1 where 1: "m s = (r, s1)" by fastforce
  have j: "length (calls is_fork s1) \<le> length (calls is_fork s) + j" using assms(1) 1 by (rule forks_at_mostD)
  show "length (calls is_fork (snd (bind m f s))) \<le> length (calls is_fork s) + (j + k)"
  proof (cases r)
    case (Ret x)
    have "length (calls is_fork (snd (f x s1))) \<le> length (calls is_fork s1) + k"
      using assms(2) unfolding forks_at_most_def by blast
    with j 1 Ret show ?thesis by (simp add: bind_apply_Ret)
  qed (use j 1 in \<open>simp_all add: bind_def\<close>)
qed

declare await_child.simps [simp del]

lemma mild_repair_parts [emits_intro]:
  "mild (repair_child E rb parm name v)" "mild (await_child n E child)" "mild (repair_result E rb r child w)"
proof -
  show "mild (repair_child E rb parm name v)"
    unfolding repair_child_def redirect_def by (intro emits_intro) simp_all
  show "mild (repair_result E rb r child w)"
    unfolding repair_result_def by (intro emits_intro) simp_all
  show "mild (await_child n E child)"
  proof (induction n)
    case 0
    show ?case by (subst await_child.simps, simp only: nat.case) (intro emits_intro; simp)
  next
    case (Suc n)
    then show ?case
      by (subst await_child.simps, cases n) (simp_all only: nat.case, (intro emits_intro; simp)+)
  qed
qed

lemma forks_repair: "forks_at_most 1 (repair E rb result name v)"
proof -
  have rest: "mild (if rv child = 0 then repair_child E b parm name v
             else if rv child < 0 then
               andthen (log_msg E LOG_ERR ''process fork failed'' [AInt (err child)]) (ret EREBOOT)
             else
               bind (gets (repair_timeout \<circ> cfg)) (\<lambda>t.
               bind (if t > 0 then await_child (nat t) E (rv child)
                     else psys E (Waitpid (rv child) False)) (\<lambda>w.
               repair_result E b result (rv child) w)))" for child b parm
    by (intro emits_intro) simp_all
  have fork: "forks_at_most 1 (psys E Fork)" by (simp add: forks_at_most_def)
  have none: "forks_at_most 1 m" if "mild m" for m :: "('s wd_state_scheme, int) proc"
    using mild_forks [OF that] by (auto simp: forks_at_most_def intro: le_trans)
  have "forks_at_most (1 + 0) (bind (psys E Fork) (\<lambda>child.
             if rv child = 0 then repair_child E b parm name v
             else if rv child < 0 then
               andthen (log_msg E LOG_ERR ''process fork failed'' [AInt (err child)]) (ret EREBOOT)
             else
               bind (gets (repair_timeout \<circ> cfg)) (\<lambda>t.
               bind (if t > 0 then await_child (nat t) E (rv child)
                     else psys E (Waitpid (rv child) False)) (\<lambda>w.
               repair_result E b result (rv child) w))))" for b parm
    by (rule forks_bind [OF fork mild_forks]) (rule rest)
  then have main: "forks_at_most 1 (bind (psys E Fork) (\<lambda>child.
             if rv child = 0 then repair_child E b parm name v
             else if rv child < 0 then
               andthen (log_msg E LOG_ERR ''process fork failed'' [AInt (err child)]) (ret EREBOOT)
             else
               bind (gets (repair_timeout \<circ> cfg)) (\<lambda>t.
               bind (if t > 0 then await_child (nat t) E (rv child)
                     else psys E (Waitpid (rv child) False)) (\<lambda>w.
               repair_result E b result (rv child) w))))" for b parm by (simp only: add_0_right)
  show ?thesis
    unfolding repair_def Let_def
    by (cases rb; cases "5 \<le> length (show_int result)")
      (simp_all only: option.case if_True if_False main none emits_ret emits_fault)
qed

lemma forks_none: "emits (\<lambda>c. \<not> is_fork c) m \<Longrightarrow> forks_at_most 0 m"
  unfolding forks_at_most_def emits_def by (metis calls_append filter_none append_Nil2 order_refl add_0_right)

lemma forks_andthen: "forks_at_most 0 m \<Longrightarrow> forks_at_most 0 n \<Longrightarrow> forks_at_most 0 (andthen m n)"
  using forks_bind [of 0 m 0 "\<lambda>_. n"] by (simp add: andthen_def)

lemma forks_do_shutdown: "forks_at_most 0 (do_shutdown E code)"
proof -
  have "emits (\<lambda>c. \<not> is_fork c) (final_reboot E code)"
    unfolding final_reboot_def get_watchdog_fd_def
    by (intro emits_intro emits_mono [OF mild_ignored [OF mild_device(2)]]) simp_all
  then show ?thesis
    unfolding do_shutdown_prepare by (intro forks_andthen mild_forks mild_prepare forks_none mild_panic)
qed

lemma forks_consider_reboot: "forks_at_most 0 (consider_reboot E result)"
  unfolding consider_reboot_def
proof (rule forks_bind [where j = 0 and k = 0, simplified])
  show "forks_at_most 0 (gets no_act)" by (simp add: forks_at_most_def)
  have log: "forks_at_most 0 (bind (gets cfg) (\<lambda>c. whenp (is_verbose c) (log_msg E LOG_DEBUG ''Shutdown blocked by --no-action''
            [AInt result, AStr (wd_strerror E result)])))"
    by (rule mild_forks) (intro emits_intro; simp)
  show "forks_at_most 0 (whenp (result \<noteq> ENOERR) (if na then bind (gets cfg) (\<lambda>c.
          whenp (is_verbose c) (log_msg E LOG_DEBUG ''Shutdown blocked by --no-action''
            [AInt result, AStr (wd_strerror E result)])) else do_shutdown E result))" for na
    by (cases "result \<noteq> ENOERR"; cases na)
      (simp_all only: whenp_simps if_True if_False log forks_do_shutdown simp_thms mild_forks emits_ret)
qed

text \<open>A reaction that returns has not started a shutdown, and leaves the configuration alone.\<close>

lemma keep_alive_keeps_cfg [keeps_intro]: "keeps cfg (wd_keep_alive E)"
  unfolding wd_keep_alive_def keep_alive_def write_heartbeat_def put_stamp_def next_value_def write_stamps_def fwrite_stamps_def
  by (intro keeps_intro) (simp_all add: log_frame_def)

lemma repair_keeps_cfg: "keeps cfg (repair E rb result name v)"
proof -
  have await: "keeps cfg (await_child n E child)" for n child
  proof (induction n)
    case 0
    show ?case by (subst await_child.simps, simp only: nat.case ignored_def) (intro keeps_intro; simp)
  next
    case (Suc n)
    then show ?case
      by (subst await_child.simps, cases n) (simp_all only: nat.case ignored_def, (intro keeps_intro; simp)+)
  qed
  show ?thesis
    unfolding repair_def repair_child_def redirect_def repair_result_def
    by (intro keeps_intro await) (simp_all add: log_frame_def)
qed

lemma consider_reboot_returns:
  assumes "consider_reboot E result s = (Ret x, s')"
  shows "cfg s' = cfg s \<and> (result = ENOERR \<or> no_act s)"
proof (cases "result = ENOERR \<or> no_act s")
  case True
  with assms show ?thesis
    by (auto simp: consider_reboot_def whenp_def dev_run split: if_splits)
next
  case False
  with assms have "do_shutdown E result s = (Ret x, s')" by (simp add: consider_reboot_def)
  with do_shutdown_calls [where 'a = unit, of E result s] show ?thesis by fastforce
qed

lemma no_act_logged [simp]: "no_act (logged E l f a s) = no_act s"
  by (rule logged_frame) (simp add: log_frame_def)

lemma retry_timer_run:
  "\<exists>b a1 s'. retry_timer E a s = (Ret (b, a1), s') \<and> repair_count a1 = repair_count a \<and> cfg s' = cfg s \<and>
     calls is_fork s' = calls is_fork s"
  unfolding retry_timer_def
  by (cases "retry_timeout (cfg s) > 0"; cases "last_time a = 0")
    (auto simp: Let_def whenp_def dev_run)

lemma count_repair_run:
  assumes "0 < repair_max (cfg s)" and "0 \<le> repair_count a" and "repair_count a < INT_MAX"
  shows "\<exists>a2 s'. count_repair E a s = (Ret (repair_count a < repair_max (cfg s), a2), s') \<and>
     repair_count a2 = repair_count a + 1 \<and> cfg s' = cfg s \<and> no_act s' = no_act s \<and>
     calls is_fork s' = calls is_fork s"
proof -
  have "int32 (repair_count a + 1) = repair_count a + 1" using assms(2,3) by (simp add: int32_def INT_MAX_def)
  with assms(1) show ?thesis by (auto simp: count_repair_def Let_def whenp_def dev_run)
qed

text \<open>How many repairs are left for an entry.\<close>

definition attempts_left :: "int \<Rightarrow> entry \<Rightarrow> nat" where
  "attempts_left m a = nat (m - repair_count a)"

lemma try_repair_forks:
  assumes "repair_max (cfg s) = m" and "0 < m" and "0 \<le> repair_count a" and "repair_count a < INT_MAX"
    and "try_repair E result rb (Some a) s = (r, s')"
  shows "length (calls is_fork s') \<le> length (calls is_fork s) + attempts_left m a \<and>
    (\<forall>x act. r = Ret (x, act) \<longrightarrow> (\<exists>a'. act = Some a' \<and> repair_max (cfg s') = m \<and> 0 \<le> repair_count a' \<and>
       repair_count a' \<le> repair_count a + 1 \<and>
       length (calls is_fork s') + attempts_left m a' \<le> length (calls is_fork s) + attempts_left m a))"
proof -
  obtain b a1 s1 where 1: "retry_timer E a s = (Ret (b, a1), s1)" "repair_count a1 = repair_count a" "cfg s1 = cfg s"
    "calls is_fork s1 = calls is_fork s" using retry_timer_run by blast
  show ?thesis
  proof (cases b)
    case False
    with 1 assms show ?thesis by (auto simp: try_repair_def bind_apply_Ret attempts_left_def)
  next
    case True
    obtain a2 s2 where 2: "count_repair E a1 s1 = (Ret (repair_count a < m, a2), s2)" "repair_count a2 = repair_count a + 1"
      "cfg s2 = cfg s" "calls is_fork s2 = calls is_fork s"
      using count_repair_run [of s1 a1 E] 1 assms(1-4) by auto
    show ?thesis
    proof (cases "repair_count a < m")
      case False
      with 1 2 True assms show ?thesis by (auto simp: try_repair_def bind_apply_Ret attempts_left_def)
    next
      case lt: True
      let ?rep = "repair E (if e_version a = 1 then Some (e_name a) else rb) result (Some (e_name a)) (e_version a)"
      obtain r3 s3 where 3: "?rep s2 = (r3, s3)" by fastforce
      have le: "length (calls is_fork s3) \<le> length (calls is_fork s) + 1"
        using forks_at_mostD [OF forks_repair 3] 2(4) by simp
      have c: "cfg s3 = cfg s" using keepsD [OF repair_keeps_cfg 3] 2(3) by simp
      have run: "try_repair E result rb (Some a) s = bind ?rep (\<lambda>r. ret (r, Some a2)) s2"
        using 1(1) 2(1) True lt by (simp add: try_repair_def bind_apply_Ret)
      have left: "attempts_left m a = Suc (attempts_left m a2)" using lt 2(2) by (simp add: attempts_left_def)
      show ?thesis
        using run assms 3 le c left 2(2) by (cases r3) (auto simp: bind_def)
    qed
  qed
qed

lemma wd_action_forks:
  assumes "repair_max (cfg s) = m" and "0 < m" and "0 \<le> repair_count a" and "repair_count a < INT_MAX"
    and "result \<noteq> ENOERR" and "wd_action E result rb (Some a) s = (r, s')"
  shows "length (calls is_fork s') \<le> length (calls is_fork s) + attempts_left m a \<and>
    (\<forall>act. r = Ret act \<longrightarrow> (\<exists>a'. act = Some a' \<and> repair_max (cfg s') = m \<and> 0 \<le> repair_count a' \<and>
       repair_count a' \<le> repair_count a + 1 \<and>
       length (calls is_fork s') + attempts_left m a' \<le> length (calls is_fork s) + attempts_left m a))"
proof (cases "result = EDONTKNOW")
  case True
  with assms show ?thesis by (auto simp: wd_action_def)
next
  case False
  let ?first = "if result = EREBOOT \<or> result = ERESET \<or> result = ETOOHOT then ret (result, Some a)
      else try_repair E result rb (Some a)"
  obtain r1 s1 where 1: "?first s = (r1, s1)" by fastforce
  have first: "length (calls is_fork s1) \<le> length (calls is_fork s) + attempts_left m a \<and>
    (\<forall>x act. r1 = Ret (x, act) \<longrightarrow> (\<exists>a'. act = Some a' \<and> repair_max (cfg s1) = m \<and> 0 \<le> repair_count a' \<and>
       repair_count a' \<le> repair_count a + 1 \<and>
       length (calls is_fork s1) + attempts_left m a' \<le> length (calls is_fork s) + attempts_left m a))"
  proof (cases "result = EREBOOT \<or> result = ERESET \<or> result = ETOOHOT")
    case True
    with 1 assms show ?thesis by auto
  next
    case no: False
    with 1 have "try_repair E result rb (Some a) s = (r1, s1)" by (simp only: if_False)
    then show ?thesis by (rule try_repair_forks [OF assms(1-4)])
  qed
  have run: "wd_action E result rb (Some a) s = bind ?first (\<lambda>(result', act'). andthen (consider_reboot E result') (ret act')) s"
    unfolding wd_action_def using False assms(5) by (simp only: if_False)
  show ?thesis
  proof (cases r1)
    case (Ret x)
    obtain res act where x: "x = (res, act)" by (cases x)
    obtain r2 s2 where 2: "consider_reboot E res s1 = (r2, s2)" by fastforce
    have le: "length (calls is_fork s2) \<le> length (calls is_fork s1)"
      using forks_at_mostD [OF forks_consider_reboot 2] by simp
    have eq: "(r, s') = andthen (consider_reboot E res) (ret act) s1"
      using assms(6) run 1 Ret x by (simp add: bind_apply_Ret)
    show ?thesis
    proof (cases r2)
      case ret2: (Ret u)
      from consider_reboot_returns [of E res s1 u s2] 2 ret2 have "cfg s2 = cfg s1" by simp
      with first le eq 2 ret2 Ret x show ?thesis by (auto simp: andthen_apply_Ret)
    qed (use first le eq 2 in \<open>auto simp: andthen_def bind_def\<close>)
  qed (use first 1 run assms(6) in \<open>auto simp: bind_def\<close>)
qed

text \<open>Successive reactions to the results of one entry.\<close>

fun react_all :: "env \<Rightarrow> int list \<Rightarrow> string option \<Rightarrow> entry \<Rightarrow> ('s wd_state_scheme, entry) proc" where
  "react_all E [] rb a = ret a"
| "react_all E (r # rs) rb a =
     bind (wd_action E r rb (Some a)) (\<lambda>act. react_all E rs rb (case act of None \<Rightarrow> a | Some a' \<Rightarrow> a'))"

declare react_all.simps [simp del]

lemma react_all_forks:
  assumes "0 < m" and "ENOERR \<notin> set rs"
  shows "repair_max (cfg s) = m \<Longrightarrow> 0 \<le> repair_count a \<Longrightarrow> repair_count a + int (length rs) \<le> INT_MAX \<Longrightarrow>
    length (calls is_fork (snd (react_all E rs rb a s))) \<le> length (calls is_fork s) + attempts_left m a"
  using assms(2)
proof (induction rs arbitrary: a s)
  case Nil
  show ?case by (simp add: react_all.simps)
next
  case (Cons q rs)
  obtain r s1 where 1: "wd_action E q rb (Some a) s = (r, s1)" by fastforce
  have q: "q \<noteq> ENOERR" and lt: "repair_count a < INT_MAX" using Cons.prems by auto
  note step = wd_action_forks [OF Cons.prems(1) assms(1) Cons.prems(2) lt q 1]
  show ?case
  proof (cases r)
    case (Ret act)
    then obtain a' where a': "act = Some a'" "repair_max (cfg s1) = m" "0 \<le> repair_count a'"
      "repair_count a' \<le> repair_count a + 1"
      "length (calls is_fork s1) + attempts_left m a' \<le> length (calls is_fork s) + attempts_left m a"
      using step by blast
    have "length (calls is_fork (snd (react_all E rs rb a' s1))) \<le> length (calls is_fork s1) + attempts_left m a'"
      using a' Cons.prems by (intro Cons.IH) auto
    with a' 1 Ret show ?thesis by (simp add: react_all.simps bind_apply_Ret)
  qed (use step 1 in \<open>simp_all add: react_all.simps bind_def\<close>)
qed

text \<open>C4. The limit on repairs holds: as long as an entry does not recover, however often it is checked and
  whatever the kernel replies, at most \<open>repair-maximum\<close> repair programs are started for it.\<close>

theorem repair_attempts_bounded:
  assumes "0 < repair_max (cfg s)" and "repair_count a = 0" and "ENOERR \<notin> set rs" and "int (length rs) \<le> INT_MAX"
  shows "length (calls is_fork (snd (react_all E rs rb a s))) \<le> length (calls is_fork s) + nat (repair_max (cfg s))"
  using react_all_forks [OF assms(1,3) refl, of a E rb] assms(2,4) by (simp add: attempts_left_def)

section \<open>Reactions\<close>

text \<open>An error that the daemon tries to repair.\<close>

definition repairable :: "int \<Rightarrow> bool" where
  "repairable result \<longleftrightarrow> result \<notin> {ENOERR, EDONTKNOW, EREBOOT, ERESET, ETOOHOT}"

text \<open>With a retry time-out the first failure of an entry is only remembered: the daemon asks for the
  time, and neither repairs nor reboots.\<close>

lemma first_failure_remembered:
  assumes "repairable result" and "0 < retry_timeout (cfg s)" and "last_time a = 0"
  shows "\<exists>now. wd_action E result rb (Some a) s =
     (Ret (Some (a\<lparr>last_time := v1 now\<rparr>)), s\<lparr>trace := trace s @ [(ProcCall Time, now)]\<rparr>)"
proof -
  let ?now = "kern E (trace s) (ProcCall Time)"
  let ?s = "s\<lparr>trace := trace s @ [(ProcCall Time, ?now)]\<rparr>" and ?a = "a\<lparr>last_time := v1 ?now\<rparr>"
  have "retry_timer E a s = (Ret (False, ?a), ?s)" using assms(2,3) by (simp add: retry_timer_def)
  then have "try_repair E result rb (Some a) s = (Ret (ENOERR, Some ?a), ?s)" by (simp add: try_repair_def bind_apply_Ret)
  moreover have "consider_reboot E ENOERR ?s = (Ret (), ?s)" by (simp add: consider_reboot_def)
  ultimately show ?thesis
    using assms(1) by (intro exI [of _ ?now]) (simp add: repairable_def wd_action_def bind_apply_Ret andthen_apply_Ret)
qed

text \<open>The entry has used up its time and its repairs.\<close>

definition exhausted :: "env \<Rightarrow> 's wd_state_scheme \<Rightarrow> entry \<Rightarrow> bool" where
  "exhausted E s a \<longleftrightarrow> 0 < repair_max (cfg s) \<and> repair_max (cfg s) \<le> repair_count a \<and> repair_count a < INT_MAX \<and>
     (retry_timeout (cfg s) \<le> 0 \<or> last_time a \<noteq> 0 \<and>
        (\<forall>tr. retry_timeout (cfg s) < int32 (v1 (kern E tr (ProcCall Time)) - last_time a)))"

lemma exhausted_timer:
  assumes "exhausted E s a"
  shows "\<exists>s1. retry_timer E a s = (Ret (True, a), s1) \<and> cfg s1 = cfg s \<and> no_act s1 = no_act s \<and>
     calls is_fork s1 = calls is_fork s"
proof -
  show ?thesis
    using assms unfolding exhausted_def retry_timer_def
    by (cases "retry_timeout (cfg s) > 0") (auto simp: Let_def dev_run)
qed

text \<open>C5. An entry that has used up its retry time and its repairs brings the system down: no further
  repair is started, and the reaction does not return but shuts down because of the error.\<close>

theorem exhausted_entry_shuts_down:
  assumes "exhausted E s a" and "repairable result" and "\<not> no_act s"
  shows "\<exists>s1 r r' s'. wd_action E result rb (Some a) s = (r, s') \<and> (\<forall>x. r \<noteq> Ret x) \<and>
     calls is_fork s1 = calls is_fork s \<and> cfg s1 = cfg s \<and>
     (do_shutdown E result :: ('s wd_state_scheme, unit) proc) s1 = (r', s')"
proof -
  have cnt: "0 < repair_max (cfg s)" "repair_max (cfg s) \<le> repair_count a" "repair_count a < INT_MAX"
    using assms(1) by (simp_all add: exhausted_def)
  obtain s1 where 1: "retry_timer E a s = (Ret (True, a), s1)" "cfg s1 = cfg s" "no_act s1 = no_act s"
    "calls is_fork s1 = calls is_fork s" using exhausted_timer [OF assms(1)] by blast
  obtain a2 s2 where 2: "count_repair E a s1 = (Ret (False, a2), s2)" "cfg s2 = cfg s" "no_act s2 = no_act s"
    "calls is_fork s2 = calls is_fork s"
    using count_repair_run [of s1 a E] 1 cnt by auto
  have "try_repair E result rb (Some a) s = (Ret (result, Some a2), s2)"
    using 1(1) 2(1) by (simp add: try_repair_def bind_apply_Ret)
  then have run: "wd_action E result rb (Some a) s =
      andthen (do_shutdown E result :: ('s wd_state_scheme, unit) proc) (ret (Some a2)) s2"
    using assms(2,3) 2(3) by (simp add: repairable_def wd_action_def consider_reboot_def bind_apply_Ret andthen_bind)
  obtain r' s' where 3: "(do_shutdown E result :: ('s wd_state_scheme, unit) proc) s2 = (r', s')" "\<forall>x. r' \<noteq> Ret x"
    using do_shutdown_calls [where 'a = unit, of E result s2] by blast
  then have "\<exists>r. wd_action E result rb (Some a) s = (r, s') \<and> (\<forall>x. r \<noteq> Ret x)"
    unfolding run andthen_def by (cases r') (auto simp: bind_def)
  with 2 3 show ?thesis by blast
qed

text \<open>A repair program that a signal kills counts as a successful repair: only the exit status is looked
  at.\<close>

lemma killed_repair_counts_as_success:
  assumes "WIFSIGNALED (v1 w)" and "0 \<le> v1 w" and "v1 w < 256" and "rv w = child" and "child \<noteq> 0"
  shows "repair_result E rb result child w s = (Ret ENOERR, s)"
  using assms by (simp add: repair_result_def WEXITSTATUS_def Let_def ENOERR_def)

end
