(* ===== verification/KeepaliveDaemon.thy ===== *)
theory KeepaliveDaemon
  imports Watchdog
begin

text \<open>
  The two small programs that share the library: \<^verbatim>\<open>src/wd_keepalive.c\<close>, which only refreshes the
  device, and \<^verbatim>\<open>src/wd_identify.c\<close>, which prints the identity of the hardware. Their functions have
  the prefixes \<open>ka_\<close> and \<open>id_\<close> where the daemon has functions of the same name.
\<close>

section \<open>The keep-alive daemon\<close>

record ka_state = dev_state +
  ka_running :: bool

definition KA_PIDFILE :: string where "KA_PIDFILE = ''/var/run/wd_keepalive.pid''"

definition ka_usage :: "env \<Rightarrow> string \<Rightarrow> ('s ka_state_scheme, 'a) proc" where
  "ka_usage E name =
     andthen (run_all (map (\<lambda>l. fprintf_err E l [AStr name])
        [''%s version %d.%d, usage:'', ''%s [options]'', ''options:'',
         ''  -c | --config-file <file>  specify location of config file'',
         ''  -X | --loop-exit <number>  run a fixed number of loops then exit'']))
     (stop 1)"

definition ka_write_heartbeat :: "env \<Rightarrow> ('s ka_state_scheme, int) proc" where
  "ka_write_heartbeat E = ret 0"

definition ka_keep_alive :: "env \<Rightarrow> ('s ka_state_scheme, int) proc" where
  "ka_keep_alive E = keep_alive E (ka_write_heartbeat E)"

definition ka_close_all :: "env \<Rightarrow> ('s ka_state_scheme, unit) proc" where
  "ka_close_all E = ignored (close_watchdog E)"

definition ka_terminate :: "env \<Rightarrow> int \<Rightarrow> ('s ka_state_scheme, 'a) proc" where
  "ka_terminate E code =
     andthen (log_msg E LOG_NOTICE ''stopping watchdog keepalive daemon'' [AInt MAJOR_VERSION, AInt MINOR_VERSION])
     (andthen (unlock_our_memory E)
     (andthen (ka_close_all E)
     (andthen (ignored (remove_pid_file E))
     (andthen (ignored (close_logging E))
     (andthen (do_sys E (ProcCall (Usleep 100000)))
     (stop code))))))"

fun ka_parse_options :: "env \<Rightarrow> string \<Rightarrow> (char \<times> string) list \<Rightarrow> string \<times> int \<Rightarrow> ('s ka_state_scheme, string \<times> int) proc" where
  "ka_parse_options E name [] opt = ret opt"
| "ka_parse_options E name ((c, optarg) # cs) (configfile, count_max) =
     (if c = CHR ''c'' then ka_parse_options E name cs (optarg, count_max)
      else if c \<in> set ''npardtlmifsbqv'' then ka_parse_options E name cs (configfile, count_max)
      else if c = CHR ''X'' then
        andthen (log_msg E LOG_WARNING ''NOTE: Using --loop-exit so daemon will exit'' [AInt (atol optarg)])
        (ka_parse_options E name cs (configfile, atol optarg))
      else ka_usage E name)"

definition ka_still_running :: "env \<Rightarrow> ('s ka_state_scheme, bool) proc" where
  "ka_still_running E =
     bind (psys E Poll_sigterm) (\<lambda>p.
     andthen (whenp (rv p \<noteq> 0) (modify (ka_running_update (\<lambda>_. False))))
     (gets ka_running))"

definition ka_interval :: "env \<Rightarrow> int \<Rightarrow> int \<Rightarrow> ('s ka_state_scheme, unit) proc" where
  "ka_interval E count count_max =
     andthen (ignored (ka_keep_alive E))
     (bind (gets (tint \<circ> cfg)) (\<lambda>t.
      andthen (do_sys E (ProcCall (Sleep t)))
     (whenp (count_max > 0 \<and> count + 1 \<ge> count_max)
       (andthen (log_msg E LOG_WARNING ''loop exit on interval counter reached'' [])
       (modify (ka_running_update (\<lambda>_. False)))))))"

fun ka_loop :: "nat \<Rightarrow> env \<Rightarrow> int \<Rightarrow> int \<Rightarrow> ('s ka_state_scheme, unit) proc" where
  "ka_loop 0 E count count_max = unfinished"
| "ka_loop (Suc n) E count count_max =
     bind (ka_still_running E) (\<lambda>go.
     if go then andthen (ka_interval E count count_max) (ka_loop n E (count + 1) count_max)
     else ret ())"

definition ka_start :: "env \<Rightarrow> string \<Rightarrow> ('s ka_state_scheme, unit) proc" where
  "ka_start E dev =
     bind (wd_daemon E False False) (\<lambda>r.
     andthen (whenp (r \<noteq> 0) (fatal_error E EX_SYSERR ''failed to daemonize'' []))
     (bind (write_pid_file E (Some KA_PIDFILE)) (\<lambda>w.
      andthen (whenp (w \<noteq> 0) (fatal_error E EX_USAGE ''unable to gain lock via PID file'' []))
     (andthen (ignored (open_logging E None MSG_TO_SYSLOG))
     (andthen (log_msg E LOG_NOTICE ''starting watchdog keepalive daemon'' [AInt MAJOR_VERSION, AInt MINOR_VERSION])
     (bind (gets cfg) (\<lambda>c.
      andthen (log_msg E LOG_INFO '' int=%d alive=%s realtime=%s''
        [AInt (tint c), AStr dev, AStr (if realtime c \<noteq> 0 then ''yes'' else ''no'')])
     (bind (open_watchdog E (Some dev) (dev_timeout c)) (\<lambda>o1.
      if o1 < 0 then ka_terminate E 1
      else
        andthen (do_sys E (ProcCall Signal_sigterm))
        (bind (gets daemon_pid) (\<lambda>p.
         lock_our_memory E (realtime c) (schedprio c) p)))))))))))"

definition ka_main :: "env \<Rightarrow> string \<Rightarrow> (char \<times> string) list \<Rightarrow> ('s ka_state_scheme, int) proc" where
  "ka_main E name args =
     andthen (ignored (open_logging E (Some name) (MSG_TO_STDERR OR MSG_TO_SYSLOG)))
     (bind (ka_parse_options E name args (CONFIG_FILENAME, 0)) (\<lambda>(configfile, count_max).
      andthen (read_config E configfile)
     (bind (gets (devname \<circ> cfg)) (\<lambda>dev.
      case dev of
        None \<Rightarrow>
          andthen (log_msg E LOG_INFO '' no watchdog device configured, aborting'' []) (stop 0)
      | Some d \<Rightarrow>
          andthen (ka_start E d)
          (andthen (ka_loop (loop_bound E) E 0 count_max)
          (ka_terminate E 0))))))"

section \<open>Identifying the hardware\<close>

definition id_usage :: "env \<Rightarrow> string \<Rightarrow> ('s conf_state_scheme, 'a) proc" where
  "id_usage E name =
     andthen (run_all (map (\<lambda>l. fprintf_err E l [AStr name])
        [''%s version %d.%d, usage:'', ''%s [options]'', ''options:'',
         ''  -c | --config-file <file>  specify location of config file'',
         ''  -v | --verbose             verbose messages'']))
     (stop 1)"

fun id_parse_options :: "env \<Rightarrow> string \<Rightarrow> (char \<times> string) list \<Rightarrow> string \<Rightarrow> ('s conf_state_scheme, string) proc" where
  "id_parse_options E name [] configfile = ret configfile"
| "id_parse_options E name ((c, optarg) # cs) configfile =
     (if c = CHR ''c'' then id_parse_options E name cs optarg
      else if c = CHR ''v'' then
        andthen (modify (cfg_update (verbose_update (\<lambda>n. int32 (n + 1))))) (id_parse_options E name cs configfile)
      else id_usage E name)"

definition id_identity :: "env \<Rightarrow> int \<Rightarrow> ('s conf_state_scheme, int) proc" where
  "id_identity E fd =
     bind (dsys E (Ioctl fd WDIOC_GETSUPPORT 0)) (\<lambda>r.
     if rv r < 0 then andthen (log_msg E LOG_ERR ''cannot get watchdog identity'' [AInt (err r)]) (ret 1)
     else andthen (printf_out E ''%s'' [AStr (cstr (take (IDENTITY_SIZE - 1) (dat r)))]) (ret 0))"

definition id_timeout :: "env \<Rightarrow> int \<Rightarrow> ('s conf_state_scheme, unit) proc" where
  "id_timeout E fd =
     bind (gets cfg) (\<lambda>c.
     whenp (is_verbose c)
       (bind (dsys E (Ioctl fd WDIOC_GETTIMEOUT 0)) (\<lambda>r.
        if rv r < 0 then log_msg E LOG_ERR ''cannot get timeout'' [AInt (err r)]
        else printf_out E ''watchdog was set to %d seconds'' [AInt (v1 r)])))"

definition id_close :: "env \<Rightarrow> int \<Rightarrow> int \<Rightarrow> ('s conf_state_scheme, int) proc" where
  "id_close E fd code =
     bind (fsys E (Write fd ''V'')) (\<lambda>w.
     andthen (whenp (rv w < 0) (log_msg E LOG_ERR ''write watchdog device gave error'' [AInt (err w)]))
     (bind (fsys E (Close fd)) (\<lambda>r.
      andthen (whenp (rv r = - 1) (log_msg E LOG_ALERT ''cannot close watchdog'' [AInt (err r)]))
      (ret (if rv w < 0 \<or> rv r = - 1 then 1 else code)))))"

definition id_main :: "env \<Rightarrow> string \<Rightarrow> (char \<times> string) list \<Rightarrow> ('s conf_state_scheme, int) proc" where
  "id_main E name args =
     andthen (ignored (open_logging E (Some name) MSG_TO_STDERR))
     (bind (id_parse_options E name args CONFIG_FILENAME) (\<lambda>configfile.
      andthen (read_config E configfile)
     (bind (gets (devname \<circ> cfg)) (\<lambda>dev.
      case dev of
        None \<Rightarrow>
          andthen (printf_out E ''No watchdog hardware configured in %s'' [AStr configfile]) (stop 1)
      | Some d \<Rightarrow>
          bind (fsys E (Open d O_WRONLY)) (\<lambda>fd.
          if rv fd = - 1 then
            andthen (log_msg E LOG_ERR ''cannot open'' [AStr d, AInt (err fd)]) (stop 1)
          else
            bind (id_identity E (rv fd)) (\<lambda>code.
            andthen (id_timeout E (rv fd))
            (bind (id_close E (rv fd) code) (\<lambda>code'.
             andthen (ignored (close_logging E))
             (stop code')))))))))"

end
