(* ===== verification/NoAction.thy ===== *)
theory NoAction
  imports Watchdog
begin

text \<open>
  The option \<^verbatim>\<open>--no-action\<close>: a daemon that was started with it never calls \<open>reboot\<close>, whatever its
  configuration says, its checks find and the kernel replies. The proof goes through every function
  the main program calls.
\<close>

named_theorems safe_intro \<open>rules: without actions, a process never reboots\<close>

section \<open>Processes that never reboot while actions are off\<close>

definition safe_act :: "('s wd_state_scheme, 'a) proc \<Rightarrow> bool" where
  "safe_act m \<longleftrightarrow> (\<forall>s. no_act s \<longrightarrow> no_act (snd (m s)) \<and> calls is_reboot (snd (m s)) = calls is_reboot s)"

lemma safe_actD:
  "safe_act m \<Longrightarrow> no_act s \<Longrightarrow> m s = (r, s') \<Longrightarrow> no_act s' \<and> calls is_reboot s' = calls is_reboot s"
  unfolding safe_act_def by (metis snd_conv)

lemma safe_emits:
  fixes m :: "('s wd_state_scheme, 'a) proc"
  assumes "keeps no_act m" and "emits (\<lambda>c. \<not> is_reboot c) m"
  shows "safe_act m"
  unfolding safe_act_def
proof (intro allI impI)
  fix s :: "'s wd_state_scheme"
  assume n: "no_act s"
  obtain r s' where "m s = (r, s')" by fastforce
  with keepsD [OF assms(1) this] keepsD [OF emits_keeps_calls [OF assms(2)] this] n
  show "no_act (snd (m s)) \<and> calls is_reboot (snd (m s)) = calls is_reboot s" by simp
qed

lemma safe_mild: "keeps no_act m \<Longrightarrow> mild m \<Longrightarrow> safe_act m"
  by (rule safe_emits) (auto intro: emits_mono)

lemma safe_basic [safe_intro]:
  "safe_act (ret x)" "safe_act (gets f)" "safe_act (stop c)" "safe_act (exec_image p args)" "safe_act fault"
  "safe_act unfinished"
  by (simp_all add: safe_act_def)

lemma safe_modify [safe_intro]:
  "(\<And>s. no_act s \<Longrightarrow> no_act (f s)) \<Longrightarrow> (\<And>s. trace (f s) = trace s) \<Longrightarrow> safe_act (modify f)"
  by (simp add: safe_act_def calls_def)

lemma safe_sys [safe_intro]: "\<not> is_reboot c \<Longrightarrow> safe_act (sysc E c)" "\<not> is_reboot c \<Longrightarrow> safe_act (do_sys E c)"
  by (simp_all add: safe_act_def)

lemma safe_bind [safe_intro]:
  fixes m :: "('s wd_state_scheme, 'a) proc"
  assumes "safe_act m" and "\<And>x. safe_act (f x)"
  shows "safe_act (bind m f)"
  unfolding safe_act_def
proof (intro allI impI)
  fix s :: "'s wd_state_scheme"
  assume n: "no_act s"
  obtain r s1 where 1: "m s = (r, s1)" by fastforce
  with assms(1) n have s1: "no_act s1 \<and> calls is_reboot s1 = calls is_reboot s" by (blast dest: safe_actD)
  show "no_act (snd (bind m f s)) \<and> calls is_reboot (snd (bind m f s)) = calls is_reboot s"
  proof (cases r)
    case (Ret x)
    with s1 assms(2) [of x] 1 show ?thesis by (simp add: bind_apply_Ret safe_act_def)
  qed (use s1 1 in \<open>simp_all add: bind_def\<close>)
qed

lemma safe_andthen [safe_intro]: "safe_act m \<Longrightarrow> safe_act n \<Longrightarrow> safe_act (andthen m n)"
  unfolding andthen_def by (rule safe_bind)

lemma safe_if [safe_intro]: "(b \<Longrightarrow> safe_act m) \<Longrightarrow> (\<not> b \<Longrightarrow> safe_act n) \<Longrightarrow> safe_act (if b then m else n)"
  by simp

lemma safe_whenp [safe_intro]: "(b \<Longrightarrow> safe_act m) \<Longrightarrow> safe_act (whenp b m)"
  by (simp add: whenp_def safe_basic)

lemma safe_let [safe_intro]: "safe_act (f x) \<Longrightarrow> safe_act (let y = x in f y)"
  by (simp add: Let_def)

lemma safe_case_option [safe_intro]:
  "safe_act n \<Longrightarrow> (\<And>x. safe_act (f x)) \<Longrightarrow> safe_act (case v of None \<Rightarrow> n | Some x \<Rightarrow> f x)"
  by (cases v) simp_all

lemma safe_case_list [safe_intro]:
  "safe_act n \<Longrightarrow> (\<And>x xs. safe_act (f x xs)) \<Longrightarrow> safe_act (case v of [] \<Rightarrow> n | x # xs \<Rightarrow> f x xs)"
  by (cases v) simp_all

lemma safe_case_prod [safe_intro]: "(\<And>x y. safe_act (f x y)) \<Longrightarrow> safe_act (case p of (x, y) \<Rightarrow> f x y)"
  by (cases p) simp

lemma safe_ignored [safe_intro]: "safe_act m \<Longrightarrow> safe_act (ignored m)"
  unfolding ignored_def by (intro safe_intro)

lemma safe_map [safe_intro]: "(\<And>x. safe_act (f x)) \<Longrightarrow> safe_act (run_all (map f xs))"
  by (induction xs) (simp_all add: safe_basic safe_andthen)

lemma safe_for_each [safe_intro]: "(\<And>x. safe_act (f x)) \<Longrightarrow> safe_act (for_each f xs)"
  by (induction xs) (simp_all add: safe_basic safe_bind)

section \<open>Below the checks\<close>

lemma no_act_frame [simp]: "log_frame no_act"
  by (simp add: log_frame_def)

lemma safe_logging [safe_intro]:
  "safe_act (log_msg E l f a)" "safe_act (fatal_error E x f a)" "safe_act (open_logging E name flags)"
  "safe_act (close_logging E)"
  by (rule safe_mild; intro keeps_intro emits_intro; simp)+

lemma safe_keep_alive [safe_intro]: "safe_act (wd_keep_alive E)"
  by (rule safe_mild)
    (unfold wd_keep_alive_def keep_alive_def write_heartbeat_def put_stamp_def next_value_def write_stamps_def
       fwrite_stamps_def, (intro keeps_intro emits_intro; simp)+)

lemma safe_passive:
  assumes "emits is_passive m" and "keeps no_act m"
  shows "safe_act m"
proof (rule safe_emits [OF assms(2)])
  have "is_passive c \<Longrightarrow> \<not> is_reboot c" for c by (cases c rule: is_reboot.cases) simp_all
  with assms(1) show "emits (\<lambda>c. \<not> is_reboot c) m" by (rule emits_mono)
qed

lemma safe_passive_checks [safe_intro]:
  "safe_act (check_load E)" "safe_act (check_memory E)" "safe_act (check_allocatable E)" "safe_act (check_file_table E)"
  "safe_act (check_file_stat E a)" "safe_act (check_pidfile E e)" "safe_act (check_iface E e)" "safe_act (check_temp E t)"
  by (rule safe_passive,
      rule check_load_contract check_memory_contract check_allocatable_contract check_file_table_contract
        check_file_stat_contract check_pidfile_contract check_iface_contract check_temp_contract,
      rule check_load_contract check_memory_contract check_allocatable_contract check_file_table_contract
        check_file_stat_contract check_pidfile_contract check_iface_contract check_temp_contract, simp)+

lemma safe_check_net [safe_intro]: "safe_act (check_net E target fd to pk time count)"
proof -
  have log: "safe_act (log_ping_time E t i tstart)" for t i tstart
    unfolding log_ping_time_def gettimeofday_def by (intro safe_intro) simp_all
  have reply: "safe_act (await_reply n E t fd to i tstart timeout pk)" for n t i tstart timeout pk
    by (induction n arbitrary: pk)
      (simp_all only: await_reply.simps gettimeofday_def, (intro safe_intro log | assumption | simp)+)
  have "safe_act (ping_rounds n E t fd to tmax i pk)" for n t tmax i pk
    by (induction n arbitrary: i pk)
      (simp_all only: ping_rounds.simps ping_round_def after_send_def gettimeofday_def,
        (intro safe_intro reply | assumption | simp)+)
  then show ?thesis unfolding check_net_def by (intro safe_intro)
qed

lemma safe_check_bin [safe_intro]: "safe_act (check_bin E tb timeout v)"
proof -
  have up: "safe_act (update_process E p r)" for p r
    unfolding update_process_def by (intro safe_intro) simp_all
  have gather: "safe_act (gather_loop n E)" for n
    by (induction n) (simp_all only: gather_loop.simps, (intro safe_intro up | assumption | simp)+)
  have start: "safe_act (start_test E t v code)" for t code
    unfolding start_test_def test_child_def redirect_def add_process_def free_process_def by (intro safe_intro) simp_all
  show ?thesis
    unfolding check_bin_def gather_children_def check_timeouts_def expire_def check_processes_def remove_process_def
    by (intro safe_intro gather start) simp_all
qed

section \<open>Reactions and the main loop\<close>

lemma safe_repair [safe_intro]: "safe_act (repair E rb result name v)"
proof -
  have await: "safe_act (await_child n E child)" for n child
  proof (induction n)
    case 0
    show ?case by (subst await_child.simps, simp only: nat.case) (intro safe_intro; simp)
  next
    case (Suc n)
    then show ?case by (subst await_child.simps, cases n) (simp_all only: nat.case, (intro safe_intro; simp)+)
  qed
  show ?thesis
    unfolding repair_def repair_child_def redirect_def repair_result_def by (intro safe_intro await) simp_all
qed

lemma safe_consider_reboot [safe_intro]: "safe_act (consider_reboot E result)"
  unfolding consider_reboot_def by (simp add: safe_act_def whenp_def dev_run calls_logged)

lemma safe_wd_action [safe_intro]: "safe_act (wd_action E result rb act)"
  unfolding wd_action_def try_repair_def retry_timer_def count_repair_def by (intro safe_intro) simp_all

lemma safe_do_check [safe_intro]: "safe_act (do_check E res rb act)"
  unfolding do_check_def by (intro safe_intro)

lemma safe_all_checks [safe_intro]: "safe_act (all_checks E sync_it)"
  unfolding all_checks_def check_plain_def check_list_def check_entry_def sync_system_def
    run_temp_def run_file_def run_pidfile_def run_ping_def run_bin_def
  by (simp only: run_all.simps, intro safe_intro) simp_all

lemma safe_interval [safe_intro]: "safe_act (interval E sync_it wait count count_max)"
  unfolding interval_def count_tick_def by (intro safe_intro) simp_all

lemma safe_main_loop [safe_intro]: "safe_act (main_loop n E sync_it wait count count_max)"
  by (induction n arbitrary: count)
    (simp_all only: main_loop.simps still_running_def sigterm_handler_def, (intro safe_intro | assumption | simp)+)

section \<open>Starting\<close>

lemma safe_memory [safe_intro]:
  "safe_act (xcalloc E n k)" "safe_act (xstrdup E t)" "safe_act (log_verbose E f args)" "safe_act (log_tick E f args)"
  unfolding xcalloc_def xstrdup_def log_verbose_def log_tick_def by (intro safe_intro; simp)+

lemma safe_options [safe_intro]:
  "safe_act (READ_INT E arg val nm st)" "safe_act (READ_STRING E arg val nm st')" "safe_act (READ_ENUM E tab arg val nm st)"
  "safe_act (READ_LIST E arg val nm getl putl)" "safe_act (READ_CHANGE E n arg val)" "safe_act (READ_LOGTICK E arg val)"
  unfolding READ_INT_def READ_STRING_def READ_ENUM_def READ_LIST_def READ_CHANGE_def READ_LOGTICK_def read_int_func_def
    read_string_func_def read_enumerated_func_def read_list_func_def add_list_def enforce_limits_def
  by (intro safe_intro; simp)+

lemma safe_first_match: "list_all safe_act ms \<Longrightarrow> safe_act d \<Longrightarrow> safe_act (first_match ms d)"
  by (induction ms) (simp_all only: first_match.simps list.pred_inject, (intro safe_intro | simp)+)

lemma safe_read_config [safe_intro]: "safe_act (read_config E file)"
proof -
  have chain: "list_all safe_act (config_chain E n arg val)" for n arg val
    unfolding config_chain_def by (simp only: list.pred_inject) (intro conjI safe_intro TrueI)
  have line: "safe_act (config_line E n l)" for n l
    unfolding config_line_def by (cases "split_line l") (simp_all add: safe_intro safe_first_match chain)
  have ls: "safe_act (config_lines E n ls)" for n ls
    by (induction ls arbitrary: n) (auto intro: safe_intro line)
  have bins: "safe_act (add_test_binaries E p)" for p
    unfolding add_test_binaries_def test_binary_entry_def append_test_binary_def add_list_def by (intro safe_intro) simp_all
  show ?thesis unfolding read_config_def by (intro safe_intro ls bins) simp_all
qed

lemma safe_open_netcheck [safe_intro]: "safe_act (open_netcheck E ts)"
  unfolding open_netcheck_def open_target_def set_option_def by (intro safe_intro) simp_all

lemma safe_configure [safe_intro]: "safe_act (configure E opt)"
  unfolding configure_def check_parameters_def by (intro safe_intro) simp_all

lemma safe_daemonize [safe_intro]: "safe_act (daemonize E opt)"
  unfolding daemonize_def wd_daemon_def double_fork_def new_session_def reopen_console_def write_pid_file_def
    check_pid_file_def create_pid_file_def remove_pid_file_def
  by (intro safe_intro) simp_all

lemma safe_print_info [safe_intro]: "safe_act (print_info E sync_it force)"
  unfolding print_info_def info_list_def info_def by (simp only: run_all.simps) (intro safe_intro)

lemma safe_open_watchdog [safe_intro]: "safe_act (open_watchdog E nm timeout)"
proof -
  have "safe_act (try_times E t ts)" for t ts
    by (induction ts) (simp_all only: try_times.simps, (intro safe_intro | assumption | simp)+)
  then show ?thesis
    unfolding open_watchdog_def close_watchdog_def set_watchdog_timeout_def try_other_times_def identify_def
      select_refresh_def
    by (intro safe_intro) simp_all
qed

lemma safe_open_heartbeat [safe_intro]: "safe_act (open_heartbeat E)"
proof -
  have "safe_act (load_stamps rline ls)" for rline ls
    by (induction ls arbitrary: rline)
      (simp_all only: load_stamps.simps put_stamp_def next_value_def, (intro safe_intro | assumption | simp)+)
  then show ?thesis
    unfolding open_heartbeat_def close_heartbeat_def open_hb_stream_def load_heartbeat_def put_stamp_def next_value_def
    by (intro safe_intro) simp_all
qed

lemma safe_open_devices [safe_intro]: "safe_act (open_devices E)"
  unfolding open_devices_def open_tempcheck_def close_tempcheck_def init_sensor_def read_temp_sensor_def open_loadcheck_def
    close_loadcheck_def open_memcheck_def close_memcheck_def
  by (intro safe_intro) simp_all

lemma safe_startup [safe_intro]: "safe_act (startup E opt)"
  unfolding startup_def lock_our_memory_def unlock_our_memory_def adjust_oom_def by (intro safe_intro) simp_all

lemma safe_terminate [safe_intro]: "safe_act (terminate E code)"
  unfolding terminate_def remove_pid_file_def unlock_our_memory_def close_all_def close_watchdog_def close_heartbeat_def
    close_tempcheck_def close_loadcheck_def close_memcheck_def free_process_def
  by (simp only: run_all.simps, intro safe_intro) simp_all

section \<open>The options\<close>

text \<open>The options are read before \<open>no_act\<close> is known, so they must not reboot in any case.\<close>

lemma mild_fprintf_err [emits_intro]: "mild (fprintf_err E f args)"
  unfolding fprintf_err_def by (intro emits_intro) simp

lemma mild_usage [emits_intro]: "mild (usage E name)"
  unfolding usage_def by (intro emits_intro) (simp add: list.pred_map list.pred_True mild_fprintf_err comp_def)

lemma mild_parse_options: "mild (parse_options E name args opt)"
  by (induction args arbitrary: opt)
    (simp_all only: parse_options.simps split_paired_all old_option_def, (intro emits_intro | assumption | simp)+)

lemma parse_options_no_act:
  "parse_options E name args opt s = (Ret x, s') \<Longrightarrow> no_act s \<or> (CHR ''q'', v) \<in> set args \<Longrightarrow> no_act s'"
proof (induction args arbitrary: opt s)
  case (Cons a args)
  obtain c optarg where a: "a = (c, optarg)" by fastforce
  have log: "no_act s1 = no_act s" if "log_msg E l f as s = (r, s1)" for l f as r s1
    using keepsD [of no_act "log_msg E l f as"] that by (simp add: keeps_intro)
  have usage: "\<not> (usage E name s1 = (Ret x, s'))" "\<not> (andthen (old_option E c g) (usage E name) s1 = (Ret x, s'))" for s1 g
    by (auto simp: usage_def andthen_def elim!: bind_RetE)
  show ?case using Cons.prems Cons.IH a usage
    by (auto simp: andthen_def split: if_splits elim!: bind_RetE dest: log)
qed simp

section \<open>The program\<close>

text \<open>C7. A daemon that is started with \<^verbatim>\<open>--no-action\<close> (the option \<^verbatim>\<open>q\<close> anywhere among its options) makes no
  \<open>reboot\<close> call from its start to its end, in whichever process its forks continue, whatever the
  configuration file says and whatever the kernel replies.\<close>

theorem no_action_never_reboots:
  assumes "(CHR ''q'', v) \<in> set args"
  shows "calls is_reboot (snd (main E name args s)) = calls is_reboot s"
proof -
  define rest where "rest opt =
      andthen (startup E opt)
      (bind (gets (tint \<circ> cfg)) (\<lambda>t.
       andthen (main_loop (loop_bound E) E (o_sync_it opt) (twait t) 0 (o_count_max opt))
       (terminate E 0 :: ('a wd_state_scheme, int) proc)))" for opt
  have rest: "safe_act (rest opt)" for opt unfolding rest_def by (intro safe_intro)
  obtain r1 s1 where 1: "open_logging E (Some name) (MSG_TO_STDERR OR MSG_TO_SYSLOG) s = (r1, s1)" by fastforce
  have "mild (open_logging E (Some name) (MSG_TO_STDERR OR MSG_TO_SYSLOG) :: ('a wd_state_scheme, int) proc)"
    by (intro emits_intro) simp
  then have "calls is_reboot s1 = calls is_reboot s" using 1 by (rule mild_calls)
  moreover obtain r2 s2 where 2: "parse_options E name args default_options s1 = (r2, s2)" by fastforce
  moreover from mild_parse_options 2 have "calls is_reboot s2 = calls is_reboot s1" by (rule mild_calls)
  moreover have "calls is_reboot (snd (rest opt s2)) = calls is_reboot s2" if "r2 = Ret opt" for opt
    using rest [of opt] parse_options_no_act [OF 2 [unfolded that], of v] assms by (simp add: safe_act_def)
  ultimately show ?thesis
    unfolding main_def rest_def [symmetric] using 1
    by (cases r1; cases r2) (auto simp: andthen_def ignored_def bind_def)
qed

end
