(* ===== verification/Interval.thy ===== *)
theory Interval
  imports Watchdog
begin

text \<open>
  The healthy daemon: while every check passes, the main loop goes round, and the device is refreshed
  before the first check, after every check and never without need of one. The proof is a composition
  of the contracts of the checks (locale \<open>health_check\<close>) and of the heartbeat (locale
  \<open>heartbeat_writer\<close>).
\<close>

section \<open>What an interval leaves alone\<close>

text \<open>An entry without its retry counters and temperature flags, and a configuration without the
  counters of its entries and the countdown of the verbose messages.\<close>

definition core :: "entry \<Rightarrow> entry" where
  "core a = a\<lparr>last_time := 0, repair_count := 0, have1 := False, have2 := False, have3 := False\<rparr>"

definition shape :: "config \<Rightarrow> config" where
  "shape c = c\<lparr>ticker := 0, temp_list := map core (temp_list c), file_list := map core (file_list c),
     pidfile_list := map core (pidfile_list c)\<rparr>"

definition sensors :: "'s wd_state_scheme \<Rightarrow> int \<times> int \<times> int \<times> int \<times> int \<times> int" where
  "sensors s = (load_fd s, mem_fd s, temp_fd s, templevel1 s, templevel2 s, templevel3 s)"

definition steady :: "env \<Rightarrow> 's wd_state_scheme \<Rightarrow> 's wd_state_scheme \<Rightarrow> bool" where
  "steady E s0 s \<longleftrightarrow> hb_ok E s \<and> dev_part s = dev_part s0 \<and> sensors s = sensors s0 \<and>
     shape (cfg s) = shape (cfg s0) \<and> process_head s = [] \<and> running s"

lemma steady_frame: "log_frame (steady E s0)"
  unfolding steady_def [abs_def] by (intro log_frame_conj hb_ok_frame) (simp_all add: log_frame_def sensors_def)

lemma steady_trace: "steady E s0 (s\<lparr>trace := t\<rparr>) = steady E s0 s"
  using steady_frame by (rule log_frame_trace)

lemma hb_ok_cfg: "hbstamps (f (cfg s)) = hbstamps (cfg s) \<Longrightarrow> hb_ok E (cfg_update f s) = hb_ok E s"
  by (simp add: hb_ok_def hb_inv_def ring_of_def)

lemma steady_cfg:
  "shape (f (cfg s)) = shape (cfg s) \<Longrightarrow> hbstamps (f (cfg s)) = hbstamps (cfg s) \<Longrightarrow>
     steady E s0 (cfg_update f s) = steady E s0 s"
  by (simp add: steady_def sensors_def hb_ok_cfg)

lemma shape_ticker [simp]: "shape (ticker_update f c) = shape c"
  by (simp add: shape_def)

section \<open>A healthy system\<close>

text \<open>The driver takes every refresh, no child process is waiting, and every check of the
  configuration passes.\<close>

definition driver_ok :: "env \<Rightarrow> int \<times> int \<times> bool \<Rightarrow> bool" where
  "driver_ok E d \<longleftrightarrow> (\<forall>tr. \<forall>c \<in> set (refresh_calls d). 0 \<le> rv (kern E tr c))"

definition no_children :: "env \<Rightarrow> bool" where
  "no_children E \<longleftrightarrow> 0 < loop_bound E \<and> (\<forall>tr. rv (kern E tr (ProcCall (Waitpid (- 1) True))) \<le> 0)"

definition plain_pass :: "env \<Rightarrow> ('s wd_state_scheme \<Rightarrow> bool) \<Rightarrow> bool" where
  "plain_pass E I \<longleftrightarrow> (\<forall>s. I s \<longrightarrow>
     fst (check_file_table E s) = Ret ENOERR \<and> fst (check_load E s) = Ret ENOERR \<and>
     fst (check_memory E s) = Ret ENOERR \<and> fst (check_allocatable E s) = Ret ENOERR)"

definition entries_pass :: "env \<Rightarrow> ('s wd_state_scheme \<Rightarrow> bool) \<Rightarrow> bool" where
  "entries_pass E I \<longleftrightarrow> (\<forall>s a. I s \<longrightarrow>
     (core a \<in> core ` set (temp_list (cfg s)) \<longrightarrow> (\<exists>a'. fst (check_temp E (Some a) s) = Ret (ENOERR, a'))) \<and>
     (core a \<in> core ` set (file_list (cfg s)) \<longrightarrow> fst (check_file_stat E (Some a) s) = Ret ENOERR) \<and>
     (core a \<in> core ` set (pidfile_list (cfg s)) \<longrightarrow> fst (check_pidfile E a s) = Ret ENOERR))"

definition healthy :: "env \<Rightarrow> 's wd_state_scheme \<Rightarrow> bool" where
  "healthy E s \<longleftrightarrow> driver_ok E (dev_part s) \<and> no_children E \<and>
     iface_list (cfg s) = [] \<and> target_list (cfg s) = [] \<and> tr_bin_list (cfg s) = [] \<and>
     plain_pass E (steady E s) \<and> entries_pass E (steady E s)"

context health_check
begin

lemma frame_performs:
  assumes "log_frame I" and "\<And>s. I s \<Longrightarrow> \<exists>x. fst (check E s) = Ret x \<and> R x"
  shows "performs I is_pace_call (\<lambda>x cs. R x \<and> cs = []) (check E)"
proof (rule performsI)
  fix s
  assume s: "I s"
  with assms(2) obtain x s' where 1: "check E s = (Ret x, s')" "R x" by (metis prod.collapse)
  have "emits (\<lambda>c. \<not> is_pace_call c) (check E)"
    using check_passive by (rule emits_mono) (rule dev_call_not_passive)
  then obtain es where "trace s' = trace s @ es" "\<forall>e \<in> set es. \<not> is_pace_call (fst e)"
    using 1(1) by (rule emitsE)
  moreover have "I s'" using keepsD [OF check_frame [OF assms(1)] 1(1)] s by simp
  ultimately show "\<exists>x s' es. check E s = (Ret x, s') \<and> I s' \<and> trace s' = trace s @ es \<and>
      R x \<and> filter is_pace_call (map fst es) = []"
    using 1 by (auto simp: filter_empty_conv)
qed

end

section \<open>Refreshing\<close>

lemma keep_alive_yields:
  assumes "driver_ok E (dev_part s)" and "wd_keep_alive E s = (Ret x, s')"
  shows "x = ENOERR"
proof -
  have taken: "\<not> rv (kern E tr c) < 0" if "c \<in> set (refresh_calls (dev_part s))" for tr c
    using assms(1) that unfolding driver_ok_def not_less by blast
  show ?thesis
    using assms(2) taken
    by (auto simp: wd_keep_alive_def keep_alive_def refresh_calls_def elim!: bind_RetE split: if_splits)
qed

lemma keep_alive_keeps:
  "keeps (\<lambda>s. (sensors s, process_head s, running s)) (wd_keep_alive E)"
  unfolding wd_keep_alive_def keep_alive_def write_heartbeat_def put_stamp_def next_value_def write_stamps_def
    fwrite_stamps_def
  by (intro keeps_intro; simp add: log_frame_def sensors_def)

lemma steady_keep_alive:
  assumes "driver_ok E (dev_part s0)"
  shows "performs (steady E s0) is_pace_call (\<lambda>x cs. x = ENOERR \<and> cs = refresh_calls (dev_part s0)) (wd_keep_alive E)"
proof (rule performsI)
  fix s
  assume s: "steady E s0 s"
  then have "wd.stable E (dev_part s0) (cfg s) s" by (simp add: steady_def)
  with wd.keep_alive_run obtain x s' where 1: "wd_keep_alive E s = (Ret x, s')"
    "hb_ok E s'" "dev_part s' = dev_part s0" "cfg s' = cfg s"
    "calls is_pace_call s' = calls is_pace_call s @ refresh_calls (dev_part s0)"
    unfolding wd_keep_alive_def by blast
  from emitsE [OF mild_keep_alive(1) 1(1)] obtain es where es: "trace s' = trace s @ es" by blast
  with 1(5) have "filter is_pace_call (map fst es) = refresh_calls (dev_part s0)" by (simp add: calls_def)
  moreover have "x = ENOERR" using keep_alive_yields [OF _ 1(1)] assms s by (simp add: steady_def)
  moreover have "steady E s0 s'" using keepsD [OF keep_alive_keeps 1(1)] s 1 by (simp add: steady_def)
  ultimately show "\<exists>x s' es. wd_keep_alive E s = (Ret x, s') \<and> steady E s0 s' \<and> trace s' = trace s @ es \<and>
      x = ENOERR \<and> filter is_pace_call (map fst es) = refresh_calls (dev_part s0)"
    using 1(1) es by blast
qed

text \<open>A check that passes is followed by one refresh, and by no reaction.\<close>

abbreviation reset :: "entry \<Rightarrow> entry" where
  "reset a \<equiv> a\<lparr>last_time := 0, repair_count := 0\<rparr>"

lemma wd_action_pass: "wd_action E ENOERR rb act = ret (map_option reset act)"
  unfolding wd_action_def by (simp only: simp_thms if_True)

lemma steady_do_check:
  assumes "driver_ok E (dev_part s0)"
  shows "performs (steady E s0) is_pace_call
     (\<lambda>x cs. x = map_option reset act \<and> cs = refresh_calls (dev_part s0)) (do_check E ENOERR rb act)"
  unfolding do_check_def wd_action_pass bind_ret
proof (rule performs_bind [OF steady_keep_alive [OF assms]])
  fix x cs
  assume "x = ENOERR \<and> cs = refresh_calls (dev_part s0)"
  then show "performs (steady E s0) is_pace_call
     (\<lambda>y ds. y = map_option reset act \<and> cs @ ds = refresh_calls (dev_part s0))
     (bind (wd_action E x rb None) (\<lambda>_. ret (map_option reset act)))"
    by (simp only: wd_action_pass bind_ret) (rule performs_ret, simp)
qed

abbreviation refreshes :: "env \<Rightarrow> 's wd_state_scheme \<Rightarrow> nat \<Rightarrow> ('s wd_state_scheme, 'a) proc \<Rightarrow> bool" where
  "refreshes E s0 n \<equiv>
     performs (steady E s0) is_pace_call (\<lambda>x cs. cs = concat (replicate n (refresh_calls (dev_part s0))))"

lemma refreshes_andthen:
  assumes "refreshes E s0 m p" and "refreshes E s0 n q"
  shows "refreshes E s0 (m + n) (andthen p q)"
  by (rule performs_andthen [OF assms(1)], rule performs_mono [OF assms(2)]) (simp add: replicate_add)

lemma refreshes_quiet: "runs (steady E s0) (\<lambda>c. \<not> is_pace_call c) m \<Longrightarrow> refreshes E s0 0 m"
  by (drule performs_runs, erule performs_mono) simp

lemma refreshes_eq: "refreshes E s0 m p \<Longrightarrow> m = n \<Longrightarrow> refreshes E s0 n p"
  by simp

lemma performs_known_bind:
  assumes "performs I P (\<lambda>x cs. x = a \<and> cs = []) m" and "performs I P S (f a)"
  shows "performs I P S (bind m f)"
  by (rule performs_bind [OF assms(1)]) (simp add: assms(2))

lemma steady_check_plain:
  assumes "driver_ok E (dev_part s0)"
    and "performs (steady E s0) is_pace_call (\<lambda>x cs. x = ENOERR \<and> cs = []) check"
  shows "refreshes E s0 1 (check_plain E check)"
  unfolding check_plain_def ignored_def
proof (rule performs_known_bind [OF assms(2)], rule performs_quiet_bind [OF runs_gets], rule performs_bind_quiet [OF _ runs_ret])
  fix rb
  show "refreshes E s0 1 (do_check E ENOERR rb None)"
    using steady_do_check [OF assms(1)] by (rule performs_mono) simp
qed

lemma core_reset: "core (reset a) = core a"
  by (simp add: core_def)

text \<open>An entry whose check passes: the state does not change while its list is gone through.\<close>

lemma steady_check_entry:
  assumes "driver_ok E (dev_part s0)"
    and "performs (steady E s0) is_pace_call (\<lambda>(r, a') cs. r = ENOERR \<and> core a' = core a \<and> cs = []) (check a)"
  shows "performs (steady E s0) is_pace_call (\<lambda>a' cs. core a' = core a \<and> cs = refresh_calls (dev_part s0))
     (check_entry E check a)"
  unfolding check_entry_def
proof (rule performs_bind [OF assms(2)], clarsimp, rule performs_quiet_bind [OF runs_gets],
    rule performs_bind [OF steady_do_check [OF assms(1)]], clarsimp)
  fix a'
  assume "core a' = core a"
  then show "performs (steady E s0) is_pace_call (\<lambda>y ds. core y = core a \<and> ds = []) (ret (reset a'))"
    by (intro performs_ret) (simp add: core_reset)
qed

lemma steady_for_each:
  assumes "driver_ok E (dev_part s0)"
    and "\<And>a. core a \<in> core ` set as \<Longrightarrow>
      performs (steady E s0) is_pace_call (\<lambda>(r, a') cs. r = ENOERR \<and> core a' = core a \<and> cs = []) (check a)"
  shows "performs (steady E s0) is_pace_call
     (\<lambda>as' cs. map core as' = map core as \<and> cs = concat (replicate (length as) (refresh_calls (dev_part s0))))
     (for_each (check_entry E check) as)"
  using assms(2)
proof (induction as)
  case Nil
  show ?case unfolding for_each.simps by (rule performs_ret) simp
next
  case (Cons a as)
  have a: "performs (steady E s0) is_pace_call (\<lambda>a' cs. core a' = core a \<and> cs = refresh_calls (dev_part s0))
     (check_entry E check a)"
    by (rule steady_check_entry [OF assms(1)]) (rule Cons.prems, simp)
  have as: "performs (steady E s0) is_pace_call
     (\<lambda>as' cs. map core as' = map core as \<and> cs = concat (replicate (length as) (refresh_calls (dev_part s0))))
     (for_each (check_entry E check) as)"
    by (rule Cons.IH) (rule Cons.prems, simp)
  show ?case
    unfolding for_each.simps
    by (rule performs_bind [OF a], rule performs_bind [OF as], rule performs_ret) simp
qed

text \<open>One of the lists of the configuration, whose entries all pass.\<close>

lemma steady_check_list:
  assumes "driver_ok E (dev_part s0)"
    and "\<And>a. core a \<in> core ` set (get (cfg s0)) \<Longrightarrow>
      performs (steady E s0) is_pace_call (\<lambda>(r, a') cs. r = ENOERR \<and> core a' = core a \<and> cs = []) (check a)"
    and "\<And>c. shape c = shape (cfg s0) \<Longrightarrow> map core (get c) = map core (get (cfg s0))"
    and "\<And>c as. map core as = map core (get c) \<Longrightarrow> shape (put as c) = shape c \<and> hbstamps (put as c) = hbstamps c"
  shows "refreshes E s0 (length (get (cfg s0))) (check_list E get put check)"
proof (rule performsI)
  fix s
  assume s: "steady E s0 s"
  let ?as = "get (cfg s)"
  from s have cores: "map core ?as = map core (get (cfg s0))" unfolding steady_def by (intro assms(3)) blast
  then have "set (map core ?as) = set (map core (get (cfg s0)))" by (rule arg_cong)
  then have img: "core ` set ?as = core ` set (get (cfg s0))" by simp
  from cores have len: "length ?as = length (get (cfg s0))" by (rule map_eq_imp_length_eq)
  have "performs (steady E s0) is_pace_call
     (\<lambda>as' cs. map core as' = map core ?as \<and> cs = concat (replicate (length ?as) (refresh_calls (dev_part s0))))
     (for_each (check_entry E check) ?as)"
    by (rule steady_for_each [OF assms(1)]) (rule assms(2), simp only: img)
  from this s obtain as' s' es where
    1: "for_each (check_entry E check) ?as s = (Ret as', s')" "steady E s0 s'" "trace s' = trace s @ es"
      "map core as' = map core ?as"
      "filter is_pace_call (map fst es) = concat (replicate (length ?as) (refresh_calls (dev_part s0)))"
    by (rule performsE) blast
  have "map core (get (cfg s')) = map core (get (cfg s0))" using 1(2) unfolding steady_def by (intro assms(3)) blast
  with 1(4) cores have "map core as' = map core (get (cfg s'))" by (simp only:)
  from assms(4) [OF this] have "steady E s0 (cfg_update (put as') s') = steady E s0 s'"
    by (intro steady_cfg) auto
  with 1(2) have "steady E s0 (cfg_update (put as') s')" by simp
  moreover have "check_list E get put check s = (Ret (), cfg_update (put as') s')"
    using 1(1) by (simp add: check_list_def bind_apply_Ret)
  moreover have "trace (cfg_update (put as') s') = trace s @ es" using 1(3) by simp
  ultimately show "\<exists>x s'' es. check_list E get put check s = (Ret x, s'') \<and> steady E s0 s'' \<and> trace s'' = trace s @ es \<and>
      filter is_pace_call (map fst es) = concat (replicate (length (get (cfg s0))) (refresh_calls (dev_part s0)))"
    using 1(5) unfolding len by blast
qed

section \<open>The checks of a healthy system\<close>

lemma passing_plain:
  assumes "healthy E s0"
  shows "performs (steady E s0) is_pace_call (\<lambda>x cs. x = ENOERR \<and> cs = []) (check_file_table E)"
    "performs (steady E s0) is_pace_call (\<lambda>x cs. x = ENOERR \<and> cs = []) (check_load E)"
    "performs (steady E s0) is_pace_call (\<lambda>x cs. x = ENOERR \<and> cs = []) (check_memory E)"
    "performs (steady E s0) is_pace_call (\<lambda>x cs. x = ENOERR \<and> cs = []) (check_allocatable E)"
proof -
  note steady_frame [of E s0, simp]
  have p: "fst (check_file_table E s) = Ret ENOERR" "fst (check_load E s) = Ret ENOERR"
    "fst (check_memory E s) = Ret ENOERR" "fst (check_allocatable E s) = Ret ENOERR" if "steady E s0 s" for s
    using assms that unfolding healthy_def plain_pass_def by blast+
  show "performs (steady E s0) is_pace_call (\<lambda>x cs. x = ENOERR \<and> cs = []) (check_file_table E)"
    by (rule file_table_check.frame_performs) (simp_all add: p)
  show "performs (steady E s0) is_pace_call (\<lambda>x cs. x = ENOERR \<and> cs = []) (check_load E)"
    by (rule load_check.frame_performs) (simp_all add: p)
  show "performs (steady E s0) is_pace_call (\<lambda>x cs. x = ENOERR \<and> cs = []) (check_memory E)"
    by (rule memory_check.frame_performs) (simp_all add: p)
  show "performs (steady E s0) is_pace_call (\<lambda>x cs. x = ENOERR \<and> cs = []) (check_allocatable E)"
    by (rule allocatable_check.frame_performs) (simp_all add: p)
qed

lemma steady_cores:
  assumes "steady E s0 s"
  shows "core ` set (temp_list (cfg s)) = core ` set (temp_list (cfg s0))"
    "core ` set (file_list (cfg s)) = core ` set (file_list (cfg s0))"
    "core ` set (pidfile_list (cfg s)) = core ` set (pidfile_list (cfg s0))"
proof -
  have sh: "shape (cfg s) = shape (cfg s0)" using assms by (simp add: steady_def)
  from arg_cong [OF sh, of temp_list] arg_cong [OF sh, of file_list] arg_cong [OF sh, of pidfile_list]
  have "map core (temp_list (cfg s)) = map core (temp_list (cfg s0))"
    "map core (file_list (cfg s)) = map core (file_list (cfg s0))"
    "map core (pidfile_list (cfg s)) = map core (pidfile_list (cfg s0))"
    by (simp_all add: shape_def)
  then show "core ` set (temp_list (cfg s)) = core ` set (temp_list (cfg s0))"
    "core ` set (file_list (cfg s)) = core ` set (file_list (cfg s0))"
    "core ` set (pidfile_list (cfg s)) = core ` set (pidfile_list (cfg s0))"
    by (metis list.set_map)+
qed

lemma check_temp_core: "yields (\<lambda>(r, a'). \<exists>b. a' = Some b \<and> core b = core a) (check_temp E (Some a))"
proof -
  have "yields (\<lambda>b. core b = core a) (temp_warnings E a v)" for v
    unfolding temp_warnings_def by (intro yields_intro) (simp_all add: core_def)
  then show ?thesis
    unfolding check_temp_def option.case by (intro yields_intro yields_bind_strong) (auto intro: yields_intro)
qed

text \<open>The checks of the entries, as the main loop runs them.\<close>

abbreviation entry_passes :: "env \<Rightarrow> 's wd_state_scheme \<Rightarrow> entry \<Rightarrow> ('s wd_state_scheme, int \<times> entry) proc \<Rightarrow> bool" where
  "entry_passes E s0 a \<equiv>
     performs (steady E s0) is_pace_call (\<lambda>(r, a') cs. r = ENOERR \<and> core a' = core a \<and> cs = [])"

lemma healthy_entries:
  assumes "healthy E s0" and "steady E s0 s"
  shows "core a \<in> core ` set (temp_list (cfg s0)) \<Longrightarrow> \<exists>a'. fst (check_temp E (Some a) s) = Ret (ENOERR, a')"
    "core a \<in> core ` set (file_list (cfg s0)) \<Longrightarrow> fst (check_file_stat E (Some a) s) = Ret ENOERR"
    "core a \<in> core ` set (pidfile_list (cfg s0)) \<Longrightarrow> fst (check_pidfile E a s) = Ret ENOERR"
  using assms unfolding healthy_def entries_pass_def steady_cores [OF assms(2), symmetric] by blast+

lemma passing_temp:
  assumes "healthy E s0" and "core a \<in> core ` set (temp_list (cfg s0))"
  shows "entry_passes E s0 a (run_temp E a)"
proof -
  have "performs (steady E s0) is_pace_call
     (\<lambda>x cs. (fst x = ENOERR \<and> (\<exists>b. snd x = Some b \<and> core b = core a)) \<and> cs = []) (check_temp E (Some a))"
  proof (rule temp_check.frame_performs [OF steady_frame])
    fix s
    assume "steady E s0 s"
    then obtain a' where "fst (check_temp E (Some a) s) = Ret (ENOERR, a')" using healthy_entries(1) assms by blast
    with yieldsD [OF check_temp_core, of E a s "(ENOERR, a')"]
    show "\<exists>x. fst (check_temp E (Some a) s) = Ret x \<and> (fst x = ENOERR \<and> (\<exists>b. snd x = Some b \<and> core b = core a))"
      by (cases "check_temp E (Some a) s") auto
  qed
  then show ?thesis
    unfolding run_temp_def by (rule performs_bind) (clarsimp, rule performs_ret, simp)
qed

lemma passing_ret:
  assumes "performs (steady E s0) is_pace_call (\<lambda>x cs. x = ENOERR \<and> cs = []) m"
  shows "entry_passes E s0 a (bind m (\<lambda>r. ret (r, a)))"
  by (rule performs_known_bind [OF assms]) (rule performs_ret, simp)

lemma passing_file:
  assumes "healthy E s0" and "core a \<in> core ` set (file_list (cfg s0))"
  shows "entry_passes E s0 a (run_file E a)"
  unfolding run_file_def
  by (rule passing_ret, rule file_stat_check.frame_performs [OF steady_frame]) (use healthy_entries(2) assms in blast)

lemma passing_pidfile:
  assumes "healthy E s0" and "core a \<in> core ` set (pidfile_list (cfg s0))"
  shows "entry_passes E s0 a (run_pidfile E a)"
  unfolding run_pidfile_def
  by (rule passing_ret, rule pidfile_check.frame_performs [OF steady_frame]) (use healthy_entries(3) assms in blast)

lemma shape_lists:
  assumes "shape c = shape c'"
  shows "map core (temp_list c) = map core (temp_list c')" "map core (file_list c) = map core (file_list c')"
    "map core (pidfile_list c) = map core (pidfile_list c')" "iface_list c = iface_list c'"
    "target_list c = target_list c'" "tr_bin_list c = tr_bin_list c'"
  using arg_cong [OF assms, of temp_list] arg_cong [OF assms, of file_list] arg_cong [OF assms, of pidfile_list]
    arg_cong [OF assms, of iface_list] arg_cong [OF assms, of target_list] arg_cong [OF assms, of tr_bin_list]
  by (simp_all add: shape_def)

definition entry_count :: "config \<Rightarrow> nat" where
  "entry_count c = length (temp_list c) + length (file_list c) + length (pidfile_list c)"

lemma record_cfg: "f (cfg s) = cfg s \<Longrightarrow> cfg_update f s = s"
  by (cases s) simp

lemma empty_check_list:
  assumes "\<And>s. steady E s0 s \<Longrightarrow> get (cfg s) = [] \<and> put [] (cfg s) = cfg s"
  shows "refreshes E s0 0 (check_list E get put check)"
proof (rule refreshes_quiet, rule runsI)
  fix s
  assume s: "steady E s0 s"
  with assms have "get (cfg s) = []" "cfg_update (put []) s = s" by (auto intro: record_cfg)
  then have "check_list E get put check s = (Ret (), s)" by (simp add: check_list_def)
  with s show "\<exists>x s' es. check_list E get put check s = (Ret x, s') \<and> steady E s0 s' \<and> trace s' = trace s @ es \<and>
      (\<forall>e \<in> set es. \<not> is_pace_call (fst e))" by auto
qed

lemma steady_all_checks:
  assumes "healthy E s0"
  shows "refreshes E s0 (5 + entry_count (cfg s0)) (all_checks E sync_it)"
proof -
  have d: "driver_ok E (dev_part s0)" using assms by (simp add: healthy_def)
  have sync: "performs (steady E s0) is_pace_call (\<lambda>x cs. x = ENOERR \<and> cs = []) (sync_system E sync_it)"
    unfolding sync_system_def
    by (intro performs_quiet_andthen runs_whenp runs_andthen runs_do_sys performs_ret) (simp_all add: steady_trace ENOERR_def)
  have t: "refreshes E s0 (length (temp_list (cfg s0))) (check_list E temp_list (\<lambda>l. temp_list_update (\<lambda>_. l)) (run_temp E))"
    by (rule steady_check_list [OF d passing_temp [OF assms]], assumption, erule shape_lists) (simp add: shape_def)
  have f: "refreshes E s0 (length (file_list (cfg s0))) (check_list E file_list (\<lambda>l. file_list_update (\<lambda>_. l)) (run_file E))"
    by (rule steady_check_list [OF d passing_file [OF assms]], assumption, erule shape_lists) (simp add: shape_def)
  have pf: "refreshes E s0 (length (pidfile_list (cfg s0)))
      (check_list E pidfile_list (\<lambda>l. pidfile_list_update (\<lambda>_. l)) (run_pidfile E))"
    by (rule steady_check_list [OF d passing_pidfile [OF assms]], assumption, erule shape_lists) (simp add: shape_def)
  have none: "iface_list (cfg s) = []" "target_list (cfg s) = []" "tr_bin_list (cfg s) = []" if "steady E s0 s" for s
    using shape_lists(4-6) [of "cfg s" "cfg s0"] that assms by (simp_all add: steady_def healthy_def)
  have i: "refreshes E s0 0 (check_list E iface_list (\<lambda>l. iface_list_update (\<lambda>_. l)) (check_iface E))"
    and n: "refreshes E s0 0 (check_list E target_list (\<lambda>l. target_list_update (\<lambda>_. l)) (run_ping E))"
    and b: "refreshes E s0 0 (check_list E tr_bin_list (\<lambda>l. tr_bin_list_update (\<lambda>_. l)) (run_bin E))"
    by (rule empty_check_list, simp add: none)+
  have e: "refreshes E s0 0 (ret ())" by (rule performs_ret) simp
  note plain = steady_check_plain [OF d]
  have "refreshes E s0 (1 + (1 + (1 + (1 + (1 + (length (temp_list (cfg s0)) + (length (file_list (cfg s0)) +
      (length (pidfile_list (cfg s0)) + (0 + (0 + (0 + 0))))))))))) (all_checks E sync_it)"
    unfolding all_checks_def run_all.simps
    by (intro refreshes_andthen plain sync passing_plain [OF assms] t f pf i n b e)
  then show ?thesis by (rule refreshes_eq) (simp add: entry_count_def)
qed

section \<open>An interval\<close>

lemma steady_gather:
  assumes "no_children E"
  shows "runs (steady E s0) (\<lambda>c. \<not> is_pace_call c) (gather_children E)"
proof -
  from assms obtain n where "loop_bound E = Suc n" unfolding no_children_def by (cases "loop_bound E") auto
  moreover have "runs (steady E s0) (\<lambda>c. \<not> is_pace_call c) (gather_loop (Suc n) E)"
    unfolding gather_loop.simps
    by (rule runs_bind_sysc [where R = "\<lambda>r. rv r \<le> 0"])
      (use assms in \<open>auto simp: steady_trace no_children_def intro!: runs_intro steady_frame\<close>)
  ultimately show ?thesis by (simp add: gather_children_def)
qed

lemma steady_gather_timeouts:
  assumes "no_children E"
  shows "runs (steady E s0) (\<lambda>c. \<not> is_pace_call c) (check_bin E None timeout v)"
proof -
  have "runs (steady E s0) (\<lambda>c. \<not> is_pace_call c) (check_timeouts E timeout)"
    unfolding check_timeouts_def
  proof (rule runs_bind, rule runs_sysc, simp add: steady_trace, simp, rule runs_bind_gets)
    fix s and t :: reply
    assume "steady E s0 s"
    then have p: "process_head s = []" by (simp add: steady_def)
    show "runs (steady E s0) (\<lambda>c. \<not> is_pace_call c)
        (bind (for_each (expire E timeout (v1 t)) (process_head s))
          (\<lambda>ps'. andthen (modify (process_head_update (\<lambda>_. ps'))) (ret ENOERR)))"
      unfolding p for_each.simps bind_ret
      by (intro runs_andthen runs_modify runs_ret) (simp_all add: steady_def sensors_def hb_ok_def hb_inv_def ring_of_def)
  qed
  with steady_gather [OF assms] show ?thesis
    unfolding check_bin_def option.case by (intro runs_intro)
qed

lemma steady_count_tick: "runs (steady E s0) (\<lambda>c. \<not> is_pace_call c) (count_tick E n)"
  unfolding count_tick_def
  by (intro runs_intro steady_frame) (simp_all add: steady_cfg)

lemma steady_interval:
  assumes "healthy E s0" and "count_max \<le> 0"
  shows "refreshes E s0 (6 + entry_count (cfg s0)) (interval E sync_it wait count count_max)"
proof -
  have d: "driver_ok E (dev_part s0)" and nc: "no_children E" using assms by (simp_all add: healthy_def)
  have rest: "refreshes E s0 0
     (andthen (do_sys E (ProcCall (Usleep swait)))
     (bind (gets (test_timeout \<circ> cfg)) (\<lambda>t.
      andthen (ignored (check_bin E None t 0))
     (andthen (do_sys E (ProcCall (Usleep wait)))
     (andthen (count_tick E (count + 1))
     (whenp (count_max > 0 \<and> count + 1 \<ge> count_max)
       (andthen (log_msg E LOG_WARNING ''loop exit on interval counter reached'' [])
       (modify (running_update (\<lambda>_. False))))))))))"
    unfolding ignored_def
    by (rule refreshes_quiet, intro runs_intro steady_frame steady_gather_timeouts [OF nc] steady_count_tick)
      (use assms(2) in \<open>simp_all add: steady_trace\<close>)
  have pass: "ignored (wd_action E ENOERR rb None) = ret ()" for rb
    unfolding ignored_def wd_action_pass bind_ret ..
  have "refreshes E s0 (1 + ((5 + entry_count (cfg s0)) + 0)) (interval E sync_it wait count count_max)"
    unfolding interval_def
    by (intro performs_bind [OF steady_keep_alive [OF d]], clarify,
        rule performs_quiet_bind [OF runs_gets], unfold pass andthen_ret,
        rule performs_mono [OF refreshes_andthen [OF steady_all_checks [OF assms(1)] rest]])
      (simp only: plus_1_eq_Suc replicate_Suc concat.simps)
  then show ?thesis by (rule refreshes_eq) simp
qed

section \<open>The main loop\<close>

text \<open>No \<open>SIGTERM\<close> arrives.\<close>

definition undisturbed :: "env \<Rightarrow> bool" where
  "undisturbed E \<longleftrightarrow> (\<forall>tr. rv (kern E tr (ProcCall Poll_sigterm)) = 0)"

lemma steady_still_running:
  assumes "undisturbed E"
  shows "performs (steady E s0) is_pace_call (\<lambda>go cs. go \<and> cs = []) (still_running E)"
proof (rule performsI)
  fix s
  assume s: "steady E s0 s"
  let ?e = "(ProcCall Poll_sigterm, kern E (trace s) (ProcCall Poll_sigterm))"
  have "still_running E s = (Ret True, s\<lparr>trace := trace s @ [?e]\<rparr>)"
    using assms s by (simp add: still_running_def undisturbed_def steady_def)
  moreover have "steady E s0 (s\<lparr>trace := trace s @ [?e]\<rparr>)" using s by (simp add: steady_trace)
  ultimately show "\<exists>x s' es. still_running E s = (Ret x, s') \<and> steady E s0 s' \<and> trace s' = trace s @ es \<and>
      x \<and> filter is_pace_call (map fst es) = []"
    by (intro exI [of _ True] exI [of _ "s\<lparr>trace := trace s @ [?e]\<rparr>"] exI [of _ "[?e]"]) simp
qed

lemma steady_main_loop:
  assumes "healthy E s0" and "undisturbed E" and "count_max \<le> 0" and "steady E s0 s"
  shows "\<exists>s'. main_loop n E sync_it wait count count_max s = (Unfinished, s') \<and> steady E s0 s' \<and>
     calls is_pace_call s' = calls is_pace_call s @
       concat (replicate (n * (6 + entry_count (cfg s0))) (refresh_calls (dev_part s0)))"
  using assms(4)
proof (induction n arbitrary: count s)
  case 0
  then show ?case by (auto simp: main_loop.simps)
next
  case (Suc n)
  from performs_calls [OF steady_still_running [OF assms(2)] Suc.prems] obtain s1 where
    1: "still_running E s = (Ret True, s1)" "steady E s0 s1" "calls is_pace_call s1 = calls is_pace_call s" by auto
  from performs_calls [OF steady_interval [OF assms(1,3), of sync_it wait count] 1(2)] obtain s2 where
    2: "interval E sync_it wait count count_max s1 = (Ret (), s2)" "steady E s0 s2"
      "calls is_pace_call s2 = calls is_pace_call s @
        concat (replicate (6 + entry_count (cfg s0)) (refresh_calls (dev_part s0)))"
    using 1(3) by auto
  from Suc.IH [OF 2(2), of "count + 1"] obtain s3 where
    3: "main_loop n E sync_it wait (count + 1) count_max s2 = (Unfinished, s3)" "steady E s0 s3"
      "calls is_pace_call s3 = calls is_pace_call s2 @
        concat (replicate (n * (6 + entry_count (cfg s0))) (refresh_calls (dev_part s0)))" by blast
  have "main_loop (Suc n) E sync_it wait count count_max s = (Unfinished, s3)"
    using 1(1) 2(1) 3(1) by (simp add: main_loop.simps bind_apply_Ret andthen_def)
  with 2(3) 3(2,3) show ?case by (simp add: replicate_add)
qed


end
