(* ===== verification/DaemonWitnesses.thy ===== *)
theory DaemonWitnesses
  imports Witnesses ShutdownEnd KeepaliveDaemon NoAction Interval
begin

text \<open>
  Concrete machines for the properties of the mount tables, of the shutdown and of the main program.
\<close>

section \<open>The daemon\<close>

definition daemon :: wd_state where
  "daemon = \<lparr>trace = [], using_syslog = False, using_terminal = False, progname = [], err_count = 0,
     err_level = LOG_DEBUG, err_buf = [], cfg = initial_config, daemon_pid = 7, saved_fname = None,
     mlocked = False, watchdog_fd = - 1, timeout_used = TIMER_MARGIN, Refresh_using_ioctl = False,
     hb = 0, lastts = 0, nrts = 0, timestamps = None, load_fd = - 1, mem_fd = - 1, temp_fd = - 1,
     templevel1 = 0, templevel2 = 0, templevel3 = 0, process_head = [],
     mount_mount_quiet = 0, mount_verbose = 0, have_mtab_info = False, var_mtab_does_not_exist = False,
     var_mtab_is_a_symlink = False, mtab_writable_ret = - 1, got_mtab = False, mounttable = None,
     got_fstab = False, fstab = None, lock = - 1, old_lockfile = True, umount_nomtab = 0, remount = 0,
     umount_verbose = 0, plist = [], no_act = False, running = True\<rparr>"

section \<open>Mount tables\<close>

definition root_entry :: mntent where
  "root_entry = \<lparr>mnt_fsname = Some ''/dev/sda1'', mnt_dir = ''/'', mnt_type = Some ''ext2'', mnt_opts = ''rw'',
     mnt_freq = 0, mnt_passno = 1\<rparr>"

definition data_entry :: mntent where
  "data_entry = \<lparr>mnt_fsname = Some ''/dev/sdb1'', mnt_dir = ''/my data'', mnt_type = Some ''ext2'', mnt_opts = ''ro'',
     mnt_freq = 0, mnt_passno = 2\<rparr>"

lemma entries_ok: "entry_ok root_entry" "entry_ok data_entry"
  by (simp_all add: entry_ok_def root_entry_def data_entry_def text_ok_def INT_MAX_def)

definition mtab_text :: string where
  "mtab_text = mnt_text root_entry @ mnt_text data_entry"

text \<open>A machine with these two entries in a regular mtab, and stream 5 for the new table.\<close>

definition mtab_machine :: env where
  "mtab_machine = machine (\<lambda>c. case c of
     FileCall (Fopen f m) \<Rightarrow> nil_reply\<lparr>rv := (if m = ''w'' then 5 else 4), dat := mtab_text\<rparr>
   | ProcCall (Malloc n) \<Rightarrow> nil_reply\<lparr>rv := 1\<rparr> | _ \<Rightarrow> nil_reply)"

lemma mtab_machine_ok: "memory_ok mtab_machine" "writable mtab_machine 5"
  by (simp_all add: memory_ok_def writable_def mtab_machine_def)

definition table :: "int \<Rightarrow> mntFILE" where
  "table h = \<lparr>mntent_fp = h, mntent_file = ''mtab'', mntent_lines = [], mntent_lineno = 0, mntent_errs = False,
     mntent_softerrs = 0, mntent_ferror = 0, mntent_eof = False\<rparr>"


lemma mnt_text_lengths: "length (mnt_text root_entry) < 4096" "length (mnt_text data_entry) < 4096"
  by code_simp+

theorem update_mtab_removes_witness:
  "\<exists>s'. update_mtab mtab_machine ''/my data'' None daemon = (Ret (), s') \<and>
     calls (is_table_call 5) s' = calls (is_table_call 5) daemon
       @ map (\<lambda>m. FileCall (Fprintf 5 (mnt_text m))) (filter (\<lambda>m. mnt_dir m \<noteq> ''/my data'') [root_entry, data_entry])
       @ [FileCall (Rename MOUNTED_TEMP MOUNTED)]"
proof (rule update_mtab_removes)
  show "mtab_has mtab_machine [root_entry, data_entry]"
    using mtab_machine_ok(1) entries_ok mnt_text_lengths by (simp add: mtab_has_def mtab_machine_def mtab_text_def)
  show "mtab_regular mtab_machine" by (simp add: mtab_regular_def mtab_machine_def S_ISLNK_def)
  show "mtab_lockable mtab_machine" by (simp add: mtab_lockable_def mtab_machine_def)
  show "temp_file mtab_machine 5" using mtab_machine_ok(2) by (simp add: temp_file_def mtab_machine_def)
  show "mtab_flags_clear daemon" by (simp add: mtab_flags_clear_def daemon_def)
qed

text \<open>A machine whose mtab is a link.\<close>

definition linked_machine :: env where
  "linked_machine = machine (\<lambda>c. case c of
     FileCall (Lstat f) \<Rightarrow> nil_reply\<lparr>v1 := 40960\<rparr>
   | FileCall (Fopen f m) \<Rightarrow> nil_reply\<lparr>rv := 4\<rparr>
   | ProcCall (Malloc n) \<Rightarrow> nil_reply\<lparr>rv := 1\<rparr> | _ \<Rightarrow> nil_reply)"

lemma linked_machine_ok: "memory_ok linked_machine" "mtab_linked linked_machine"
  by (simp_all add: memory_ok_def mtab_linked_def linked_machine_def S_ISLNK_def)

definition two_mounts :: "mntentchn list" where
  "two_mounts = [\<lparr>mc_fsname = ''/dev/sda1'', mc_dir = ''/'', mc_type = ''ext2'', mc_opts = ''rw''\<rparr>,
     \<lparr>mc_fsname = ''/dev/sdb1'', mc_dir = ''/data'', mc_type = ''ext2'', mc_opts = ''rw''\<rparr>]"


section \<open>The shutdown\<close>

text \<open>Three processes, each in a session of its own; the daemon is number 7.\<close>

definition three_processes :: env where
  "three_processes = machine (\<lambda>c. case c of
     FileCall (Opendir d) \<Rightarrow> nil_reply\<lparr>rv := 6, names := [''self'', ''1'', ''7'', ''9'']\<rparr>
   | ProcCall (Malloc n) \<Rightarrow> nil_reply\<lparr>rv := 1\<rparr> | ProcCall (Getsid p) \<Rightarrow> nil_reply\<lparr>rv := p\<rparr> | _ \<Rightarrow> nil_reply)"

lemma three_readable: "proc_readable three_processes [''self'', ''1'', ''7'', ''9''] (\<lambda>p. p)"
  by (simp add: proc_readable_def three_processes_def)

lemma three_ids: "process_ids [''self'', ''1'', ''7'', ''9''] = [1, 7, 9]"
  by code_simp

theorem killall5_signals_witness:
  "\<exists>s'. killall5 three_processes SIGTERM daemon = (Ret (), s') \<and>
     calls is_kill s' = calls is_kill daemon @ [ProcCall (Kill (- 1) SIGSTOP)] @
       map (\<lambda>p. ProcCall (Kill p SIGTERM)) (filter (\<lambda>p. p \<noteq> daemon_pid daemon \<and> p \<noteq> daemon_pid daemon \<and> p \<noteq> 0)
         (rev (process_ids [''self'', ''1'', ''7'', ''9'']))) @ [ProcCall (Kill (- 1) SIGCONT)]"
  by (rule killall5_signals [OF three_readable]) (simp add: three_ids daemon_def)



section \<open>The main program\<close>

theorem loop_exit_bounds_witness:
  "main_loop 9 calm False 950000 0 3 daemon = main_loop (Suc (nat 3)) calm False 950000 0 3 daemon"
  by (rule loop_exit_bounds) simp_all

definition limited :: wd_state where
  "limited = daemon\<lparr>cfg := initial_config\<lparr>repair_max := 1, retry_timeout := 60\<rparr>\<rparr>"

theorem repair_attempts_bounded_witness:
  "length (calls is_fork (snd (react_all calm [EIO, EIO, EIO] (Some ''fix'') (new_entry ''f'' 0) limited)))
     \<le> length (calls is_fork limited) + nat (repair_max (cfg limited))"
  by (rule repair_attempts_bounded)
    (simp_all add: limited_def new_entry_def EIO_def ENOERR_def INT_MAX_def)

definition clock_100 :: env where
  "clock_100 = machine (\<lambda>c. if c = ProcCall Time then nil_reply\<lparr>v1 := 100\<rparr> else nil_reply)"

theorem exhausted_entry_shuts_down_witness:
  "\<exists>s1 r r' s'. wd_action clock_100 EIO None (Some ((new_entry ''f'' 0)\<lparr>last_time := 1, repair_count := 1\<rparr>)) limited = (r, s') \<and>
     (\<forall>x. r \<noteq> Ret x) \<and> calls is_fork s1 = calls is_fork limited \<and> cfg s1 = cfg limited \<and>
     (do_shutdown clock_100 EIO :: (wd_state, unit) proc) s1 = (r', s')"
  by (rule exhausted_entry_shuts_down)
    (simp_all add: exhausted_def repairable_def EIO_def wd_err_defs limited_def new_entry_def INT_MAX_def int32_def
      clock_100_def daemon_def)

theorem no_action_never_reboots_witness:
  "calls is_reboot (snd (main calm ''watchdog'' [(CHR ''F'', []), (CHR ''q'', []), (CHR ''X'', ''2'')] daemon))
     = calls is_reboot daemon"
  by (rule no_action_never_reboots [of "[]"]) simp

section \<open>A healthy machine\<close>

text \<open>The device is open, a file and a server are checked, and every call succeeds.\<close>

definition armed :: wd_state where
  "armed = daemon\<lparr>watchdog_fd := 3, cfg := initial_config\<lparr>file_list := [new_entry ''/var/log/messages'' 0],
     pidfile_list := [new_entry ''/var/run/sshd.pid'' 0]\<rparr>\<rparr>"

lemma steady_armed:
  assumes "steady calm armed s"
  shows "load_fd s = - 1" "mem_fd s = - 1" "minalloc (cfg s) = 0" "temp_list (cfg s) = []"
    "core ` set (file_list (cfg s)) = {core (new_entry ''/var/log/messages'' 0)}"
proof -
  from assms have sh: "shape (cfg s) = shape (cfg armed)" by (simp add: steady_def)
  show "minalloc (cfg s) = 0"
    using arg_cong [OF sh, of minalloc] by (simp add: shape_def armed_def initial_config_def)
  show "temp_list (cfg s) = []"
    using shape_lists(1) [OF sh] by (simp add: armed_def initial_config_def)
qed (use assms steady_cores(2) [OF assms] in \<open>simp_all add: steady_def sensors_def armed_def daemon_def\<close>)

lemma fst_after: "returns m \<Longrightarrow> fst (andthen m (ret x) s) = Ret x"
  by (erule returnsE [of m s]) (simp add: andthen_def bind_apply_Ret)

lemma armed_healthy: "healthy calm armed"
proof -
  have "plain_pass calm (steady calm armed)"
    unfolding plain_pass_def
    by (auto simp: steady_armed check_file_table_def check_load_def check_memory_def check_allocatable_def calm_def machine_def
      nil_reply_def ENOERR_def)
  moreover have stat_ok: "fst (check_file_stat calm (Some a) s) = Ret ENOERR" if "core a = core (new_entry n 0)" for a s n
    using arg_cong [OF that, of f_mtime]
    by (simp add: check_file_stat_def fst_after core_def new_entry_def calm_def machine_def nil_reply_def)
  have "fst (check_pidfile calm a s) = Ret ENOERR" for a s
    by (simp add: check_pidfile_def fst_after Let_def calm_def machine_def nil_reply_def)
  then have "entries_pass calm (steady calm armed)"
    unfolding entries_pass_def by (auto simp: steady_armed intro: stat_ok)
  moreover have "driver_ok calm (dev_part armed)" "no_children calm"
    "iface_list (cfg armed) = []" "target_list (cfg armed) = []" "tr_bin_list (cfg armed) = []"
    by (simp_all add: driver_ok_def no_children_def armed_def initial_config_def calm_def machine_def nil_reply_def)
  ultimately show ?thesis unfolding healthy_def by blast
qed


end
