(* ===== verification/Progress.thy ===== *)
theory Progress
  imports Logging
begin

text \<open>
  Two more predicates on processes with their rules, for the mount programs: that a process comes to an end (it
  returns, exits or dies, but is not left in a loop), and that it makes at most a given number of calls of
  one kind.
\<close>

named_theorems ends_intro \<open>rules: a process comes to an end\<close>

section \<open>Coming to an end\<close>

definition ends :: "('s, 'a) proc \<Rightarrow> bool" where
  "ends m \<longleftrightarrow> (\<forall>s. fst (m s) \<noteq> Unfinished)"

lemma endsD: "ends m \<Longrightarrow> m s = (r, s') \<Longrightarrow> r \<noteq> Unfinished"
  unfolding ends_def by (metis fst_conv)

lemma returns_ends: "returns m \<Longrightarrow> ends m"
  unfolding returns_def ends_def by (metis fst_conv outcome.distinct(7))

lemma ends_basic [ends_intro]:
  "ends (ret x)" "ends (gets f)" "ends (modify g)" "ends (stop c)" "ends (exec_image p args)" "ends fault"
  "ends (sysc E call)" "ends (do_sys E call)"
  by (simp_all add: ends_def)

lemma ends_bind [ends_intro]:
  assumes "ends m" and "\<And>x. ends (f x)"
  shows "ends (bind m f)"
  unfolding ends_def
proof
  fix s
  obtain r s1 where 1: "m s = (r, s1)" by fastforce
  with assms(1) have "r \<noteq> Unfinished" by (rule endsD)
  with 1 assms(2) show "fst (bind m f s) \<noteq> Unfinished" by (cases r) (simp_all add: bind_def ends_def)
qed

text \<open>The rest of a sequence only has to end for the values the first part can return.\<close>

lemma ends_bind_strong:
  assumes "ends m" and "yields P m" and "\<And>x. P x \<Longrightarrow> ends (f x)"
  shows "ends (bind m f)"
  unfolding ends_def
proof
  fix s
  obtain r s1 where 1: "m s = (r, s1)" by fastforce
  with assms(1) have "r \<noteq> Unfinished" by (rule endsD)
  moreover have "ends (f x)" if "r = Ret x" for x
    using yieldsD [OF assms(2)] 1 that assms(3) by blast
  ultimately show "fst (bind m f s) \<noteq> Unfinished" using 1 by (cases r) (simp_all add: bind_def ends_def)
qed

lemma ends_andthen [ends_intro]: "ends m \<Longrightarrow> ends n \<Longrightarrow> ends (andthen m n)"
  by (simp add: andthen_def ends_bind)

lemma ends_if [ends_intro]: "(b \<Longrightarrow> ends m) \<Longrightarrow> (\<not> b \<Longrightarrow> ends n) \<Longrightarrow> ends (if b then m else n)"
  by simp

lemma ends_whenp [ends_intro]: "(b \<Longrightarrow> ends m) \<Longrightarrow> ends (whenp b m)"
  by (simp add: whenp_def ends_basic)

lemma ends_let [ends_intro]: "ends (f x) \<Longrightarrow> ends (let y = x in f y)"
  by (simp add: Let_def)

lemma ends_case_option [ends_intro]:
  "ends n \<Longrightarrow> (\<And>x. ends (f x)) \<Longrightarrow> ends (case v of None \<Rightarrow> n | Some x \<Rightarrow> f x)"
  by (cases v) simp_all

lemma ends_case_list [ends_intro]:
  "ends n \<Longrightarrow> (\<And>x xs. ends (f x xs)) \<Longrightarrow> ends (case v of [] \<Rightarrow> n | x # xs \<Rightarrow> f x xs)"
  by (cases v) simp_all

lemma ends_case_prod [ends_intro]: "(\<And>x y. ends (f x y)) \<Longrightarrow> ends (case p of (x, y) \<Rightarrow> f x y)"
  by (cases p) simp

lemma ends_case_sum [ends_intro]:
  "(\<And>x. ends (f x)) \<Longrightarrow> (\<And>y. ends (g y)) \<Longrightarrow> ends (case v of Inl x \<Rightarrow> f x | Inr y \<Rightarrow> g y)"
  by (cases v) simp_all

lemma ends_run_all [ends_intro]: "list_all ends ms \<Longrightarrow> ends (run_all ms)"
  by (induction ms) (simp_all add: ends_andthen ends_basic)

lemma ends_log [ends_intro]: "ends (output_message E l t)" "ends (close_logging E)"
  by (rule returns_ends, intro log_returns)+

lemma ends_fatal [ends_intro]: "ends (fatal_error E c f a)"
  unfolding fatal_error_def by (intro ends_intro)

lemma ends_alloc [ends_intro]: "ends (xmalloc E n)" "ends (xstrdup E v)" "ends (xstrndup E v k)"
proof -
  show x: "ends (xmalloc E n)" for n unfolding xmalloc_def by (intro ends_intro)
  show "ends (xstrdup E v)" unfolding xstrdup_def by (intro ends_intro)
  show "ends (xstrndup E v k)" unfolding xstrndup_def by (intro ends_intro x)
qed

section \<open>Bounded numbers of calls\<close>

definition at_most :: "nat \<Rightarrow> (syscall \<Rightarrow> bool) \<Rightarrow> ('s os_state_scheme, 'a) proc \<Rightarrow> bool" where
  "at_most k P m \<longleftrightarrow> (\<forall>s. length (calls P (snd (m s))) \<le> length (calls P s) + k)"

lemma at_mostD: "at_most k P m \<Longrightarrow> m s = (r, s') \<Longrightarrow> length (calls P s') \<le> length (calls P s) + k"
  unfolding at_most_def by (metis snd_conv)

lemma at_most_mono: "at_most j P m \<Longrightarrow> j \<le> k \<Longrightarrow> at_most k P m"
  unfolding at_most_def by (meson add_left_mono le_trans)

lemma at_most_none: "emits (\<lambda>c. \<not> P c) m \<Longrightarrow> at_most k P m"
  using emits_keeps_calls [of P m] by (simp add: at_most_def keeps_def)

lemma at_most_bind:
  assumes "at_most j P m" and "\<And>x. at_most k P (f x)"
  shows "at_most (j + k) P (bind m f)"
  unfolding at_most_def
proof
  fix s
  obtain r s1 where 1: "m s = (r, s1)" by fastforce
  have j: "length (calls P s1) \<le> length (calls P s) + j" using assms(1) 1 by (rule at_mostD)
  show "length (calls P (snd (bind m f s))) \<le> length (calls P s) + (j + k)"
  proof (cases r)
    case (Ret x)
    have "length (calls P (snd (f x s1))) \<le> length (calls P s1) + k"
      using assms(2) unfolding at_most_def by blast
    with j 1 Ret show ?thesis by (simp add: bind_apply_Ret)
  qed (use j 1 in \<open>simp_all add: bind_def\<close>)
qed

text \<open>A part that makes no such call, before or after the part that does.\<close>

lemma at_most_after: "emits (\<lambda>c. \<not> P c) m \<Longrightarrow> (\<And>x. at_most k P (f x)) \<Longrightarrow> at_most k P (bind m f)"
  using at_most_bind [OF at_most_none [where k = 0], of P m k f] by simp

lemma at_most_before: "at_most k P m \<Longrightarrow> (\<And>x. emits (\<lambda>c. \<not> P c) (f x)) \<Longrightarrow> at_most k P (bind m f)"
  using at_most_bind [of k P m 0 f] by (simp add: at_most_none)

lemma at_most_sysc: "at_most 1 P (sysc E c)"
  by (simp add: at_most_def)

section \<open>Further rules\<close>

lemma yields_mono: "yields P m \<Longrightarrow> (\<And>x. P x \<Longrightarrow> Q x) \<Longrightarrow> yields Q m"
  unfolding yields_def by blast

lemma yields_case_sum [yields_intro]:
  "(\<And>x. yields P (f x)) \<Longrightarrow> (\<And>y. yields P (g y)) \<Longrightarrow> yields P (case v of Inl x \<Rightarrow> f x | Inr y \<Rightarrow> g y)"
  by (cases v) simp_all

lemma emits_case_sum [emits_intro]:
  "(\<And>x. emits P (f x)) \<Longrightarrow> (\<And>y. emits P (g y)) \<Longrightarrow> emits P (case v of Inl x \<Rightarrow> f x | Inr y \<Rightarrow> g y)"
  by (cases v) simp_all

lemma emits_alloc:
  assumes "\<And>c. is_log_call c \<Longrightarrow> P c" and "\<And>n. P (ProcCall (Malloc n))"
  shows "emits P (xmalloc E n)" and "emits P (xstrdup E v)" and "emits P (xstrndup E v k)"
  unfolding xmalloc_def xstrdup_def xstrndup_def by (intro emits_intro; simp add: assms)+

lemma preserves_case_sum [preserves_intro]:
  "(\<And>x. preserves P (f x)) \<Longrightarrow> (\<And>y. preserves P (g y)) \<Longrightarrow> preserves P (case v of Inl x \<Rightarrow> f x | Inr y \<Rightarrow> g y)"
  by (cases v) simp_all

lemma fatal_error_never_returns: "fatal_error E c f a s \<noteq> (Ret x, s')"
  by (auto simp: fatal_error_def elim!: bind_RetE)

lemma xstrdup_events:
  assumes "xstrdup E (Some v) s = (Ret d, s')"
  obtains r where "d = Some v" and "s' = s\<lparr>trace := trace s @ [(ProcCall (Malloc (int (length v) + 1)), r)]\<rparr>"
  using assms unfolding xstrdup_def by (auto split: if_splits simp: fatal_error_never_returns)

end
