(* ===== verification/MountOpts.thy ===== *)
theory MountOpts
  imports Umount Progress
begin

text \<open>
  The state of the mount program and its options: the tables and functions of the first part of
  \<^verbatim>\<open>src/mount.c\<close>, with \<open>parse_list\<close>, \<open>canonicalize\<close> and \<open>block_signals\<close> of \<^verbatim>\<open>src/sundries.c\<close>.

  Mount flags are 32-bit words. The optional rows of the option table are those of a current
  \<^verbatim>\<open>sys/mount.h\<close>: \<open>MS_SILENT\<close> is defined there and \<open>MS_NOSUB\<close> is not.
\<close>

unbundle bit_operations_syntax

section \<open>State\<close>

record mount_state = mnt_state +
  fake :: int
  mount_nomtab :: int
  readonly :: int
  sloppy :: int
  readwrite :: int
  all_flag :: int
  optfork :: int
  mount_suid :: int
  opt_loopdev :: "string option"
  opt_vfstype :: "string option"
  opt_offset :: "string option"
  opt_encryption :: "string option"
  procfs :: int                         \<comment> \<open>the stream of \<^verbatim>\<open>/proc/filesystems\<close>, 0 for none\<close>
  proc_lines :: "string list"           \<comment> \<open>what \<open>fgets\<close> will still return from it\<close>
  mountcount :: int
  added_ro :: bool
  prev_bg_host :: "string option"
  nfs_mount_version :: int
  kernel_version :: int
  envp0 :: "string list"                \<comment> \<open>the environment at the start\<close>
  argv_area :: string                   \<comment> \<open>the memory from the first argument to the end of the environment\<close>

text \<open>Updates of the trace commute with those of the string options.\<close>

lemma trace_inner:
  "s\<lparr>opt_loopdev := a, trace := t\<rparr> = s\<lparr>trace := t, opt_loopdev := a\<rparr>"
  "s\<lparr>opt_vfstype := a, trace := t\<rparr> = s\<lparr>trace := t, opt_vfstype := a\<rparr>"
  "s\<lparr>opt_offset := a, trace := t\<rparr> = s\<lparr>trace := t, opt_offset := a\<rparr>"
  "s\<lparr>opt_encryption := a, trace := t\<rparr> = s\<lparr>trace := t, opt_encryption := a\<rparr>"
  by simp_all

section \<open>Support functions\<close>

text \<open>The list is built by \<open>cons\<close>, last element first; a string without any token gives one null
  pointer.\<close>

definition parse_list :: "env \<Rightarrow> string option \<Rightarrow> ('s log_state_scheme, string option list) proc" where
  "parse_list E strings =
     (case strings of
        None \<Rightarrow> ret []
      | Some s \<Rightarrow>
          (let ts = strtok_all (CHR '','') s in
           andthen (run_all (replicate (max 1 (length ts)) (bind (xmalloc E 16) (\<lambda>_. ret ()))))
           (ret (if ts = [] then [None] else rev (map Some ts)))))"

text \<open>What \<open>strtok\<close> leaves of the string it works on: up to the end of the first token.\<close>

definition strtok_rest :: "string \<Rightarrow> string" where
  "strtok_rest s = takeWhile (\<lambda>c. c = CHR '','') s @ takeWhile (\<lambda>c. c \<noteq> CHR '','') (dropWhile (\<lambda>c. c = CHR '','') s)"

text \<open>\<open>matching_type\<close> on a list that may hold the null pointer.\<close>

definition matching_types :: "string \<Rightarrow> string option list \<Rightarrow> ('s, bool) proc" where
  "matching_types type types =
     (if type \<noteq> ''swap'' \<and> None \<in> set types then fault else ret (matching_type type (map str_or_empty types)))"

definition canonicalize :: "env \<Rightarrow> string option \<Rightarrow> ('s log_state_scheme, string option) proc" where
  "canonicalize E path =
     (case path of
        None \<Rightarrow> ret None
      | Some p \<Rightarrow>
          if p = ''none'' \<or> p = ''proc'' then xstrdup E (Some p)
          else
            bind (xmalloc E (int PATH_MAX + 1)) (\<lambda>_.
            bind (fsys E (Realpath p)) (\<lambda>r.
            if rv r \<noteq> 0 then ret (Some (dat r)) else xstrdup E (Some p))))"

definition block_signals :: "env \<Rightarrow> bool \<Rightarrow> ('s os_state_scheme, unit) proc" where
  "block_signals E block = do_sys E (ProcCall (Block_signals block))"

section \<open>The tables\<close>

type_synonym mount_flags = "32 word"

definition MS_RDONLY :: mount_flags where "MS_RDONLY = 1"
definition MS_NOSUID :: mount_flags where "MS_NOSUID = 2"
definition MS_NODEV :: mount_flags where "MS_NODEV = 4"
definition MS_NOEXEC :: mount_flags where "MS_NOEXEC = 8"
definition MS_SYNCHRONOUS :: mount_flags where "MS_SYNCHRONOUS = 16"
definition MS_REMOUNT :: mount_flags where "MS_REMOUNT = 32"
definition MS_MANDLOCK :: mount_flags where "MS_MANDLOCK = 64"
definition MS_NOATIME :: mount_flags where "MS_NOATIME = 1024"
definition MS_NODIRATIME :: mount_flags where "MS_NODIRATIME = 2048"
definition MS_SILENT :: mount_flags where "MS_SILENT = 32768"
definition MS_NOAUTO :: mount_flags where "MS_NOAUTO = 0x80000000"
definition MS_USER :: mount_flags where "MS_USER = 0x40000000"
definition MS_LOOP :: mount_flags where "MS_LOOP = 0x00010000"
definition MS_NOSYS :: mount_flags where "MS_NOSYS = MS_NOAUTO OR MS_USER OR MS_LOOP"
definition MS_NOMTAB :: mount_flags where "MS_NOMTAB = MS_REMOUNT OR MS_NOAUTO OR MS_USER"
definition MS_SECURE :: mount_flags where "MS_SECURE = MS_NOEXEC OR MS_NOSUID OR MS_NODEV"

lemmas ms_bits = MS_RDONLY_def MS_NOSUID_def MS_NODEV_def MS_NOEXEC_def MS_SYNCHRONOUS_def MS_REMOUNT_def
  MS_MANDLOCK_def MS_NOATIME_def MS_NODIRATIME_def MS_SILENT_def MS_NOAUTO_def MS_USER_def MS_LOOP_def

record opt_row =
  om_opt :: string
  om_skip :: bool
  om_inv :: bool
  om_mask :: mount_flags

definition row :: "string \<Rightarrow> bool \<Rightarrow> bool \<Rightarrow> mount_flags \<Rightarrow> opt_row" where
  "row n k i m = \<lparr>om_opt = n, om_skip = k, om_inv = i, om_mask = m\<rparr>"

definition opt_map :: "opt_row list" where
  "opt_map =
    [row ''defaults'' False False 0,
     row ''ro'' True False MS_RDONLY,
     row ''rw'' True True MS_RDONLY,
     row ''exec'' False True MS_NOEXEC,
     row ''noexec'' False False MS_NOEXEC,
     row ''mount_suid'' False True MS_NOSUID,
     row ''nomount_suid'' False False MS_NOSUID,
     row ''dev'' False True MS_NODEV,
     row ''nodev'' False False MS_NODEV,
     row ''sync'' False False MS_SYNCHRONOUS,
     row ''async'' False True MS_SYNCHRONOUS,
     row ''remount'' False False MS_REMOUNT,
     row ''auto'' False True MS_NOAUTO,
     row ''noauto'' False False MS_NOAUTO,
     row ''user'' False False MS_USER,
     row ''nouser'' False True MS_USER,
     row ''quiet'' False False MS_SILENT,
     row ''loud'' False True MS_SILENT,
     row ''mand'' False False MS_MANDLOCK,
     row ''nomand'' False True MS_MANDLOCK,
     row ''loop'' True False MS_LOOP,
     row ''atime'' False True MS_NOATIME,
     row ''noatime'' False False MS_NOATIME,
     row ''diratime'' False True MS_NODIRATIME,
     row ''nodiratime'' False False MS_NODIRATIME]"

record 's string_opt_row =
  so_tag :: string
  so_skip :: bool
  so_get :: "'s mount_state_scheme \<Rightarrow> string option"
  so_set :: "string option \<Rightarrow> 's mount_state_scheme \<Rightarrow> 's mount_state_scheme"

definition string_opt_map :: "'s string_opt_row list" where
  "string_opt_map =
    [\<lparr>so_tag = ''loop='', so_skip = False, so_get = opt_loopdev, so_set = (\<lambda>v s. s\<lparr>opt_loopdev := v\<rparr>)\<rparr>,
     \<lparr>so_tag = ''vfs='', so_skip = True, so_get = opt_vfstype, so_set = (\<lambda>v s. s\<lparr>opt_vfstype := v\<rparr>)\<rparr>,
     \<lparr>so_tag = ''offset='', so_skip = False, so_get = opt_offset, so_set = (\<lambda>v s. s\<lparr>opt_offset := v\<rparr>)\<rparr>,
     \<lparr>so_tag = ''encryption='', so_skip = False, so_get = opt_encryption, so_set = (\<lambda>v s. s\<lparr>opt_encryption := v\<rparr>)\<rparr>]"

section \<open>Parsing options\<close>

definition clear_string_opts :: "('s mount_state_scheme, unit) proc" where
  "clear_string_opts = run_all (map (\<lambda>m. modify (so_set m None)) string_opt_map)"

definition parse_string_opt :: "env \<Rightarrow> string \<Rightarrow> ('s mount_state_scheme, bool) proc" where
  "parse_string_opt E s =
     (case find (\<lambda>m. is_prefix (so_tag m) s) string_opt_map of
        None \<Rightarrow> ret False
      | Some m \<Rightarrow>
          bind (xstrdup E (Some (drop (length (so_tag m)) s))) (\<lambda>v.
          andthen (modify (so_set m v)) (ret True)))"

definition apply_row :: "opt_row \<Rightarrow> mount_flags \<Rightarrow> mount_flags" where
  "apply_row om fl =
     (let m = (if om_inv om then fl AND NOT (om_mask om) else fl OR om_mask om) in
      if om_mask om = MS_USER then m OR MS_SECURE else m)"

definition parse_opt :: "string \<Rightarrow> mount_flags \<Rightarrow> string \<Rightarrow> ('s mount_state_scheme, mount_flags \<times> string) proc" where
  "parse_opt opt fl extra_opts =
     (case find (\<lambda>om. opt = om_opt om) opt_map of
        Some om \<Rightarrow>
          andthen (whenp (om_mask om = MS_SILENT \<and> om_inv om)
            (modify (\<lambda>s. s\<lparr>mount_mount_quiet := 1, mount_verbose := 0\<rparr>)))
          (ret (apply_row om fl, extra_opts))
      | None \<Rightarrow> ret (fl, extra_opts @ (if extra_opts = [] then [] else '','') @ opt))"

fun parse_tokens :: "env \<Rightarrow> string list \<Rightarrow> mount_flags \<Rightarrow> string \<Rightarrow> ('s mount_state_scheme, mount_flags \<times> string) proc" where
  "parse_tokens E [] flags extra = ret (flags, extra)"
| "parse_tokens E (opt # opts) flags extra =
     bind (parse_string_opt E opt) (\<lambda>known.
     if known then parse_tokens E opts flags extra
     else bind (parse_opt opt flags extra) (\<lambda>(flags', extra'). parse_tokens E opts flags' extra'))"

definition parse_opts :: "env \<Rightarrow> string option \<Rightarrow> ('s mount_state_scheme, mount_flags \<times> string option) proc" where
  "parse_opts E opts =
     andthen clear_string_opts
     (bind
       (case opts of
          None \<Rightarrow> ret (0, None)
        | Some t \<Rightarrow>
            bind (xmalloc E (int (length t) + 1)) (\<lambda>_.
            bind (parse_tokens E (strtok_all (CHR '','') t) 0 []) (\<lambda>(flags, extra).
            ret (flags, Some extra)))) (\<lambda>(flags, extra).
      bind (gets readonly) (\<lambda>ro.
      bind (gets readwrite) (\<lambda>rw.
      let f1 = (if ro \<noteq> 0 then flags OR MS_RDONLY else flags) in
      ret (if rw \<noteq> 0 then f1 AND NOT MS_RDONLY else f1, extra)))))"

section \<open>Building the options of an mtab entry\<close>

fun flag_names :: "env \<Rightarrow> opt_row list \<Rightarrow> mount_flags \<Rightarrow> string \<Rightarrow> ('s mount_state_scheme, string) proc" where
  "flag_names E [] flags new_opts = ret new_opts"
| "flag_names E (om # oms) flags new_opts =
     (if om_skip om \<or> om_inv om \<or> om_mask om = 0 \<or> flags AND om_mask om \<noteq> om_mask om
      then flag_names E oms flags new_opts
      else
        bind (xstrconcat3 E (Some new_opts) (Some '','') (Some (om_opt om))) (\<lambda>t.
        flag_names E oms (flags AND NOT (om_mask om)) t))"

fun string_names :: "env \<Rightarrow> 's string_opt_row list \<Rightarrow> string \<Rightarrow> ('s mount_state_scheme, string) proc" where
  "string_names E [] new_opts = ret new_opts"
| "string_names E (m # ms) new_opts =
     bind (gets (so_get m)) (\<lambda>v.
     if \<not> so_skip m \<and> v \<noteq> None
     then bind (xstrconcat4 E (Some new_opts) (Some '','') (Some (so_tag m)) v) (string_names E ms)
     else string_names E ms new_opts)"

definition fix_opts_string :: "env \<Rightarrow> mount_flags \<Rightarrow> string option \<Rightarrow> ('s mount_state_scheme, string) proc" where
  "fix_opts_string E flags extra_opts =
     bind (flag_names E opt_map flags (if flags AND MS_RDONLY \<noteq> 0 then ''ro'' else ''rw'')) (\<lambda>t1.
     bind (string_names E string_opt_map t1) (\<lambda>t2.
     case extra_opts of
       None \<Rightarrow> ret t2
     | Some e \<Rightarrow> if e = [] then ret t2 else xstrconcat3 E (Some t2) (Some '','') (Some e)))"

declare strtok_all.simps [simp del]


section \<open>Joining and splitting at commas\<close>

fun join_opts :: "string list \<Rightarrow> string" where
  "join_opts [] = []"
| "join_opts (t # ts) = t @ concat (map (\<lambda>u. CHR '','' # u) ts)"

definition plain_token :: "string \<Rightarrow> bool" where
  "plain_token t \<longleftrightarrow> t \<noteq> [] \<and> CHR '','' \<notin> set t"

lemma strtok_empty: "strtok_all c [] = []"
  by (subst strtok_all.simps) simp

lemma strtok_skip: "strtok_all c (c # s) = strtok_all c s"
  by (subst (1 2) strtok_all.simps) (simp add: Let_def)

lemma strtok_token:
  assumes "t \<noteq> []" and "c \<notin> set t" and "s = [] \<or> hd s = c"
  shows "strtok_all c (t @ s) = t # strtok_all c s"
proof -
  from assms(1,2) have d: "dropWhile (\<lambda>x. x = c) (t @ s) = t @ s" by (cases t) auto
  have tw: "takeWhile (\<lambda>x. x \<noteq> c) (t @ s) = t" "dropWhile (\<lambda>x. x \<noteq> c) (t @ s) = s"
    using assms(2,3) by (cases s; auto simp: takeWhile_append dropWhile_append)+
  show ?thesis by (subst strtok_all.simps) (simp only: Let_def d tw append_is_Nil_conv assms(1) simp_thms if_False)
qed

lemma strtok_tail:
  "list_all plain_token ts \<Longrightarrow> strtok_all (CHR '','') (concat (map (\<lambda>u. CHR '','' # u) ts)) = ts"
proof (induction ts)
  case (Cons t ts)
  have "concat (map (\<lambda>u. CHR '','' # u) ts) = [] \<or> hd (concat (map (\<lambda>u. CHR '','' # u) ts)) = CHR '',''"
    by (cases ts) simp_all
  with Cons show ?case by (simp add: strtok_skip strtok_token plain_token_def)
qed (simp add: strtok_empty)

lemma strtok_join:
  assumes "list_all plain_token ts"
  shows "strtok_all (CHR '','') (join_opts ts) = ts"
proof (cases ts)
  case (Cons t us)
  have "concat (map (\<lambda>u. CHR '','' # u) us) = [] \<or> hd (concat (map (\<lambda>u. CHR '','' # u) us)) = CHR '',''"
    by (cases us) simp_all
  with Cons assms show ?thesis by (simp add: strtok_tail strtok_token plain_token_def)
qed (simp add: strtok_empty)

lemma join_snoc: "ts \<noteq> [] \<Longrightarrow> join_opts ts @ CHR '','' # u = join_opts (ts @ [u])"
  by (cases ts) simp_all

lemma join_more: "ts \<noteq> [] \<Longrightarrow> join_opts ts @ concat (map (\<lambda>u. CHR '','' # u) us) = join_opts (ts @ us)"
  by (cases ts) simp_all

lemma join_eq_Nil: "list_all plain_token ts \<Longrightarrow> join_opts ts = [] \<longleftrightarrow> ts = []"
  by (cases ts) (auto simp: plain_token_def)

section \<open>What the two directions compute\<close>

lemma xstrconcat_runs:
  assumes "memory_ok E"
  shows "\<exists>t. xstrconcat3 E a b c s = (Ret (concat (map str_or_empty [a, b, c])), s\<lparr>trace := t\<rparr>)"
    and "\<exists>t. xstrconcat4 E a b c d s = (Ret (concat (map str_or_empty [a, b, c, d])), s\<lparr>trace := t\<rparr>)"
proof -
  have "\<exists>t. xstrconcat E ps s = (Ret (concat (map str_or_empty ps)), s\<lparr>trace := t\<rparr>)" for ps
    using assms by (auto simp: xstrconcat_def Let_def xmalloc_def memory_ok_def bind_assoc)
  then show "\<exists>t. xstrconcat3 E a b c s = (Ret (concat (map str_or_empty [a, b, c])), s\<lparr>trace := t\<rparr>)"
    and "\<exists>t. xstrconcat4 E a b c d s = (Ret (concat (map str_or_empty [a, b, c, d])), s\<lparr>trace := t\<rparr>)"
    by (simp_all only: xstrconcat3_def xstrconcat4_def)
qed

definition listed :: "opt_row \<Rightarrow> bool" where
  "listed om \<longleftrightarrow> \<not> om_skip om \<and> \<not> om_inv om \<and> om_mask om \<noteq> 0"

definition shown :: "mount_flags \<Rightarrow> opt_row \<Rightarrow> bool" where
  "shown flags om \<longleftrightarrow> listed om \<and> flags AND om_mask om = om_mask om"

definition apart :: "opt_row \<Rightarrow> opt_row \<Rightarrow> bool" where
  "apart a b \<longleftrightarrow> om_mask a AND om_mask b = 0"

lemma masked_apart:
  fixes f a b :: mount_flags
  assumes "a AND b = 0"
  shows "(f AND NOT a) AND b = f AND b"
  using assms by (auto simp: bit_eq_iff bit_simps)

lemma flag_names_run:
  assumes "memory_ok E" and "sorted_wrt apart (filter listed oms)"
  shows "\<exists>t. flag_names E oms flags pre s =
     (Ret (pre @ concat (map (\<lambda>om. CHR '','' # om_opt om) (filter (shown flags) oms))), s\<lparr>trace := t\<rparr>)"
  using assms(2)
proof (induction oms arbitrary: flags pre s)
  case Nil
  show ?case by (rule exI [of _ "trace s"]) simp
next
  case (Cons om oms)
  show ?case
  proof (cases "shown flags om")
    case False
    then have "flag_names E (om # oms) flags pre s = flag_names E oms flags pre s" by (auto simp: shown_def listed_def)
    moreover have "sorted_wrt apart (filter listed oms)" using Cons.prems by (cases "listed om") simp_all
    ultimately show ?thesis using Cons.IH [of flags pre s] False by (simp del: flag_names.simps)
  next
    case True
    then have om: "listed om" by (simp add: shown_def)
    have same: "filter (shown (flags AND NOT (om_mask om))) oms = filter (shown flags) oms"
      using Cons.prems om
      by (intro filter_cong) (auto simp: shown_def apart_def masked_apart)
    obtain t where "xstrconcat3 E (Some pre) (Some '','') (Some (om_opt om)) s =
        (Ret (pre @ CHR '','' # om_opt om), s\<lparr>trace := t\<rparr>)"
      using xstrconcat_runs(1) [OF assms(1), of "Some pre" "Some '',''" "Some (om_opt om)" s] by (auto simp: str_or_empty_def)
    moreover have "sorted_wrt apart (filter listed oms)" using Cons.prems om by simp
    from Cons.IH [OF this, of "flags AND NOT (om_mask om)" "pre @ CHR '','' # om_opt om" "s\<lparr>trace := t\<rparr>"] same
    obtain t' where "flag_names E oms (flags AND NOT (om_mask om)) (pre @ CHR '','' # om_opt om) (s\<lparr>trace := t\<rparr>) =
        (Ret (pre @ CHR '','' # om_opt om @ concat (map (\<lambda>om. CHR '','' # om_opt om) (filter (shown flags) oms))),
         s\<lparr>trace := t'\<rparr>)"
      by auto
    moreover have "\<not> (om_skip om \<or> om_inv om \<or> om_mask om = 0 \<or> flags AND om_mask om \<noteq> om_mask om)"
      using True by (simp add: shown_def listed_def)
    ultimately show ?thesis using True by (auto simp: bind_apply_Ret)
  qed
qed


definition string_tokens :: "'s string_opt_row list \<Rightarrow> 's mount_state_scheme \<Rightarrow> string list" where
  "string_tokens ms s =
     concat (map (\<lambda>m. if so_skip m then [] else case so_get m s of None \<Rightarrow> [] | Some v \<Rightarrow> [so_tag m @ v]) ms)"

lemma string_names_run:
  assumes "memory_ok E" and "\<forall>m \<in> set ms. \<forall>s t. so_get m (s\<lparr>trace := t\<rparr>) = so_get m s"
  shows "\<exists>t. string_names E ms pre s =
     (Ret (pre @ concat (map (\<lambda>u. CHR '','' # u) (string_tokens ms s))), s\<lparr>trace := t\<rparr>)"
  using assms(2)
proof (induction ms arbitrary: pre s)
  case Nil
  show ?case by (rule exI [of _ "trace s"]) (simp add: string_tokens_def)
next
  case (Cons m ms)
  then have IH: "\<exists>t. string_names E ms pre s =
      (Ret (pre @ concat (map (\<lambda>u. CHR '','' # u) (string_tokens ms s))), s\<lparr>trace := t\<rparr>)" for pre s by simp
  have inv: "string_tokens ms (s\<lparr>trace := t\<rparr>) = string_tokens ms s" for t
    using Cons.prems unfolding string_tokens_def by (intro arg_cong [where f = concat] map_cong) auto
  show ?case
  proof (cases "\<not> so_skip m \<and> so_get m s \<noteq> None")
    case False
    then have "string_names E (m # ms) pre s = string_names E ms pre s" "string_tokens (m # ms) s = string_tokens ms s"
      by (auto simp: string_tokens_def)
    with IH [of pre s] show ?thesis by (simp del: string_names.simps)
  next
    case True
    then obtain x where x: "so_get m s = Some x" by auto
    let ?v = "CHR '','' # so_tag m @ x"
    obtain t where 1: "xstrconcat4 E (Some pre) (Some '','') (Some (so_tag m)) (Some x) s = (Ret (pre @ ?v), s\<lparr>trace := t\<rparr>)"
      using xstrconcat_runs(2) [OF assms(1), of "Some pre" "Some '',''" "Some (so_tag m)" "Some x" s]
      by (auto simp: str_or_empty_def)
    obtain t' where "string_names E ms (pre @ ?v) (s\<lparr>trace := t\<rparr>) =
        (Ret ((pre @ ?v) @ concat (map (\<lambda>u. CHR '','' # u) (string_tokens ms s))), s\<lparr>trace := t'\<rparr>)"
      using IH [of "pre @ ?v" "s\<lparr>trace := t\<rparr>"] inv by auto
    with True x 1 show ?thesis by (auto simp: bind_apply_Ret string_tokens_def)
  qed
qed

text \<open>A token that the parser knows only as an unknown option.\<close>

definition string_tags :: "string list" where
  "string_tags = [''loop='', ''vfs='', ''offset='', ''encryption='']"

definition other_token :: "string \<Rightarrow> bool" where
  "other_token t \<longleftrightarrow> plain_token t \<and> t \<notin> om_opt ` set opt_map \<and>
     \<not> list_ex (\<lambda>tag. is_prefix tag t) string_tags"

lemma fix_opts_string_run:
  assumes "memory_ok E" and "list_all other_token toks"
  shows "\<exists>t. fix_opts_string E flags (Some (join_opts toks)) s =
     (Ret (join_opts ([if flags AND MS_RDONLY \<noteq> 0 then ''ro'' else ''rw''] @
        map om_opt (filter (shown flags) opt_map) @ string_tokens string_opt_map s @ toks)), s\<lparr>trace := t\<rparr>)"
proof -
  let ?r = "[if flags AND MS_RDONLY \<noteq> 0 then ''ro'' else ''rw'']"
  let ?n = "map om_opt (filter (shown flags) opt_map)"
  let ?v = "string_tokens string_opt_map s"
  have "sorted_wrt apart (filter listed opt_map)"
    by (simp add: opt_map_def row_def listed_def apart_def ms_bits)
  from flag_names_run [OF assms(1) this, of flags "hd ?r" s]
  obtain t where 1: "flag_names E opt_map flags (hd ?r) s = (Ret (join_opts (?r @ ?n)), s\<lparr>trace := t\<rparr>)"
    by (auto simp: comp_def)
  have "\<forall>m \<in> set string_opt_map. \<forall>(s :: 'a mount_state_scheme) t. so_get m (s\<lparr>trace := t\<rparr>) = so_get m s"
    by (simp add: string_opt_map_def)
  from string_names_run [OF assms(1) this, of "join_opts (?r @ ?n)" "s\<lparr>trace := t\<rparr>"]
  obtain t' where 2: "string_names E string_opt_map (join_opts (?r @ ?n)) (s\<lparr>trace := t\<rparr>) =
      (Ret (join_opts (?r @ ?n @ ?v)), s\<lparr>trace := t'\<rparr>)"
    by (auto simp: string_opt_map_def string_tokens_def)
  show ?thesis
  proof (cases toks)
    case Nil
    with 1 2 show ?thesis by (auto simp: fix_opts_string_def bind_apply_Ret)
  next
    case (Cons u us)
    with assms(2) have "join_opts toks \<noteq> []" by (simp add: other_token_def plain_token_def)
    moreover obtain t'' where "xstrconcat3 E (Some (join_opts (?r @ ?n @ ?v))) (Some '','') (Some (join_opts toks)) (s\<lparr>trace := t'\<rparr>) =
        (Ret (join_opts (?r @ ?n @ ?v @ toks)), s\<lparr>trace := t''\<rparr>)"
      using xstrconcat_runs(1) [OF assms(1), of "Some (join_opts (?r @ ?n @ ?v))" "Some '',''" "Some (join_opts toks)" "s\<lparr>trace := t'\<rparr>"]
      by (auto simp: str_or_empty_def Cons)
    ultimately show ?thesis using 1 2 by (auto simp: fix_opts_string_def bind_apply_Ret)
  qed
qed


lemma find_by_name:
  "\<lbrakk>om \<in> set oms; distinct (map om_opt oms)\<rbrakk> \<Longrightarrow> find (\<lambda>r. om_opt om = om_opt r) oms = Some om"
  by (induction oms) (auto simp: image_iff)

lemma distinct_names: "distinct (map om_opt opt_map)"
  by (simp add: opt_map_def row_def)

lemmas find_row = find_by_name [OF _ distinct_names]

lemma row_no_string:
  assumes "om \<in> set opt_map"
  shows "parse_string_opt E (om_opt om) = ret False"
proof -
  have "list_all (\<lambda>om. \<not> list_ex (\<lambda>tag. is_prefix tag (om_opt om)) string_tags) opt_map"
    by (simp add: opt_map_def row_def string_tags_def)
  with assms have "\<not> list_ex (\<lambda>tag. is_prefix tag (om_opt om)) string_tags" by (simp add: list_all_iff)
  then show ?thesis by (simp add: parse_string_opt_def string_opt_map_def string_tags_def)
qed

lemma parse_rows:
  "\<lbrakk>set oms \<subseteq> set opt_map; \<forall>om \<in> set oms. om_mask om = MS_SILENT \<longrightarrow> \<not> om_inv om\<rbrakk> \<Longrightarrow>
     parse_tokens E (map om_opt oms @ rest) fl extra s = parse_tokens E rest (fold apply_row oms fl) extra s"
  by (induction oms arbitrary: fl) (auto simp: row_no_string parse_opt_def find_row)

lemma parse_others:
  "list_all other_token toks \<Longrightarrow>
     parse_tokens E toks fl (join_opts acc) s = (Ret (fl, join_opts (acc @ toks)), s)"
  if "list_all plain_token acc"
  using that
proof (induction toks arbitrary: acc)
  case (Cons t toks)
  then have t: "plain_token t" "t \<notin> om_opt ` set opt_map" by (simp_all add: other_token_def)
  then have "find (\<lambda>om. t = om_opt om) opt_map = None" by (auto simp: find_None_iff)
  then have "parse_opt t fl (join_opts acc) s =
      (Ret (fl, join_opts acc @ (if join_opts acc = [] then [] else '','') @ t), s)"
    by (simp add: parse_opt_def)
  moreover have "parse_string_opt E t s = (Ret False, s)"
    using Cons.prems by (simp add: other_token_def parse_string_opt_def string_opt_map_def string_tags_def)
  moreover have "join_opts acc @ (if join_opts acc = [] then [] else '','') @ t = join_opts (acc @ [t])"
    using Cons.prems(2) join_snoc [of acc t] by (auto simp: join_eq_Nil)
  moreover have "list_all plain_token (acc @ [t])" using Cons.prems(2) t by simp
  ultimately show ?case using Cons.prems(1) Cons.IH [of "acc @ [t]"] 
    by (simp add: bind_apply_Ret [of "parse_string_opt E t" s False s] bind_apply_Ret [of "parse_opt t fl (join_opts acc)" s])
qed simp

lemma parse_string_token:
  assumes "memory_ok E" and "m \<in> set string_opt_map"
  shows "\<exists>t. parse_tokens E ((so_tag m @ v) # rest) fl extra s = parse_tokens E rest fl extra (so_set m (Some v) (s\<lparr>trace := t\<rparr>))"
  using assms(2) xstrdup_run [OF assms(1), of v s]
  by (auto simp: string_opt_map_def parse_string_opt_def bind_apply_Ret proc_assoc)


section \<open>The round trip\<close>

text \<open>The flags an entry of mtab can show.\<close>

definition MS_SHOWN :: mount_flags where
  "MS_SHOWN = fold (OR) (map om_mask (filter listed opt_map)) MS_RDONLY"

lemma bit_fold_or:
  fixes m :: mount_flags
  shows "bit (fold (OR) ms m) n \<longleftrightarrow> bit m n \<or> (\<exists>x \<in> set ms. bit x n)"
  by (induction ms arbitrary: m) (auto simp: bit_simps)

lemma bit_fold_rows:
  "\<forall>om \<in> set oms. \<not> om_inv om \<Longrightarrow>
     bit (fold apply_row oms fl) n \<longleftrightarrow>
       bit fl n \<or> (\<exists>om \<in> set oms. bit (om_mask om) n \<or> om_mask om = MS_USER \<and> bit MS_SECURE n)"
  by (induction oms arbitrary: fl) (auto simp: apply_row_def Let_def bit_simps)

lemma listed_masks: "map om_mask (filter listed opt_map) = map (\<lambda>k. 2 ^ k) [3, 1, 2, 4, 5, 31, 30, 15, 6, 10, 11]"
  by (simp add: opt_map_def row_def listed_def ms_bits)

lemma listed_single_bit:
  assumes "om \<in> set opt_map" and "listed om"
  obtains k where "k < 32" and "om_mask om = 2 ^ k"
proof -
  from assms have "om_mask om \<in> set (map om_mask (filter listed opt_map))" by simp
  then obtain k :: nat where "om_mask om = 2 ^ k" "k \<in> set [3, 1, 2, 4, 5, 31, 30, 15, 6, 10, 11]"
    unfolding listed_masks set_map by (rule imageE)
  moreover from this(2) have "k < 32" by auto
  ultimately show ?thesis by (rule_tac that)
qed

lemma single_bit_and:
  fixes f :: mount_flags
  assumes "k < 32"
  shows "f AND 2 ^ k = 2 ^ k \<longleftrightarrow> bit f k"
  using assms by (auto simp: bit_eq_iff [where 'a = "32 word"] bit_simps)

lemma flags_rebuilt:
  assumes "flags AND NOT MS_SHOWN = 0" and "flags AND MS_USER = MS_USER \<longrightarrow> flags AND MS_SECURE = MS_SECURE"
  shows "fold apply_row (filter (shown flags) opt_map) (if flags AND MS_RDONLY \<noteq> 0 then MS_RDONLY else 0) = flags"
proof (rule bit_word_eqI)
  fix n
  assume n: "n < LENGTH(32)"
  let ?oms = "filter (shown flags) opt_map"
  have ro: "bit (if flags AND MS_RDONLY \<noteq> 0 then MS_RDONLY else 0) n \<longleftrightarrow> n = 0 \<and> bit flags 0"
    using n by (auto simp: MS_RDONLY_def bit_simps and_one_eq bit_0 odd_iff_mod_2_eq_one)
  have *: "bit (fold apply_row ?oms (if flags AND MS_RDONLY \<noteq> 0 then MS_RDONLY else 0)) n \<longleftrightarrow>
     n = 0 \<and> bit flags 0 \<or> (\<exists>om \<in> set ?oms. bit (om_mask om) n \<or> om_mask om = MS_USER \<and> bit MS_SECURE n)"
    by (subst bit_fold_rows) (auto simp: shown_def listed_def ro)
  have sub: "bit flags n" if "om \<in> set ?oms" "bit (om_mask om) n \<or> om_mask om = MS_USER \<and> bit MS_SECURE n" for om
  proof -
    from that(1) have "flags AND om_mask om = om_mask om" by (simp add: shown_def)
    with that(2) assms(2) show ?thesis by (metis bit_and_iff)
  qed
  have sup: "n = 0 \<or> (\<exists>om \<in> set ?oms. bit (om_mask om) n)" if "bit flags n"
  proof -
    from that assms(1) n have "bit MS_SHOWN n" by (auto simp: bit_eq_iff bit_simps)
    then consider "bit MS_RDONLY n" | om where "om \<in> set opt_map" "listed om" "bit (om_mask om) n"
      by (auto simp: MS_SHOWN_def bit_fold_or)
    then show ?thesis
    proof cases
      case 1
      then show ?thesis by (auto simp: MS_RDONLY_def bit_simps)
    next
      case 2
      then obtain k where "k < 32" "om_mask om = 2 ^ k" by (rule_tac listed_single_bit)
      with 2 that n have "shown flags om" by (auto simp: shown_def single_bit_and bit_simps)
      with 2 show ?thesis by auto
    qed
  qed
  show "bit (fold apply_row ?oms (if flags AND MS_RDONLY \<noteq> 0 then MS_RDONLY else 0)) n \<longleftrightarrow> bit flags n"
    using * sub sup by blast
qed


lemma string_token_run:
  assumes "memory_ok E" and "m \<in> set string_opt_map"
    and v: "v = None \<Longrightarrow> so_get m s = None \<and> so_set m None s = s"
  shows "\<exists>t. parse_tokens E ((case v of None \<Rightarrow> [] | Some x \<Rightarrow> [so_tag m @ x]) @ rest) fl extra s =
     parse_tokens E rest fl extra (so_set m v (s\<lparr>trace := t\<rparr>))"
proof (cases v)
  case None
  with v have "so_set m v (s\<lparr>trace := trace s\<rparr>) = s" by simp
  with None have "parse_tokens E ((case v of None \<Rightarrow> [] | Some x \<Rightarrow> [so_tag m @ x]) @ rest) fl extra s =
     parse_tokens E rest fl extra (so_set m v (s\<lparr>trace := trace s\<rparr>))" by simp
  then show ?thesis by blast
next
  case (Some x)
  then show ?thesis using parse_string_token [OF assms(1,2), of x rest fl extra s] by (simp del: parse_tokens.simps)
qed

lemma parse_strings:
  assumes "memory_ok E" and s0: "opt_loopdev s0 = None" "opt_offset s0 = None" "opt_encryption s0 = None"
  shows "\<exists>t. parse_tokens E (string_tokens string_opt_map s @ rest) fl extra s0 =
     parse_tokens E rest fl extra (s0\<lparr>trace := t, opt_loopdev := opt_loopdev s, opt_offset := opt_offset s,
       opt_encryption := opt_encryption s\<rparr>)"
proof -
  let ?tok = "\<lambda>m :: 'a string_opt_row. \<lambda>v. case v of None \<Rightarrow> [] | Some x \<Rightarrow> [so_tag m @ x]"
  define m1 :: "'a string_opt_row" where "m1 = string_opt_map ! 0"
  define m2 :: "'a string_opt_row" where "m2 = string_opt_map ! 2"
  define m3 :: "'a string_opt_row" where "m3 = string_opt_map ! 3"
  have ms: "m1 \<in> set string_opt_map" "m2 \<in> set string_opt_map" "m3 \<in> set string_opt_map"
    unfolding m1_def m2_def m3_def by (rule nth_mem, simp add: string_opt_map_def)+
  have toks: "string_tokens string_opt_map s @ rest =
      ?tok m1 (opt_loopdev s) @ ?tok m2 (opt_offset s) @ ?tok m3 (opt_encryption s) @ rest"
    by (cases "opt_loopdev s"; cases "opt_offset s"; cases "opt_encryption s")
      (simp_all add: string_tokens_def m1_def m2_def m3_def string_opt_map_def)
  obtain t1 where 1: "parse_tokens E (?tok m1 (opt_loopdev s) @ ?tok m2 (opt_offset s) @ ?tok m3 (opt_encryption s) @ rest)
        fl extra s0 =
      parse_tokens E (?tok m2 (opt_offset s) @ ?tok m3 (opt_encryption s) @ rest) fl extra
        (so_set m1 (opt_loopdev s) (s0\<lparr>trace := t1\<rparr>))"
    using string_token_run [OF assms(1) ms(1), of "opt_loopdev s" s0 "?tok m2 (opt_offset s) @ ?tok m3 (opt_encryption s) @ rest" fl extra] s0(1) by (auto simp: m1_def string_opt_map_def)
  let ?s1 = "s0\<lparr>trace := t1, opt_loopdev := opt_loopdev s\<rparr>"
  obtain t2 where 2: "parse_tokens E (?tok m2 (opt_offset s) @ ?tok m3 (opt_encryption s) @ rest) fl extra ?s1 =
      parse_tokens E (?tok m3 (opt_encryption s) @ rest) fl extra (so_set m2 (opt_offset s) (?s1\<lparr>trace := t2\<rparr>))"
    using string_token_run [OF assms(1) ms(2), of "opt_offset s" ?s1 "?tok m3 (opt_encryption s) @ rest" fl extra] s0(2) by (auto simp: m2_def string_opt_map_def)
  let ?s2 = "?s1\<lparr>trace := t2, opt_offset := opt_offset s\<rparr>"
  obtain t3 where 3: "parse_tokens E (?tok m3 (opt_encryption s) @ rest) fl extra ?s2 =
      parse_tokens E rest fl extra (so_set m3 (opt_encryption s) (?s2\<lparr>trace := t3\<rparr>))"
    using string_token_run [OF assms(1) ms(3), of "opt_encryption s" ?s2 rest fl extra] s0(3) by (auto simp: m3_def string_opt_map_def)
  have sets: "so_set m1 = (\<lambda>v s. s\<lparr>opt_loopdev := v\<rparr>)" "so_set m2 = (\<lambda>v s. s\<lparr>opt_offset := v\<rparr>)"
    "so_set m3 = (\<lambda>v s. s\<lparr>opt_encryption := v\<rparr>)"
    by (simp_all add: m1_def m2_def m3_def string_opt_map_def)
  from 1 2 3 show ?thesis unfolding toks sets by (auto simp: trace_inner simp del: parse_tokens.simps)
qed


lemma string_tokens_plain:
  assumes "list_all (\<lambda>v. CHR '','' \<notin> set (str_or_empty v)) [opt_loopdev s, opt_offset s, opt_encryption s]"
  shows "list_all plain_token (string_tokens string_opt_map s)"
  using assms
  by (cases "opt_loopdev s"; cases "opt_offset s"; cases "opt_encryption s")
    (simp_all add: string_tokens_def string_opt_map_def plain_token_def str_or_empty_def)



section \<open>The buffer of the unknown options\<close>

lemma parse_opts_yields:
  assumes "yields (\<lambda>(fl, e). P fl e) (parse_tokens E (strtok_all (CHR '','') opts) 0 [] :: ('s mount_state_scheme, mount_flags \<times> string) proc)"
    and "\<And>fl e. P fl e \<Longrightarrow> P (fl OR MS_RDONLY) e" and "\<And>fl e. P fl e \<Longrightarrow> P (fl AND NOT MS_RDONLY) e"
  shows "yields (\<lambda>(fl, x). \<exists>e. x = Some e \<and> P fl e) (parse_opts E (Some opts) :: ('s mount_state_scheme, mount_flags \<times> string option) proc)"
proof -
  let ?Q = "\<lambda>(fl, x). \<exists>e. x = Some e \<and> P fl e"
  have "yields ?Q (bind (parse_tokens E (strtok_all (CHR '','') opts) 0 [] :: ('s mount_state_scheme, mount_flags \<times> string) proc) (\<lambda>(flags, extra). ret (flags, Some extra)))"
    using assms(1) by (rule yields_bind_strong) (auto simp: yields_def)
  then have "yields ?Q (bind (xmalloc E (int (length opts) + 1)) (\<lambda>_.
      bind (parse_tokens E (strtok_all (CHR '','') opts) 0 [] :: ('s mount_state_scheme, mount_flags \<times> string) proc) (\<lambda>(flags, extra). ret (flags, Some extra))))"
    by (rule yields_bind)
  then show ?thesis
    unfolding parse_opts_def option.case
    by (intro yields_andthen) (erule yields_bind_strong, auto simp: Let_def yields_def intro!: assms(2,3))
qed

lemma strtok_weight:
  "sum_list (map (\<lambda>x. length x + 1) (strtok_all c s)) \<le> length (dropWhile (\<lambda>x. x = c) s) + 1"
proof (induction c s rule: strtok_all.induct)
  case (1 c s)
  define s' where "s' = dropWhile (\<lambda>x. x = c) s"
  define rest where "rest = dropWhile (\<lambda>x. x \<noteq> c) s'"
  show ?case
  proof (cases "s' = []")
    case True
    then have "strtok_all c s = []" by (subst strtok_all.simps) (simp add: s'_def)
    then show ?thesis by simp
  next
    case False
    then have tok: "strtok_all c s = takeWhile (\<lambda>x. x \<noteq> c) s' # strtok_all c rest"
      by (subst strtok_all.simps) (simp add: s'_def [symmetric] rest_def Let_def)
    have len: "length s' = length (takeWhile (\<lambda>x. x \<noteq> c) s') + length rest"
      by (simp only: rest_def length_append [symmetric] takeWhile_dropWhile_id)
    have IH: "sum_list (map (\<lambda>x. length x + 1) (strtok_all c rest)) \<le> length (dropWhile (\<lambda>x. x = c) rest) + 1"
      using "1.IH" [OF s'_def False] by (simp only: rest_def)
    have "sum_list (map (\<lambda>x. length x + 1) (strtok_all c rest)) \<le> length rest"
    proof (cases rest)
      case Nil
      then show ?thesis by (simp add: strtok_empty)
    next
      case (Cons y r)
      then have "y = c" using hd_dropWhile [of "\<lambda>x. x \<noteq> c" s'] by (simp add: rest_def)
      with Cons IH show ?thesis using length_dropWhile_le [of "\<lambda>x. x = c" r] by simp
    qed
    with tok len show ?thesis by (simp add: s'_def)
  qed
qed

text \<open>The room that an option string takes, with the comma that must precede a further option.\<close>

definition room :: "string \<Rightarrow> nat" where
  "room e = (if e = [] then 0 else length e + 1)"

lemma parse_tokens_room:
  "yields (\<lambda>(fl', e'). room e' \<le> room e + sum_list (map (\<lambda>x. length x + 1) toks)) (parse_tokens E toks fl e :: ('s mount_state_scheme, mount_flags \<times> string) proc)"
proof (induction toks arbitrary: fl e)
  case (Cons t toks)
  let ?Q = "\<lambda>(fl', e'). room e' \<le> room e + sum_list (map (\<lambda>x. length x + 1) (t # toks))"
  have *: "yields (\<lambda>(fl', e'). room e' \<le> room e + length t + 1) (parse_opt t fl e :: ('s mount_state_scheme, mount_flags \<times> string) proc)"
    unfolding parse_opt_def by (intro yields_intro) (simp_all add: room_def)
  have **: "yields ?Q (parse_tokens E toks fl' e' :: ('s mount_state_scheme, mount_flags \<times> string) proc)" if "room e' \<le> room e + length t + 1" for fl' e'
    using Cons.IH [of e' fl'] by (rule yields_mono) (use that in auto)
  from * have A: "yields ?Q (bind (parse_opt t fl e :: ('s mount_state_scheme, mount_flags \<times> string) proc) (\<lambda>(fl', e'). parse_tokens E toks fl' e'))"
    by (rule yields_bind_strong) (use ** in auto)
  have B: "yields ?Q (parse_tokens E toks fl e :: ('s mount_state_scheme, mount_flags \<times> string) proc)"
    using Cons.IH [of e fl] by (rule yields_mono) auto
  show ?case unfolding parse_tokens.simps by (rule yields_bind, rule yields_if) (rule B, rule A)
qed (simp add: yields_def)

text \<open>The unknown options that \<open>parse_opts\<close> collects fit the buffer of the length of the option string that it
  allocates for them, so the unchecked \<open>strcat\<close> calls stay within it.\<close>

lemma extra_opts_fit:
  assumes "parse_opts E (Some opts) s = (Ret (flags, extra), s')"
  shows "\<exists>e. extra = Some e \<and> length e \<le> length opts"
proof -
  have "sum_list (map (\<lambda>x. length x + 1) (strtok_all (CHR '','') opts)) \<le> length opts + 1"
    using strtok_weight [of "CHR '',''" opts] length_dropWhile_le [of "\<lambda>x. x = CHR '',''" opts] by linarith
  then have "yields (\<lambda>(fl, e). length e \<le> length opts) (parse_tokens E (strtok_all (CHR '','') opts) 0 [])"
    by (intro yields_mono [OF parse_tokens_room]) (auto simp: room_def split: if_splits)
  from yieldsD [OF parse_opts_yields [OF this] assms] show ?thesis by simp
qed

text \<open>A property of the flags that every option on the list keeps holds of the parsed flags.\<close>

lemma parse_tokens_flags:
  assumes "\<And>om fl. \<lbrakk>om \<in> set opt_map; om_opt om \<in> set toks; P fl\<rbrakk> \<Longrightarrow> P (apply_row om fl)" and "P fl"
  shows "yields (\<lambda>(fl', e'). P fl') (parse_tokens E toks fl e :: ('s mount_state_scheme, mount_flags \<times> string) proc)"
  using assms
proof (induction toks arbitrary: fl e)
  case (Cons t toks)
  let ?Q = "\<lambda>(fl', e'). P fl'"
  have "yields ?Q (parse_opt t fl e :: ('s mount_state_scheme, mount_flags \<times> string) proc)"
  proof (cases "find (\<lambda>om. t = om_opt om) opt_map")
    case None
    with Cons.prems show ?thesis by (simp add: parse_opt_def yields_ret)
  next
    case (Some om)
    then have "om \<in> set opt_map" "t = om_opt om" by (auto simp: find_Some_iff)
    then have "P (apply_row om fl)" using Cons.prems by simp
    with Some show ?thesis by (simp add: parse_opt_def yields_andthen yields_ret)
  qed
  then have A: "yields ?Q (bind (parse_opt t fl e :: ('s mount_state_scheme, mount_flags \<times> string) proc) (\<lambda>(fl', e'). parse_tokens E toks fl' e'))"
    by (rule yields_bind_strong) (use Cons in auto)
  have B: "yields ?Q (parse_tokens E toks fl e :: ('s mount_state_scheme, mount_flags \<times> string) proc)" using Cons by simp
  show ?case unfolding parse_tokens.simps by (rule yields_bind, rule yields_if) (rule B, rule A)
qed (simp add: yields_def)

definition option_tokens :: "string option \<Rightarrow> string list" where
  "option_tokens opts = (case opts of None \<Rightarrow> [] | Some t \<Rightarrow> strtok_all (CHR '','') t)"

lemma parse_opts_flags:
  assumes "\<And>om fl. \<lbrakk>om \<in> set opt_map; om_opt om \<in> set (option_tokens opts); P fl\<rbrakk> \<Longrightarrow> P (apply_row om fl)"
    and "P 0" and "\<And>fl. P fl \<Longrightarrow> P (fl OR MS_RDONLY)" and "\<And>fl. P fl \<Longrightarrow> P (fl AND NOT MS_RDONLY)"
  shows "yields (\<lambda>(fl, e). P fl) (parse_opts E opts :: ('s mount_state_scheme, mount_flags \<times> string option) proc)"
proof (cases opts)
  case None
  show ?thesis
    unfolding parse_opts_def None option.case bind_ret prod.case Let_def
    by (intro yields_andthen yields_bind yields_ret) (use assms(2-4) assms(3) [OF assms(2)] in auto)
next
  case (Some t)
  then have "yields (\<lambda>(fl, e). P fl) (parse_tokens E (strtok_all (CHR '','') t) 0 [] :: ('s mount_state_scheme, mount_flags \<times> string) proc)"
    using assms(1,2) by (intro parse_tokens_flags) (simp_all add: option_tokens_def)
  then have "yields (\<lambda>(fl, x). \<exists>e. x = Some e \<and> P fl) (parse_opts E opts :: ('s mount_state_scheme, mount_flags \<times> string option) proc)"
    unfolding Some by (rule parse_opts_yields) (use assms(3,4) in auto)
  then show ?thesis by (rule yields_mono) auto
qed

section \<open>The renamed options\<close>

lemma nosuid_kept:
  assumes "om \<in> set opt_map" and "om_opt om \<notin> {''nomount_suid'', ''user'', ''nouser''}" and "fl AND MS_NOSUID = 0"
  shows "apply_row om fl AND MS_NOSUID = 0"
proof -
  have "list_all (\<lambda>om. om_opt om \<in> {''nomount_suid'', ''user'', ''nouser''} \<or> om_inv om \<and> om_mask om \<noteq> MS_USER \<or>
      om_mask om \<noteq> MS_USER \<and> om_mask om AND MS_NOSUID = 0) opt_map"
    by (simp add: opt_map_def row_def ms_bits)
  with assms(1,2) have "om_mask om \<noteq> MS_USER \<and> (om_inv om \<or> om_mask om AND MS_NOSUID = 0)" by (auto simp: list_all_iff)
  with assms(3) show ?thesis by (auto simp: apply_row_def Let_def bit_eq_iff bit_simps)
qed


end
