(* ===== verification/Lomount.thy ===== *)
theory Lomount
  imports Umount Progress
begin

text \<open>
  The set-up of loop devices in \<^verbatim>\<open>src/lomount.c\<close>, as built with the loop support of the kernel headers
  (\<open>LOOP_SET_FD\<close> is defined). The structure that describes a loop device is handed to the kernel as the list of
  its numbers (encryption type, offset, key size and the two words of the initial vector) and the list of its strings
  (name and key).
\<close>

section \<open>Finding a free device\<close>

definition S_ISBLK :: "int \<Rightarrow> bool" where "S_ISBLK m \<longleftrightarrow> m AND 61440 = 24576"
definition EROFS :: int where "EROFS = 30"

definition PROC_DEVICES :: string where "PROC_DEVICES = ''/proc/devices''"

definition loop_dev :: "nat \<Rightarrow> string" where
  "loop_dev i = ''/dev/loop'' @ show_nat i"

text \<open>The loop over the device numbers, with the devices and the loop devices seen so far.\<close>

fun probe_loops :: "env \<Rightarrow> nat list \<Rightarrow> nat \<Rightarrow> nat \<Rightarrow> ('s mnt_state_scheme, string option \<times> nat \<times> nat) proc" where
  "probe_loops E [] somedev someloop = ret (None, somedev, someloop)"
| "probe_loops E (i # is) somedev someloop =
     bind (fsys E (Stat (loop_dev i))) (\<lambda>st.
     if rv st = 0 \<and> S_ISBLK (v1 st) then
       bind (fsys E (Open (loop_dev i) O_RDONLY)) (\<lambda>fd.
       if rv fd \<ge> 0 then
         bind (ssys E (Loop_get_status (rv fd))) (\<lambda>g.
         if rv g = 0 then
           andthen (do_sys E (FileCall (Close (rv fd)))) (probe_loops E is (somedev + 1) (someloop + 1))
         else if err g = ENXIO then
           andthen (do_sys E (FileCall (Close (rv fd))))
           (bind (xstrdup E (Some (loop_dev i))) (\<lambda>d. ret (d, somedev + 1, someloop)))
         else
           andthen (do_sys E (FileCall (Close (rv fd)))) (probe_loops E is (somedev + 1) someloop))
       else probe_loops E is (somedev + 1) someloop)
     else if 7 \<le> i then ret (None, somedev, someloop)
     else probe_loops E is somedev someloop)"

text \<open>Whether the kernel lists the driver: 1 and -1 for yes and no, 0 when the list cannot be read.\<close>

definition loop_driver :: "env \<Rightarrow> ('s mnt_state_scheme, int) proc" where
  "loop_driver E =
     bind (fsys E (Fopen PROC_DEVICES ''r'')) (\<lambda>r.
     if rv r = 0 then ret 0
     else
       andthen (do_sys E (FileCall (Fclose (rv r))))
       (ret (if list_ex (\<lambda>l. strstr (cstr l) ('' loop'' @ [CHR 0x0A]) \<noteq> None) (stream_lines 100 r) then 1 else - 1)))"

definition find_unused_loop_device :: "env \<Rightarrow> ('s mnt_state_scheme, string option) proc" where
  "find_unused_loop_device E =
     bind (probe_loops E [0..<256] 0 0) (\<lambda>(dev, somedev, someloop).
     case dev of
       Some d \<Rightarrow> ret (Some d)
     | None \<Rightarrow>
         bind (loop_driver E) (\<lambda>loop_known.
         andthen
           (if somedev = 0 then error_msg E ''mount: could not find any device /dev/loop#'' []
            else if someloop = 0 then
              if loop_known = 1 then
                error_msg E ''mount: Could not find any loop device. Maybe /dev/loop# has a wrong major number?'' []
              else if loop_known = - 1 then
                error_msg E ''mount: Could not find any loop device, and, according to %s, this kernel does not know about the loop device. (If so, then recompile or `insmod loop.o'.)''
                  [AStr PROC_DEVICES]
              else
                error_msg E ''mount: Could not find any loop device. Maybe this kernel does not know about the loop device (then recompile or `insmod loop.o'), or maybe /dev/loop# has the wrong major number?'' []
            else error_msg E ''mount: could not find any free loop device'' [])
         (ret None)))"

section \<open>Setting up a device\<close>

definition LO_CRYPT_NONE :: int where "LO_CRYPT_NONE = 0"
definition LO_CRYPT_XOR :: int where "LO_CRYPT_XOR = 1"
definition LO_CRYPT_DES :: int where "LO_CRYPT_DES = 2"
definition LO_NAME_SIZE :: nat where "LO_NAME_SIZE = 64"
definition LO_KEY_SIZE :: nat where "LO_KEY_SIZE = 32"

lemmas lo_crypt = LO_CRYPT_NONE_def LO_CRYPT_XOR_def LO_CRYPT_DES_def

definition crypt_type_tbl :: "(int \<times> string) list" where
  "crypt_type_tbl = [(LO_CRYPT_NONE, ''no''), (LO_CRYPT_NONE, ''none''), (LO_CRYPT_XOR, ''xor''), (LO_CRYPT_DES, ''DES'')]"

definition crypt_type :: "string option \<Rightarrow> int" where
  "crypt_type name =
     (case name of
        None \<Rightarrow> - 1
      | Some n \<Rightarrow> (case find (\<lambda>(i, t). strcaseeq n t) crypt_type_tbl of None \<Rightarrow> - 1 | Some (i, _) \<Rightarrow> i))"

definition isxdigit :: "char \<Rightarrow> bool" where
  "isxdigit c \<longleftrightarrow> isdigit c \<or> (let n = of_char (toascii_lower c) :: nat in 97 \<le> n \<and> n \<le> 102)"

definition hex_val :: "char \<Rightarrow> int" where
  "hex_val c = (if isdigit c then digit_val c else of_char (toascii_lower c) - 97 + 10)"

text \<open>The digits of the initial vector go into two 64-bit words, the first digit lowest. A digit is shifted as an
  \<open>int\<close> and then converted, so its sign bit is extended.\<close>

fun des_init :: "nat \<Rightarrow> string \<Rightarrow> int list \<Rightarrow> char + int list" where
  "des_init i [] lo_init = Inr lo_init"
| "des_init i (c # cs) lo_init =
     (if 16 \<le> i then Inr lo_init
      else if isxdigit c then
        des_init (i + 1) cs
          (lo_init[i div 8 := (lo_init ! (i div 8)) OR uint64 (int32 (hex_val c * 2 ^ ((i mod 8) * 4)))])
      else Inl c)"

definition getpass :: "env \<Rightarrow> string \<Rightarrow> ('s os_state_scheme, string) proc" where
  "getpass E prompt = bind (psys E (Getpass prompt)) (\<lambda>r. if rv r = 0 then fault else ret (cstr (dat r)))"

text \<open>Key, key size and initial vector for an encryption type; nothing after a message.\<close>

definition loop_key :: "env \<Rightarrow> int \<Rightarrow> ('s mnt_state_scheme, (string \<times> int \<times> int list) option) proc" where
  "loop_key E type =
     (if type = LO_CRYPT_NONE then ret (Some ([], 0, [0, 0]))
      else if type = LO_CRYPT_XOR then
        bind (getpass E ''Password: '') (\<lambda>pass.
        let key = take (LO_KEY_SIZE - 1) pass in ret (Some (key, int (length key), [0, 0])))
      else if type = LO_CRYPT_DES then
        bind (getpass E ''Password: '') (\<lambda>pass.
        bind (getpass E ''Init (up to 16 hex digits): '') (\<lambda>init.
        case des_init 0 init [0, 0] of
          Inl c \<Rightarrow> andthen (fprintf_err E ''Non-hex digit '%c'.'' [AStr [c]]) (ret None)
        | Inr ws \<Rightarrow> ret (Some (take 8 pass, 8, ws))))
      else
        andthen (fprintf_err E ''Don't know how to get key for encryption system %d'' [AInt type]) (ret None))"

text \<open>The two files: the file to attach and the device, both for reading only when the file system is read-only.\<close>

definition open_loop_files ::
  "env \<Rightarrow> string \<Rightarrow> string \<Rightarrow> bool \<Rightarrow> ('s mnt_state_scheme, (int \<times> int \<times> bool) option) proc" where
  "open_loop_files E device file loopro =
     bind (fsys E (Open file (if loopro then O_RDONLY else O_RDWR))) (\<lambda>f1.
     bind
       (if rv f1 < 0 \<and> \<not> loopro \<and> err f1 = EROFS then
          bind (fsys E (Open file O_RDONLY)) (\<lambda>f2. ret (f2, True))
        else ret (f1, loopro)) (\<lambda>(f, ro).
     if rv f < 0 then andthen (perror E file (err f)) (ret None)
     else
       bind (fsys E (Open device (if ro then O_RDONLY else O_RDWR))) (\<lambda>fd.
       if rv fd < 0 then andthen (perror E device (err fd)) (ret None)
       else ret (Some (rv f, rv fd, ro)))))"

definition set_loop ::
  "env \<Rightarrow> string \<Rightarrow> string \<Rightarrow> int \<Rightarrow> string option \<Rightarrow> bool \<Rightarrow> ('s mnt_state_scheme, bool \<times> bool) proc" where
  "set_loop E device file offset encryption loopro =
     bind (open_loop_files E device file loopro) (\<lambda>fs.
     case fs of
       None \<Rightarrow> ret (True, loopro)
     | Some (ffd, fd, ro) \<Rightarrow>
         (let type = (if encryption = None then LO_CRYPT_NONE else crypt_type encryption) in
          if type < 0 then
            andthen (fprintf_err E ''Unsupported encryption type %s'' [AStr (str_or_empty encryption)]) (ret (True, ro))
          else
            bind (loop_key E type) (\<lambda>k.
            case k of
              None \<Rightarrow> ret (True, ro)
            | Some (key, key_size, init) \<Rightarrow>
                bind (ssys E (Loop_set_fd fd ffd)) (\<lambda>r1.
                if rv r1 < 0 then andthen (perror E ''ioctl: LOOP_SET_FD'' (err r1)) (ret (True, ro))
                else
                  bind (ssys E (Loop_set_status fd ([type, offset, key_size] @ init) [take (LO_NAME_SIZE - 1) file, key])) (\<lambda>r2.
                  if rv r2 < 0 then
                    bind (ssys E (Loop_clr_fd fd)) (\<lambda>r3.
                    andthen (perror E ''ioctl: LOOP_SET_STATUS'' (if rv r3 < 0 then err r3 else err r2)) (ret (True, ro)))
                  else
                    andthen (do_sys E (FileCall (Close fd)))
                    (andthen (do_sys E (FileCall (Close ffd)))
                    (bind (gets mount_verbose) (\<lambda>v.
                     andthen (whenp (v > 1)
                       (printf_out E ''set_loop(%s,%s,%d): success'' [AStr device, AStr file, AInt offset]))
                     (ret (False, ro))))))))))"


section \<open>What is attached\<close>

text \<open>The effect of a sequence of calls on the attached files: a successful \<open>LOOP_SET_FD\<close> attaches one, \<open>LOOP_CLR_FD\<close>
  detaches what the descriptor has.\<close>

fun attached :: "event list \<Rightarrow> (int \<times> int) list \<Rightarrow> (int \<times> int) list" where
  "attached [] a = a"
| "attached ((SysCall (Loop_set_fd fd ffd), r) # es) a = attached es (if rv r < 0 then a else (fd, ffd) # a)"
| "attached ((SysCall (Loop_clr_fd fd), r) # es) a = attached es (filter (\<lambda>p. fst p \<noteq> fd) a)"
| "attached (e # es) a = attached es a"

fun is_loop_call :: "syscall \<Rightarrow> bool" where
  "is_loop_call (SysCall (Loop_set_fd fd ffd)) = True"
| "is_loop_call (SysCall (Loop_clr_fd fd)) = True"
| "is_loop_call (SysCall (Loop_set_status fd ns ss)) = True"
| "is_loop_call c = False"

definition opened :: "event list \<Rightarrow> string \<Rightarrow> open_mode \<Rightarrow> int \<Rightarrow> bool" where
  "opened es p m fd \<longleftrightarrow> (\<exists>r. (FileCall (Open p m), r) \<in> set es \<and> rv r = fd)"

lemma opened_simps [simp]:
  "opened [] p m fd \<longleftrightarrow> False"
  "opened (e # es) p m fd \<longleftrightarrow> fst e = FileCall (Open p m) \<and> rv (snd e) = fd \<or> opened es p m fd"
  "opened (es @ es') p m fd \<longleftrightarrow> opened es p m fd \<or> opened es' p m fd"
  by (auto simp: opened_def) (metis prod.collapse)

lemma attached_append: "attached (es @ fs) a = attached fs (attached es a)"
  by (induction es a rule: attached.induct) simp_all

lemma attached_quiet: "\<forall>e \<in> set es. \<not> is_loop_call (fst e) \<Longrightarrow> attached es a = a"
  by (induction es a rule: attached.induct) simp_all


lemma attached_emits:
  assumes "emits (\<lambda>c. \<not> is_loop_call c) m" and "m s = (r, s')"
  obtains es where "trace s' = trace s @ es" and "\<And>a. attached es a = a"
  using emitsE [OF assms] attached_quiet by metis

lemma loop_key_quiet: "emits (\<lambda>c. \<not> is_loop_call c) (loop_key E type)"
  unfolding loop_key_def getpass_def fprintf_err_def by (intro emits_intro) simp_all

lemma open_loop_files_quiet: "emits (\<lambda>c. \<not> is_loop_call c) (open_loop_files E device file loopro)"
  unfolding open_loop_files_def perror_def by (intro emits_intro) simp_all

lemma open_loop_files_spec:
  assumes "open_loop_files E device file loopro s = (Ret (Some (ffd, fd, ro)), s')"
  shows "\<exists>es. trace s' = trace s @ es \<and> (\<forall>a. attached es a = a) \<and>
     opened es file (if ro then O_RDONLY else O_RDWR) ffd \<and> opened es device (if ro then O_RDONLY else O_RDWR) fd"
  using assms by (auto simp: open_loop_files_def perror_def bind_assoc split: if_splits)



section \<open>The device that is found\<close>

text \<open>The kernel has said that nothing is attached to the device (\<open>ENXIO\<close>), through a descriptor of it.\<close>

definition found_free :: "event list \<Rightarrow> string \<Rightarrow> bool" where
  "found_free es dev \<longleftrightarrow> (\<exists>fd g. opened es dev O_RDONLY fd \<and> fd \<ge> 0 \<and>
     (SysCall (Loop_get_status fd), g) \<in> set es \<and> rv g \<noteq> 0 \<and> err g = ENXIO)"

text \<open>The open descriptors: a successful \<open>open\<close> adds one and \<open>close\<close> removes it.\<close>

fun open_fds :: "event list \<Rightarrow> int list \<Rightarrow> int list" where
  "open_fds [] a = a"
| "open_fds ((FileCall (Open p m), r) # es) a = open_fds es (if rv r < 0 then a else rv r # a)"
| "open_fds ((FileCall (Close fd), r) # es) a = open_fds es (remove1 fd a)"
| "open_fds (e # es) a = open_fds es a"

lemma open_fds_append: "open_fds (es @ fs) a = open_fds fs (open_fds es a)"
  by (induction es a rule: open_fds.induct) simp_all

lemma found_free_more: "found_free es' dev \<Longrightarrow> found_free (es @ es') dev"
  by (auto simp: found_free_def)

lemma probe_loops_spec:
  "probe_loops E is sd sl s = (Ret (dev, sd', sl'), s') \<Longrightarrow>
     \<exists>es. trace s' = trace s @ es \<and> open_fds es [] = [] \<and>
       (\<forall>d. dev = Some d \<longrightarrow> d \<in> loop_dev ` set is \<and> found_free es d)"
proof (induction "is" arbitrary: sd sl s)
  case Nil
  then show ?case by simp
next
  case (Cons i "is")
  have more: ?case if "probe_loops E is a b (s\<lparr>trace := trace s @ fs\<rparr>) = (Ret (dev, sd', sl'), s')" "open_fds fs [] = []" for a b fs
  proof -
    from Cons.IH [OF that(1)] obtain es where "trace s' = trace s @ fs @ es" "open_fds es [] = []"
      "\<forall>d. dev = Some d \<longrightarrow> d \<in> loop_dev ` set is \<and> found_free es d" by auto
    with that(2) show ?thesis by (intro exI [of _ "fs @ es"]) (auto simp: open_fds_append intro: found_free_more)
  qed
  let ?st = "kern E (trace s) (FileCall (Stat (loop_dev i)))"
  define s1 where "s1 = s\<lparr>trace := trace s @ [(FileCall (Stat (loop_dev i)), ?st)]\<rparr>"
  let ?fd = "kern E (trace s1) (FileCall (Open (loop_dev i) O_RDONLY))"
  define s2 where "s2 = s1\<lparr>trace := trace s1 @ [(FileCall (Open (loop_dev i) O_RDONLY), ?fd)]\<rparr>"
  let ?g = "kern E (trace s2) (SysCall (Loop_get_status (rv ?fd)))"
  consider "\<not> (rv ?st = 0 \<and> S_ISBLK (v1 ?st))"
    | "rv ?st = 0 \<and> S_ISBLK (v1 ?st)" "rv ?fd < 0"
    | "rv ?st = 0 \<and> S_ISBLK (v1 ?st)" "0 \<le> rv ?fd" "rv ?g = 0 \<or> err ?g \<noteq> ENXIO"
    | "rv ?st = 0 \<and> S_ISBLK (v1 ?st)" "0 \<le> rv ?fd" "rv ?g \<noteq> 0" "err ?g = ENXIO"
    by linarith
  then show ?case
  proof cases
    case 1
    with Cons.prems show ?thesis
      using more [of sd sl "[(FileCall (Stat (loop_dev i)), ?st)]"] by (auto split: if_splits)
  next
    case 2
    with Cons.prems show ?thesis
      using more [of "sd + 1" sl "[(FileCall (Stat (loop_dev i)), ?st), (FileCall (Open (loop_dev i) O_RDONLY), ?fd)]"]
      by (simp add: s1_def)
  next
    case 3
    let ?c = "kern E (trace s2 @ [(SysCall (Loop_get_status (rv ?fd)), ?g)]) (FileCall (Close (rv ?fd)))"
    have "probe_loops E is (sd + 1) (if rv ?g = 0 then sl + 1 else sl)
        (s\<lparr>trace := trace s @ [(FileCall (Stat (loop_dev i)), ?st), (FileCall (Open (loop_dev i) O_RDONLY), ?fd),
          (SysCall (Loop_get_status (rv ?fd)), ?g), (FileCall (Close (rv ?fd)), ?c)]\<rparr>) = (Ret (dev, sd', sl'), s')"
      using 3 Cons.prems by (simp add: s1_def s2_def split: if_splits)
    from more [OF this] 3(2) show ?thesis by simp
  next
    case 4
    let ?c = "kern E (trace s2 @ [(SysCall (Loop_get_status (rv ?fd)), ?g)]) (FileCall (Close (rv ?fd)))"
    let ?s3 = "s\<lparr>trace := trace s @ [(FileCall (Stat (loop_dev i)), ?st), (FileCall (Open (loop_dev i) O_RDONLY), ?fd),
      (SysCall (Loop_get_status (rv ?fd)), ?g), (FileCall (Close (rv ?fd)), ?c)]\<rparr>"
    have "bind (xstrdup E (Some (loop_dev i))) (\<lambda>d. ret (d, sd + 1, sl)) ?s3 = (Ret (dev, sd', sl'), s')"
      using 4 Cons.prems by (simp add: s1_def s2_def)
    then have "xstrdup E (Some (loop_dev i)) ?s3 = (Ret dev, s')" by (auto elim: bind_RetE)
    then obtain r where "dev = Some (loop_dev i)" "s' = ?s3\<lparr>trace := trace ?s3 @ [(ProcCall (Malloc (int (length (loop_dev i)) + 1)), r)]\<rparr>"
      by (rule xstrdup_events)
    with 4 show ?thesis by (auto simp: found_free_def)
  qed
qed


text \<open>A loop device that is reported as unused is one of the first 256, the kernel has said that nothing is attached to
  it, and the search has closed every descriptor that it opened.\<close>

lemma unused_loop_device_free:
  assumes "find_unused_loop_device E s = (Ret (Some dev), s')"
  shows "\<exists>es i. trace s' = trace s @ es \<and> i < 256 \<and> dev = loop_dev i \<and> found_free es dev \<and> open_fds es [] = []"
proof -
  from assms obtain r sd sl s1 where 1: "probe_loops E [0..<256] 0 0 s = (Ret (r, sd, sl), s1)"
    unfolding find_unused_loop_device_def by (auto elim!: bind_RetE)
  have "r = Some dev \<and> s' = s1"
  proof (cases r)
    case None
    with 1 assms show ?thesis
      by (auto simp: find_unused_loop_device_def bind_apply_Ret andthen_def elim!: bind_RetE)
  next
    case (Some d)
    with 1 assms show ?thesis by (simp add: find_unused_loop_device_def bind_apply_Ret)
  qed
  with probe_loops_spec [OF 1] show ?thesis by auto
qed

end
