(* ===== verification/Probe.thy ===== *)
theory Probe
  imports MountOpts Lomount
begin

text \<open>
  How the mount program guesses a file system type (\<^verbatim>\<open>src/mount.c\<close> with the magic numbers of \<^verbatim>\<open>include/linux_fs.h\<close>): by the
  superblock of the device, and by the list of types in \<^verbatim>\<open>/proc/filesystems\<close>.
\<close>

section \<open>Magic numbers\<close>

definition MINIX_SUPER_MAGIC :: int where "MINIX_SUPER_MAGIC = 0x137F"
definition MINIX_SUPER_MAGIC2 :: int where "MINIX_SUPER_MAGIC2 = 0x138F"
definition EXT_SUPER_MAGIC :: int where "EXT_SUPER_MAGIC = 0x137D"
definition EXT2_PRE_02B_MAGIC :: int where "EXT2_PRE_02B_MAGIC = 0xEF51"
definition EXT2_SUPER_MAGIC :: int where "EXT2_SUPER_MAGIC = 0xEF53"
definition XIAFS_SUPER_MAGIC :: int where "XIAFS_SUPER_MAGIC = 0x012FD16D"
definition UFS_SUPER_MAGIC :: int where "UFS_SUPER_MAGIC = 0x00011954"
definition ISO_STANDARD_ID :: string where "ISO_STANDARD_ID = ''CD001''"
definition HS_STANDARD_ID :: string where "HS_STANDARD_ID = ''CDROM''"

lemmas magic_numbers = MINIX_SUPER_MAGIC_def MINIX_SUPER_MAGIC2_def EXT_SUPER_MAGIC_def EXT2_PRE_02B_MAGIC_def EXT2_SUPER_MAGIC_def
  XIAFS_SUPER_MAGIC_def UFS_SUPER_MAGIC_def

text \<open>Little-endian numbers at an offset of a block.\<close>

definition byte_of :: "string \<Rightarrow> nat \<Rightarrow> int" where
  "byte_of b i = (if i < length b then of_char (b ! i) else 0)"

definition le16 :: "string \<Rightarrow> nat \<Rightarrow> int" where
  "le16 b i = byte_of b i + 256 * byte_of b (i + 1)"

definition le32 :: "string \<Rightarrow> nat \<Rightarrow> int" where
  "le32 b i = le16 b i + 65536 * le16 b (i + 2)"

definition minixmagic :: "string \<Rightarrow> int" where "minixmagic sb = le16 sb 16"
definition extmagic :: "string \<Rightarrow> int" where "extmagic sb = le16 sb 56"
definition ext2magic :: "string \<Rightarrow> int" where "ext2magic sb = le16 sb 56"
definition xiafsmagic :: "string \<Rightarrow> int" where "xiafsmagic xsb = le32 xsb 572"
definition ufsmagic :: "string \<Rightarrow> int" where "ufsmagic b = le32 b 0x55c"

definition swapped :: "int \<Rightarrow> int" where
  "swapped a = (a div 256) OR ((a * 256) mod 65536)"

section \<open>The superblock\<close>

definition magic_known :: "string list" where
  "magic_known = [''minix'', ''ext'', ''ext2'', ''xiafs'', ''iso9660'', ''romfs'', ''ufs'']"

definition tested :: "string \<Rightarrow> bool" where
  "tested device \<longleftrightarrow> device \<in> set magic_known"

text \<open>The tests of the four blocks, in the order of the code.\<close>

definition super_type :: "string \<Rightarrow> string option" where
  "super_type sb =
     (if ext2magic sb = EXT2_SUPER_MAGIC \<or> ext2magic sb = EXT2_PRE_02B_MAGIC \<or> ext2magic sb = swapped EXT2_SUPER_MAGIC
      then Some ''ext2''
      else if minixmagic sb = MINIX_SUPER_MAGIC \<or> minixmagic sb = MINIX_SUPER_MAGIC2 then Some ''minix''
      else if extmagic sb = EXT_SUPER_MAGIC then Some ''ext''
      else None)"

definition first_type :: "string \<Rightarrow> string option" where
  "first_type xsb =
     (if xiafsmagic xsb = XIAFS_SUPER_MAGIC then Some ''xiafs''
      else if take 8 xsb = ''-rom1fs-'' then Some ''romfs''
      else None)"

definition ufs_type :: "string \<Rightarrow> string option" where
  "ufs_type b = (if ufsmagic b = UFS_SUPER_MAGIC then Some ''ufs'' else None)"

definition iso_type :: "string \<Rightarrow> string option" where
  "iso_type b =
     (if take 5 (drop 1 b) = ISO_STANDARD_ID \<or> take 5 (drop 9 b) = HS_STANDARD_ID then Some ''iso9660'' else None)"

text \<open>A block at a position, or the error number of the failing call.\<close>

definition read_block :: "env \<Rightarrow> int \<Rightarrow> int \<Rightarrow> nat \<Rightarrow> ('s os_state_scheme, int + string) proc" where
  "read_block E fd pos n =
     bind (fsys E (Lseek_set fd pos)) (\<lambda>l.
     if rv l \<noteq> pos then ret (Inl (err l))
     else
       bind (fsys E (Read fd n)) (\<lambda>r.
       if rv r \<noteq> int n then ret (Inl (err r)) else ret (Inr (take n (dat r)))))"

fun probe_blocks :: "env \<Rightarrow> int \<Rightarrow> (int \<times> nat \<times> (string \<Rightarrow> string option)) list \<Rightarrow> ('s os_state_scheme, int + string option) proc" where
  "probe_blocks E fd [] = ret (Inr None)"
| "probe_blocks E fd ((pos, n, f) # ps) =
     bind (read_block E fd pos n) (\<lambda>b.
     case b of
       Inl e \<Rightarrow> ret (Inl e)
     | Inr x \<Rightarrow> (case f x of Some t \<Rightarrow> ret (Inr (Some t)) | None \<Rightarrow> probe_blocks E fd ps))"

definition probes :: "(int \<times> nat \<times> (string \<Rightarrow> string option)) list" where
  "probes = [(1024, 58, super_type), (0, 576, first_type), (8192, 0x560, ufs_type), (0x8000, 2048, iso_type)]"

definition fstype :: "env \<Rightarrow> string \<Rightarrow> ('s os_state_scheme, string option) proc" where
  "fstype E device =
     bind (fsys E (Stat device)) (\<lambda>st.
     if rv st \<noteq> 0 \<or> \<not> S_ISBLK (v1 st) then ret None
     else
       bind (fsys E (Open device O_RDONLY)) (\<lambda>fd.
       if rv fd < 0 then ret None
       else
         bind (probe_blocks E (rv fd) probes) (\<lambda>r.
         case r of
           Inl e \<Rightarrow>
             andthen (perror E device e) (andthen (do_sys E (FileCall (Close (rv fd)))) (ret None))
         | Inr t \<Rightarrow> andthen (do_sys E (FileCall (Close (rv fd)))) (ret t))))"

section \<open>The types the kernel lists\<close>

definition PROC_FILESYSTEMS :: string where "PROC_FILESYSTEMS = ''/proc/filesystems''"

text \<open>The result of \<open>procclose\<close> is the error number of a failing \<open>fclose\<close>.\<close>

definition procclose :: "env \<Rightarrow> ('s mount_state_scheme, int option) proc" where
  "procclose E =
     bind (gets procfs) (\<lambda>f.
     bind (if f \<noteq> 0 then bind (fsys E (Fclose f)) (\<lambda>r. ret (if rv r \<noteq> 0 then Some (err r) else None)) else ret None) (\<lambda>e.
     andthen (modify (procfs_update (\<lambda>_. 0))) (ret e)))"

definition procopen :: "env \<Rightarrow> ('s mount_state_scheme, bool) proc" where
  "procopen E =
     bind (fsys E (Fopen PROC_FILESYSTEMS ''r'')) (\<lambda>r.
     andthen (modify (\<lambda>s. s\<lparr>procfs := rv r, proc_lines := stream_lines 100 r\<rparr>))
     (ret (rv r \<noteq> 0)))"

text \<open>\<open>sscanf\<close> with the formats \<open>"nodev %[^\n]"\<close> and \<open>" %[^ \n]"\<close>.\<close>

definition nodev_field :: "string \<Rightarrow> string option" where
  "nodev_field line =
     (if is_prefix ''nodev'' line then
        (let f = takeWhile (\<lambda>c. c \<noteq> CHR 0x0A) (dropWhile isspace (drop 5 line)) in if f = [] then None else Some f)
      else None)"

definition type_field :: "string \<Rightarrow> string option" where
  "type_field line =
     (let f = takeWhile (\<lambda>c. c \<noteq> CHR '' '' \<and> c \<noteq> CHR 0x0A) (dropWhile isspace line) in if f = [] then None else Some f)"

text \<open>The next type that needs a device, and the lines after it; a name that does not fit the static array of 50 bytes
  runs over its end.\<close>

fun next_type :: "string list \<Rightarrow> (string option \<times> string list) option" where
  "next_type [] = Some (None, [])"
| "next_type (l # ls) =
     (case nodev_field (cstr l) of
        Some f \<Rightarrow> if 50 \<le> length f then None else next_type ls
      | None \<Rightarrow>
          (case type_field (cstr l) of
             None \<Rightarrow> next_type ls
           | Some f \<Rightarrow> if 50 \<le> length f then None else Some (Some f, ls)))"

definition procnext :: "('s mount_state_scheme, string option) proc" where
  "procnext =
     bind (gets proc_lines) (\<lambda>ls.
     case next_type ls of
       None \<Rightarrow> fault
     | Some (t, ls') \<Rightarrow> andthen (modify (proc_lines_update (\<lambda>_. ls'))) (ret t))"

text \<open>The loop reads at least one line in each pass, so the number of lines bounds it.\<close>

fun search_types :: "nat \<Rightarrow> string \<Rightarrow> ('s mount_state_scheme, bool) proc" where
  "search_types 0 type = unfinished"
| "search_types (Suc n) type =
     bind procnext (\<lambda>t.
     case t of None \<Rightarrow> ret False | Some f \<Rightarrow> if f = type then ret True else search_types n type)"

definition is_in_proc :: "env \<Rightarrow> string \<Rightarrow> ('s mount_state_scheme, bool) proc" where
  "is_in_proc E type =
     bind (procopen E) (\<lambda>ok.
     if ok then bind (gets proc_lines) (\<lambda>ls. search_types (Suc (length ls)) type) else ret False)"

end
