(* ===== verification/Nfsmount.thy ===== *)
theory Nfsmount
  imports MountOpts
begin

text \<open>
  \<^verbatim>\<open>src/nfsmount.c\<close>: what the mount program does for an NFS file system before the system call. It resolves the host, parses
  the NFS options, asks the mount daemon of the server for the handle of the directory (with the messages of
  \<^verbatim>\<open>src/nfsmount_xdr.c\<close>), creates the socket for the kernel, and fills in the structure of \<^verbatim>\<open>include/nfs_mount4.h\<close>.

  The loop that retries a mount in the background ends when the clock does; \<open>loop_bound\<close> bounds its passes.
\<close>

section \<open>Versions\<close>

definition EX_FAIL :: int where "EX_FAIL = 32"
definition EX_SOMEOK :: int where "EX_SOMEOK = 64"
definition EX_BG :: int where "EX_BG = 256"

definition NFS_PORT :: int where "NFS_PORT = 2049"
definition NFS_PROGRAM :: int where "NFS_PROGRAM = 100003"
definition NFS_FHSIZE :: nat where "NFS_FHSIZE = 32"
definition NFS_MOUNT_VERSION :: int where "NFS_MOUNT_VERSION = 4"
definition MOUNTPORT :: int where "MOUNTPORT = 635"
definition IPPROTO_TCP :: int where "IPPROTO_TCP = 6"
definition IPPROTO_UDP :: int where "IPPROTO_UDP = 17"

definition MAKE_VERSION :: "int \<Rightarrow> int \<Rightarrow> int \<Rightarrow> int" where
  "MAKE_VERSION p q r = int32 (65536 * p + 256 * q + r)"

definition MAX_NFSPROT :: "int \<Rightarrow> int" where
  "MAX_NFSPROT version = (if version \<ge> 4 then 3 else 2)"

text \<open>A release with fewer than three numbers makes \<open>atoi\<close> read the null pointer.\<close>

definition linux_version_code :: "env \<Rightarrow> ('s os_state_scheme, int) proc" where
  "linux_version_code E =
     bind (psys E Uname) (\<lambda>r.
     if rv r = 0 then
       (case strtok_all (CHR ''.'') (cstr (dat r)) of
          p # q # r # _ \<Rightarrow> ret (MAKE_VERSION (atoi p) (atoi q) (atoi r))
        | _ \<Rightarrow> fault)
     else ret 0)"

definition version_for_kernel :: "int \<Rightarrow> int" where
  "version_for_kernel k =
     (if k < MAKE_VERSION 2 1 32 then 1
      else if k < MAKE_VERSION 2 2 18 then 3
      else if k < MAKE_VERSION 2 3 0 then 4
      else if k < MAKE_VERSION 2 3 99 then 3
      else 4)"

definition find_kernel_nfs_mount_version :: "env \<Rightarrow> ('s mount_state_scheme, unit) proc" where
  "find_kernel_nfs_mount_version E =
     bind (gets kernel_version) (\<lambda>k.
     whenp (k = 0)
       (bind (linux_version_code E) (\<lambda>v.
        andthen (modify (kernel_version_update (\<lambda>_. v)))
        (andthen (whenp (v \<noteq> 0) (modify (nfs_mount_version_update (\<lambda>_. version_for_kernel v))))
        (modify (nfs_mount_version_update (\<lambda>n. min n NFS_MOUNT_VERSION)))))))"

section \<open>The mount daemon's port\<close>

record pmap =
  pm_prog :: int
  pm_vers :: int
  pm_prot :: int
  pm_port :: int

fun pmaps :: "int list \<Rightarrow> pmap list" where
  "pmaps (a # b # c # d # rest) = \<lparr>pm_prog = a, pm_vers = b, pm_prot = c, pm_port = d\<rparr> # pmaps rest"
| "pmaps _ = []"

definition skip_map :: "int \<Rightarrow> int \<Rightarrow> int \<Rightarrow> int \<Rightarrow> int \<Rightarrow> pmap \<Rightarrow> pmap \<Rightarrow> bool" where
  "skip_map maxv prog version proto port p m \<longleftrightarrow>
     pm_prog m \<noteq> prog
     \<or> (version = 0 \<and> pm_vers p > pm_vers m)
     \<or> (version > 2 \<and> pm_vers m \<noteq> version)
     \<or> (version \<noteq> 0 \<and> version \<le> 2 \<and> pm_vers m > 2)
     \<or> pm_vers m > maxv \<or> (proto \<noteq> 0 \<and> pm_prot p \<noteq> 0 \<and> pm_prot m \<noteq> proto) \<or> (port \<noteq> 0 \<and> pm_port m \<noteq> port)"

fun choose_map :: "int \<Rightarrow> int \<Rightarrow> int \<Rightarrow> int \<Rightarrow> int \<Rightarrow> pmap list \<Rightarrow> pmap \<Rightarrow> pmap" where
  "choose_map maxv prog version proto port [] p = p"
| "choose_map maxv prog version proto port (m # ms) p =
     choose_map maxv prog version proto port ms (if skip_map maxv prog version proto port p m then p else m)"

definition complete_map :: "pmap \<Rightarrow> pmap" where
  "complete_map p =
     \<lparr>pm_prog = pm_prog p, pm_vers = (if pm_vers p = 0 then MOUNTVERS else pm_vers p),
      pm_prot = (if pm_prot p = 0 then IPPROTO_TCP else pm_prot p), pm_port = (if pm_port p = 0 then MOUNTPORT else pm_port p)\<rparr>"

text \<open>The arguments are unsigned long.\<close>

definition get_mountport :: "env \<Rightarrow> int \<Rightarrow> int \<Rightarrow> int \<Rightarrow> int \<Rightarrow> int \<Rightarrow> ('s mount_state_scheme, pmap) proc" where
  "get_mountport E addr prog0 version0 proto port =
     bind (nsys E (Pmap_getmaps addr)) (\<lambda>r.
     bind (gets nfs_mount_version) (\<lambda>v.
     let maxv = MAX_NFSPROT v;
         version = min version0 maxv;
         prog = (if prog0 = 0 then MOUNTPROG else prog0) in
     ret (complete_map (choose_map maxv prog version proto port (pmaps (nums r))
       \<lparr>pm_prog = prog, pm_vers = version, pm_prot = proto, pm_port = port\<rparr>))))"

section \<open>Options\<close>

record nfs_mount_data =
  nd_version :: int
  nd_fd :: int
  nd_old_root :: string
  nd_flags :: int
  nd_rsize :: int
  nd_wsize :: int
  nd_timeo :: int
  nd_retrans :: int
  nd_acregmin :: int
  nd_acregmax :: int
  nd_acdirmin :: int
  nd_acdirmax :: int
  nd_addr :: int
  nd_port :: int
  nd_hostname :: string
  nd_namlen :: int
  nd_root_size :: int
  nd_root :: string

definition nfs_arg :: "nfs_mount_data \<Rightarrow> mount_arg" where
  "nfs_arg d = Nfs_arg [nd_version d, nd_fd d, nd_flags d, nd_rsize d, nd_wsize d, nd_timeo d, nd_retrans d, nd_acregmin d,
     nd_acregmax d, nd_acdirmin d, nd_acdirmax d, nd_addr d, nd_port d, nd_namlen d, nd_root_size d]
     [nd_old_root d, nd_hostname d, nd_root d]"

record nfs_options =
  no_data :: nfs_mount_data
  no_bg :: bool
  no_soft :: bool
  no_intr :: bool
  no_posix :: bool
  no_nocto :: bool
  no_noac :: bool
  no_nolock :: bool
  no_broken_suid :: bool
  no_retry :: int
  no_tcp :: bool
  no_mountprog :: int
  no_mountvers :: int
  no_port :: int
  no_mountport :: int
  no_nfsprog :: int
  no_nfsvers :: int
  no_mounthost :: string

definition default_data :: nfs_mount_data where
  "default_data = \<lparr>nd_version = 0, nd_fd = 0, nd_old_root = replicate 32 NUL, nd_flags = 0, nd_rsize = 0, nd_wsize = 0, nd_timeo = 0,
     nd_retrans = 3, nd_acregmin = 3, nd_acregmax = 60, nd_acdirmin = 30, nd_acdirmax = 60, nd_addr = 0, nd_port = 0,
     nd_hostname = [], nd_namlen = 255, nd_root_size = 0, nd_root = replicate 64 NUL\<rparr>"

definition default_options :: nfs_options where
  "default_options = \<lparr>no_data = default_data, no_bg = False, no_soft = False, no_intr = False, no_posix = False, no_nocto = False,
     no_noac = False, no_nolock = False, no_broken_suid = False, no_retry = 10000, no_tcp = False, no_mountprog = MOUNTPROG,
     no_mountvers = 0, no_port = 0, no_mountport = 0, no_nfsprog = NFS_PROGRAM, no_nfsvers = 0, no_mounthost = []\<rparr>"

definition on_data :: "(nfs_mount_data \<Rightarrow> nfs_mount_data) \<Rightarrow> nfs_options \<Rightarrow> nfs_options" where
  "on_data f opts = opts\<lparr>no_data := f (no_data opts)\<rparr>"

text \<open>Options that only set a number.\<close>

definition number_option :: "string \<Rightarrow> int \<Rightarrow> (nfs_options \<Rightarrow> nfs_options) option" where
  "number_option opt n =
     (if opt = ''rsize'' then Some (on_data (nd_rsize_update (\<lambda>_. n)))
      else if opt = ''wsize'' then Some (on_data (nd_wsize_update (\<lambda>_. n)))
      else if opt = ''timeo'' then Some (on_data (nd_timeo_update (\<lambda>_. n)))
      else if opt = ''retrans'' then Some (on_data (nd_retrans_update (\<lambda>_. n)))
      else if opt = ''acregmin'' then Some (on_data (nd_acregmin_update (\<lambda>_. n)))
      else if opt = ''acregmax'' then Some (on_data (nd_acregmax_update (\<lambda>_. n)))
      else if opt = ''acdirmin'' then Some (on_data (nd_acdirmin_update (\<lambda>_. n)))
      else if opt = ''acdirmax'' then Some (on_data (nd_acdirmax_update (\<lambda>_. n)))
      else if opt = ''actimeo'' then
        Some (on_data (\<lambda>d. d\<lparr>nd_acregmin := n, nd_acregmax := n, nd_acdirmin := n, nd_acdirmax := n\<rparr>))
      else if opt = ''retry'' then Some (no_retry_update (\<lambda>_. n))
      else if opt = ''port'' then Some (no_port_update (\<lambda>_. n))
      else if opt = ''mountport'' then Some (no_mountport_update (\<lambda>_. n))
      else if opt = ''mountprog'' then Some (no_mountprog_update (\<lambda>_. n))
      else if opt = ''mountvers'' then Some (no_mountvers_update (\<lambda>_. n))
      else if opt = ''nfsprog'' then Some (no_nfsprog_update (\<lambda>_. n))
      else if opt = ''nfsvers'' \<or> opt = ''vers'' then Some (no_nfsvers_update (\<lambda>_. n))
      else None)"

definition is_host_char :: "char \<Rightarrow> bool" where
  "is_host_char c \<longleftrightarrow> c \<notin> {CHR '' '', CHR 0x09, CHR 0x0A, CHR 0x0D, CHR '',''}"

definition value_option ::
  "env \<Rightarrow> string \<Rightarrow> string \<Rightarrow> nfs_options \<Rightarrow> ('s mount_state_scheme, nfs_options option) proc" where
  "value_option E opt v opts =
     (case number_option opt (atoi v) of
        Some f \<Rightarrow> ret (Some (f opts))
      | None \<Rightarrow>
          if opt = ''mounthost'' then ret (Some (opts\<lparr>no_mounthost := takeWhile is_host_char (take 1023 v)\<rparr>))
          else if opt = ''proto'' then
            if is_prefix ''tcp'' v then ret (Some (opts\<lparr>no_tcp := True\<rparr>))
            else if is_prefix ''udp'' v then ret (Some (opts\<lparr>no_tcp := False\<rparr>))
            else andthen (printf_out E ''Warning: Unrecognized proto= option.'' []) (ret (Some opts))
          else if opt = ''namlen'' then
            bind (gets nfs_mount_version) (\<lambda>ver.
            if ver \<ge> 2 then ret (Some (on_data (nd_namlen_update (\<lambda>_. atoi v)) opts))
            else andthen (printf_out E ''Warning: Option namlen is not supported.'' []) (ret (Some opts)))
          else if opt = ''addr'' then ret (Some opts)
          else andthen (printf_out E ''unknown nfs mount parameter: %s=%d'' [AStr opt, AInt (atoi v)]) (ret None))"

definition flag_option ::
  "env \<Rightarrow> string \<Rightarrow> bool \<Rightarrow> nfs_options \<Rightarrow> ('s mount_state_scheme, nfs_options option) proc" where
  "flag_option E opt v opts =
     (if opt = ''bg'' then ret (Some (opts\<lparr>no_bg := v\<rparr>))
      else if opt = ''fg'' then ret (Some (opts\<lparr>no_bg := \<not> v\<rparr>))
      else if opt = ''soft'' then ret (Some (opts\<lparr>no_soft := v\<rparr>))
      else if opt = ''hard'' then ret (Some (opts\<lparr>no_soft := \<not> v\<rparr>))
      else if opt = ''intr'' then ret (Some (opts\<lparr>no_intr := v\<rparr>))
      else if opt = ''posix'' then ret (Some (opts\<lparr>no_posix := v\<rparr>))
      else if opt = ''cto'' then ret (Some (opts\<lparr>no_nocto := \<not> v\<rparr>))
      else if opt = ''ac'' then ret (Some (opts\<lparr>no_noac := \<not> v\<rparr>))
      else if opt = ''tcp'' then ret (Some (opts\<lparr>no_tcp := v\<rparr>))
      else if opt = ''udp'' then ret (Some (opts\<lparr>no_tcp := \<not> v\<rparr>))
      else if opt = ''lock'' then
        bind (gets nfs_mount_version) (\<lambda>ver.
        if ver \<ge> 3 then ret (Some (opts\<lparr>no_nolock := \<not> v\<rparr>))
        else andthen (printf_out E ''Warning: option nolock is not supported.'' []) (ret (Some opts)))
      else if opt = ''broken_suid'' then ret (Some (opts\<lparr>no_broken_suid := v\<rparr>))
      else
        bind (gets sloppy) (\<lambda>sl.
        if sl = 0 then
          andthen (printf_out E ''unknown nfs mount option: %s%s'' [AStr (if v then [] else ''no''), AStr opt]) (ret None)
        else ret (Some opts)))"

definition nfs_option :: "env \<Rightarrow> string \<Rightarrow> nfs_options \<Rightarrow> ('s mount_state_scheme, nfs_options option) proc" where
  "nfs_option E opt opts =
     (case strchr opt (CHR ''='') of
        Some eq \<Rightarrow> value_option E (takeWhile (\<lambda>c. c \<noteq> CHR ''='') opt) (tl eq) opts
      | None \<Rightarrow>
          if is_prefix ''no'' opt then flag_option E (drop 2 opt) False opts else flag_option E opt True opts)"

fun nfs_parse :: "env \<Rightarrow> string list \<Rightarrow> nfs_options \<Rightarrow> ('s mount_state_scheme, nfs_options option) proc" where
  "nfs_parse E [] opts = ret (Some opts)"
| "nfs_parse E (t # ts) opts =
     bind (nfs_option E t opts) (\<lambda>r. case r of None \<Rightarrow> ret None | Some opts' \<Rightarrow> nfs_parse E ts opts')"


section \<open>The mount data\<close>

definition NFS_MOUNT_SOFT :: int where "NFS_MOUNT_SOFT = 1"
definition NFS_MOUNT_INTR :: int where "NFS_MOUNT_INTR = 2"
definition NFS_MOUNT_POSIX :: int where "NFS_MOUNT_POSIX = 8"
definition NFS_MOUNT_NOCTO :: int where "NFS_MOUNT_NOCTO = 16"
definition NFS_MOUNT_NOAC :: int where "NFS_MOUNT_NOAC = 32"
definition NFS_MOUNT_TCP :: int where "NFS_MOUNT_TCP = 64"
definition NFS_MOUNT_VER3 :: int where "NFS_MOUNT_VER3 = 128"
definition NFS_MOUNT_NONLM :: int where "NFS_MOUNT_NONLM = 512"
definition NFS_MOUNT_BROKEN_SUID :: int where "NFS_MOUNT_BROKEN_SUID = 1024"

definition nfs_flags :: "int \<Rightarrow> nfs_options \<Rightarrow> int" where
  "nfs_flags ver opts =
     (if no_soft opts then NFS_MOUNT_SOFT else 0)
     OR (if no_intr opts then NFS_MOUNT_INTR else 0)
     OR (if no_posix opts then NFS_MOUNT_POSIX else 0)
     OR (if no_nocto opts then NFS_MOUNT_NOCTO else 0)
     OR (if no_noac opts then NFS_MOUNT_NOAC else 0)
     OR (if ver \<ge> 2 \<and> no_tcp opts then NFS_MOUNT_TCP else 0)
     OR (if ver \<ge> 3 \<and> no_nolock opts then NFS_MOUNT_NONLM else 0)
     OR (if ver \<ge> 4 \<and> no_broken_suid opts then NFS_MOUNT_BROKEN_SUID else 0)"

definition mount_version :: "nfs_options \<Rightarrow> int" where
  "mount_version opts =
     (let m = (if no_nfsvers opts \<noteq> 0 \<and> no_mountvers opts = 0
               then (if no_nfsvers opts < 3 then 1 else no_nfsvers opts) else no_mountvers opts) in
      if no_nfsvers opts \<noteq> 0 \<and> no_nfsvers opts < m then no_nfsvers opts else m)"

definition finish_options :: "int \<Rightarrow> nfs_options \<Rightarrow> nfs_options" where
  "finish_options ver opts =
     (on_data (\<lambda>d. d\<lparr>nd_flags := nfs_flags ver opts, nd_version := ver,
        nd_timeo := (if nd_timeo d = 0 then (if no_tcp opts then 70 else 7) else nd_timeo d)\<rparr>) opts)
       \<lparr>no_mountvers := mount_version opts\<rparr>"

section \<open>Asking the mount daemon\<close>

datatype mount_reply = V2 fhstatus | V3 mountres3

text \<open>The client for the daemon and its socket; UDP falls through to TCP when it fails.\<close>

definition create_client :: "env \<Rightarrow> int \<Rightarrow> pmap \<Rightarrow> ('s os_state_scheme, int \<times> int) proc" where
  "create_client E addr pm =
     (let port = pm_port pm mod 65536;
          tcp = bind (nsys E (Clnttcp_create addr port (pm_prog pm) (pm_vers pm))) (\<lambda>r. ret (rv r, v1 r)) in
      if pm_prot pm = IPPROTO_UDP then
        bind (nsys E (Clntudp_create addr port (pm_prog pm) (pm_vers pm))) (\<lambda>r.
        if rv r \<noteq> 0 then ret (rv r, v1 r) else tcp)
      else if pm_prot pm = IPPROTO_TCP then tcp
      else ret (0, - 1))"

definition request_handle :: "env \<Rightarrow> int \<Rightarrow> pmap \<Rightarrow> string \<Rightarrow> ('s os_state_scheme, mount_reply option) proc" where
  "request_handle E mclient pm dirname =
     (if pm_vers pm = 3 then
        bind (clnt_call E mclient MOUNTPROC3_MNT xdr_dirpath dirname xdr_mountres3) (\<lambda>(st, r).
        ret (if st = RPC_SUCCESS then map_option V3 r else None))
      else
        bind (clnt_call E mclient MOUNTPROC_MNT xdr_dirpath dirname xdr_fhstatus) (\<lambda>(st, r).
        ret (if st = RPC_SUCCESS then map_option V2 r else None)))"

definition destroy_client :: "env \<Rightarrow> int \<Rightarrow> int \<Rightarrow> ('s os_state_scheme, unit) proc" where
  "destroy_client E mclient msock =
     andthen (do_sys E (NetCall (Auth_destroy mclient)))
     (andthen (do_sys E (NetCall (Clnt_destroy mclient)))
     (do_sys E (FileCall (Close msock))))"

text \<open>One attempt: the reply with the client it came from, or the socket that is left.\<close>

definition try_handle ::
  "env \<Rightarrow> int \<Rightarrow> nfs_options \<Rightarrow> string \<Rightarrow> bool \<Rightarrow> ('s mount_state_scheme, int + pmap \<times> mount_reply \<times> int \<times> int) proc" where
  "try_handle E addr opts dirname report =
     bind (get_mountport E addr (uint64 (no_mountprog opts)) (uint64 (no_mountvers opts))
       (if no_tcp opts then IPPROTO_TCP else IPPROTO_UDP) (uint64 (no_mountport opts))) (\<lambda>pm.
     bind (create_client E addr pm) (\<lambda>(mclient, msock).
     if mclient \<noteq> 0 then
       andthen (do_sys E (NetCall (Authunix_create mclient)))
       (bind (request_handle E mclient pm dirname) (\<lambda>reply.
        case reply of
          Some r \<Rightarrow> ret (Inr (pm, r, mclient, msock))
        | None \<Rightarrow>
            andthen (whenp report (fprintf_err E ''mount'' []))
            (andthen (destroy_client E mclient msock)
            (ret (Inl (- 1))))))
     else andthen (whenp report (fprintf_err E ''mount'' [])) (ret (Inl msock))))"

record retry_vars =
  rt_t :: int
  rt_prevt :: int
  rt_val :: int
  rt_msock :: int

text \<open>The loop that retries. It ends with the reply, or with the exit code and the socket to close.\<close>

fun nfs_retry ::
  "nat \<Rightarrow> env \<Rightarrow> string \<Rightarrow> int \<Rightarrow> nfs_options \<Rightarrow> string \<Rightarrow> string \<Rightarrow> bool \<Rightarrow> int \<Rightarrow> retry_vars \<Rightarrow>
     ('s mount_state_scheme, int \<times> int + pmap \<times> mount_reply \<times> int \<times> int) proc" where
  "nfs_retry 0 E node addr opts hostname dirname running_bg timeout v = unfinished"
| "nfs_retry (Suc n) E node addr opts hostname dirname running_bg timeout v =
     bind (if no_bg opts then bind (fsys E (Stat node)) (\<lambda>st. ret (rv st = - 1)) else ret False) (\<lambda>absent.
     bind
       (if absent then
          if running_bg then
            andthen (do_sys E (ProcCall (Sleep (rt_val v))))
            (ret (Inl (v\<lparr>rt_val := min 30 (2 * rt_val v)\<rparr>)))
          else ret (Inl v)
        else
          andthen (whenp (rt_t v - rt_prevt v < 30) (do_sys E (ProcCall (Sleep 30))))
          (bind (try_handle E addr opts dirname (\<not> running_bg \<and> rt_prevt v = 0)) (\<lambda>r.
           case r of
             Inr found \<Rightarrow> ret (Inr found)
           | Inl msock \<Rightarrow> ret (Inl (v\<lparr>rt_prevt := rt_t v, rt_msock := msock\<rparr>))))) (\<lambda>r.
     case r of
       Inr found \<Rightarrow> ret (Inr found)
     | Inl v' \<Rightarrow>
         if \<not> no_bg opts then ret (Inl (EX_FAIL, rt_msock v'))
         else if \<not> running_bg then
           bind (xstrdup E (Some hostname)) (\<lambda>h.
           andthen (modify (prev_bg_host_update (\<lambda>_. h)))
           (ret (Inl (if no_retry opts > 0 then EX_BG else EX_FAIL, rt_msock v'))))
         else
           bind (psys E Time) (\<lambda>t.
           if v1 t \<ge> timeout then ret (Inl (EX_FAIL, rt_msock v'))
           else nfs_retry n E node addr opts hostname dirname running_bg timeout (v'\<lparr>rt_t := v1 t\<rparr>))))"

declare nfs_retry.simps [simp del]

section \<open>Status values of the server\<close>

text \<open>The table as built: \<open>NFSERR_INVAL\<close> and \<open>EWFLUSH\<close> are no macros of the current headers, so their rows are left out.\<close>

definition nfs_errtbl :: "(int \<times> int) list" where
  "nfs_errtbl = [(0, 0), (1, EPERM), (2, ENOENT), (5, EIO), (6, ENXIO), (13, EACCES), (17, EEXIST), (19, 19), (20, 20), (21, 21),
     (27, 27), (28, 28), (30, 30), (63, 36), (66, 39), (69, 122), (70, 116), (71, 66)]"

definition nfs_strerror :: "env \<Rightarrow> int \<Rightarrow> string" where
  "nfs_strerror E stat =
     (case map_of nfs_errtbl stat of
        Some e \<Rightarrow> strerr E e
      | None \<Rightarrow> fmt E ''unknown nfs status return value: %d'' [AInt stat])"

text \<open>The handle goes into the mount data; a refusal is reported.\<close>

definition pad_to :: "nat \<Rightarrow> string \<Rightarrow> string" where
  "pad_to n x = x @ replicate (n - length x) NUL"

definition refuse :: "env \<Rightarrow> string \<Rightarrow> string \<Rightarrow> int \<Rightarrow> ('s os_state_scheme, nfs_mount_data option) proc" where
  "refuse E hostname dirname stat =
     andthen (fprintf_err E ''mount: %s:%s failed, reason given by server: %s''
       [AStr hostname, AStr dirname, AStr (nfs_strerror E stat)]) (ret None)"

definition store_handle ::
  "env \<Rightarrow> string \<Rightarrow> string \<Rightarrow> mount_reply \<Rightarrow> nfs_mount_data \<Rightarrow> ('s os_state_scheme, nfs_mount_data option) proc" where
  "store_handle E hostname dirname reply d =
     (case reply of
        V2 st \<Rightarrow>
          if fhs_status st \<noteq> 0 then refuse E hostname dirname (fhs_status st)
          else
            ret (Some (d\<lparr>nd_root := pad_to 64 (fhs_fhandle st), nd_root_size := int NFS_FHSIZE, nd_old_root := fhs_fhandle st\<rparr>))
      | V3 st \<Rightarrow>
          if fhs_status3 st \<noteq> 0 then refuse E hostname dirname (fhs_status3 st)
          else
            (let h = fhandle3_of (mountinfo st) in
             ret (Some (d\<lparr>nd_old_root := replicate NFS_FHSIZE NUL, nd_root_size := int (length h), nd_root := pad_to 64 h,
               nd_flags := nd_flags d OR NFS_MOUNT_VER3\<rparr>))))"


section \<open>The socket for the kernel\<close>

text \<open>The label \<open>fail\<close>: what is open is closed.\<close>

definition abort_mount :: "env \<Rightarrow> int \<Rightarrow> int \<Rightarrow> int \<Rightarrow> ('s os_state_scheme, unit) proc" where
  "abort_mount E mclient msock fsock =
     andthen
       (whenp (msock \<noteq> - 1)
         (andthen (whenp (mclient \<noteq> 0)
            (andthen (do_sys E (NetCall (Auth_destroy mclient))) (do_sys E (NetCall (Clnt_destroy mclient)))))
         (do_sys E (FileCall (Close msock)))))
     (whenp (fsock \<noteq> - 1) (do_sys E (FileCall (Close fsock))))"

text \<open>The descriptor to close on failure comes first.\<close>

definition kernel_socket :: "env \<Rightarrow> bool \<Rightarrow> ('s mount_state_scheme, int + int) proc" where
  "kernel_socket E tcp =
     bind (gets nfs_mount_version) (\<lambda>ver.
     if tcp \<and> ver < 3 then andthen (printf_out E ''NFS over TCP is not supported.'' []) (ret (Inl (- 1)))
     else
       bind (nsys E (if tcp then Stream_socket else Dgram_socket)) (\<lambda>fsock.
       if rv fsock < 0 then andthen (perror E ''nfs socket'' (err fsock)) (ret (Inl (rv fsock)))
       else
         bind (nsys E (Bindresvport (rv fsock))) (\<lambda>b.
         if rv b < 0 then andthen (perror E ''nfs bindresvport'' (err b)) (ret (Inl (rv fsock)))
         else ret (Inr (rv fsock)))))"

definition nfs_server_port :: "env \<Rightarrow> int \<Rightarrow> nfs_options \<Rightarrow> int \<Rightarrow> ('s os_state_scheme, int) proc" where
  "nfs_server_port E addr opts nfsvers =
     (if no_port opts = 0 then
        bind (nsys E (Pmap_getport addr (no_nfsprog opts) nfsvers (if no_tcp opts then IPPROTO_TCP else IPPROTO_UDP))) (\<lambda>r.
        ret (if rv r = 0 then NFS_PORT else rv r))
      else ret (no_port opts))"

text \<open>Old kernels want a connected socket.\<close>

definition connect_old :: "env \<Rightarrow> int \<Rightarrow> int \<Rightarrow> int \<Rightarrow> ('s os_state_scheme, bool) proc" where
  "connect_old E fsock addr port =
     bind (linux_version_code E) (\<lambda>v.
     if v \<le> 66314 then
       bind (nsys E (Connect fsock addr port)) (\<lambda>r.
       if rv r < 0 then andthen (perror E ''nfs connect'' (err r)) (ret False) else ret True)
     else ret True)"

text \<open>From the handle to the complete mount data.\<close>

definition nfs_finish ::
  "env \<Rightarrow> int \<Rightarrow> nfs_options \<Rightarrow> string \<Rightarrow> string \<Rightarrow> pmap \<times> mount_reply \<times> int \<times> int \<Rightarrow>
     ('s mount_state_scheme, nfs_mount_data option) proc" where
  "nfs_finish E addr opts hostname dirname found =
     (case found of (pm, reply, mclient, msock) \<Rightarrow>
        (let nfsvers = (if pm_vers pm < 2 then 2 else pm_vers pm) in
         bind (store_handle E hostname dirname reply (no_data opts)) (\<lambda>d.
         case d of
           None \<Rightarrow> andthen (abort_mount E mclient msock (- 1)) (ret None)
         | Some d1 \<Rightarrow>
             bind (kernel_socket E (no_tcp opts)) (\<lambda>sock.
             case sock of
               Inl fsock \<Rightarrow> andthen (abort_mount E mclient msock fsock) (ret None)
             | Inr fsock \<Rightarrow>
                 bind (nfs_server_port E addr opts nfsvers) (\<lambda>port.
                 bind (connect_old E fsock addr (port mod 65536)) (\<lambda>ok.
                 if \<not> ok then andthen (abort_mount E mclient msock fsock) (ret None)
                 else
                   andthen (destroy_client E mclient msock)
                   (ret (Some (d1\<lparr>nd_fd := fsock, nd_addr := addr, nd_port := port mod 65536,
                     nd_hostname := take 255 hostname\<rparr>)))))))))"

section \<open>Mounting\<close>

definition inet_ntoa :: "int \<Rightarrow> string" where
  "inet_ntoa a =
     (let b = (\<lambda>k. show_nat (nat ((uint32 a div 256 ^ k) mod 256))) in
      b 0 @ ''.'' @ b 1 @ ''.'' @ b 2 @ ''.'' @ b 3)"

text \<open>Host and directory; all but the first host of a list are ignored.\<close>

definition split_spec :: "env \<Rightarrow> string \<Rightarrow> ('s os_state_scheme, (string \<times> string) option) proc" where
  "split_spec E spec =
     (if 1024 \<le> length spec then
        andthen (fprintf_err E ''mount: excessively long host:dir argument'' []) (ret None)
      else
        (case strchr spec (CHR '':'') of
           None \<Rightarrow> andthen (fprintf_err E ''mount: directory to mount not in host:dir format'' []) (ret None)
         | Some p \<Rightarrow>
             (let host = takeWhile (\<lambda>c. c \<noteq> CHR '':'') spec in
              if CHR '','' \<in> set host then
                andthen (fprintf_err E ''mount: warning: multiple hostnames not supported'' [])
                (ret (Some (takeWhile (\<lambda>c. c \<noteq> CHR '','') host, tl p)))
              else ret (Some (host, tl p)))))"

definition resolve :: "env \<Rightarrow> string \<Rightarrow> string \<Rightarrow> ('s os_state_scheme, int option) proc" where
  "resolve E hostname shown_name =
     bind (msys E (Gethostbyname hostname)) (\<lambda>hp.
     if rv hp = 0 then andthen (fprintf_err E ''mount: can't get address for %s'' [AStr shown_name]) (ret None)
     else
       andthen (whenp (v1 hp > 4) (fprintf_err E ''mount: got bad hp->h_length'' []))
       (ret (Some (v2 hp))))"

definition server_address :: "env \<Rightarrow> string \<Rightarrow> ('s os_state_scheme, int option) proc" where
  "server_address E hostname =
     bind (nsys E (Inet_aton hostname)) (\<lambda>a.
     if rv a \<noteq> 0 then ret (Some (v1 a)) else resolve E hostname hostname)"

text \<open>The address of the mount daemon: a numeric \<open>mounthost\<close> is replaced by the host.\<close>

definition daemon_address :: "env \<Rightarrow> string \<Rightarrow> string \<Rightarrow> int \<Rightarrow> ('s os_state_scheme, int option) proc" where
  "daemon_address E mounthost hostname addr =
     (if mounthost = [] then ret (Some addr)
      else if isdigit (hd mounthost) then bind (nsys E (Inet_addr hostname)) (\<lambda>a. ret (Some (v1 a)))
      else resolve E mounthost hostname)"

text \<open>What \<open>strtok\<close> and the cut at the equals sign leave of the options.\<close>

definition clobbered :: "string option \<Rightarrow> mount_arg" where
  "clobbered opts = (case opts of None \<Rightarrow> No_arg | Some t \<Rightarrow> Text_arg (takeWhile (\<lambda>c. c \<noteq> CHR ''='') (strtok_rest t)))"

definition nfs_contact ::
  "env \<Rightarrow> string \<Rightarrow> int \<Rightarrow> nfs_options \<Rightarrow> string \<Rightarrow> string \<Rightarrow> bool \<Rightarrow> ('s mount_state_scheme, int \<times> nfs_mount_data) proc" where
  "nfs_contact E node addr opts hostname dirname running_bg =
     bind (gets prev_bg_host) (\<lambda>prev.
     if no_bg opts \<and> \<not> running_bg \<and> prev = Some hostname then
       ret (if no_retry opts > 0 then EX_BG else EX_FAIL, no_data opts)
     else
       bind (daemon_address E (no_mounthost opts) hostname addr) (\<lambda>maddr.
       case maddr of
         None \<Rightarrow> ret (EX_FAIL, no_data opts)
       | Some ma \<Rightarrow>
           bind (psys E Time) (\<lambda>now.
           bind (nfs_retry (loop_bound E) E node ma opts hostname dirname running_bg
             (v1 now + int32 (60 * no_retry opts)) \<lparr>rt_t = 30, rt_prevt = 0, rt_val = 1, rt_msock = - 1\<rparr>) (\<lambda>r.
           case r of
             Inl (code, msock) \<Rightarrow> andthen (abort_mount E 0 msock (- 1)) (ret (code, no_data opts))
           | Inr found \<Rightarrow>
               bind (nfs_finish E addr opts hostname dirname found) (\<lambda>d.
               case d of None \<Rightarrow> ret (EX_FAIL, no_data opts) | Some d1 \<Rightarrow> ret (0, d1))))))"

text \<open>The exit code, the options for mtab and the data for the kernel.\<close>

definition nfsmount ::
  "env \<Rightarrow> string \<Rightarrow> string \<Rightarrow> mount_flags \<Rightarrow> string option \<Rightarrow> bool \<Rightarrow>
     ('s mount_state_scheme, int \<times> string option \<times> mount_arg) proc" where
  "nfsmount E spec node flags extra_opts running_bg =
     (let failed = (EX_FAIL, extra_opts, clobbered extra_opts); old_opts = str_or_empty extra_opts in
      andthen (find_kernel_nfs_mount_version E)
      (bind (split_spec E spec) (\<lambda>hd.
       case hd of
         None \<Rightarrow> ret failed
       | Some (hostname, dirname) \<Rightarrow>
           bind (server_address E hostname) (\<lambda>a.
           case a of
             None \<Rightarrow> ret failed
           | Some addr \<Rightarrow>
               if length old_opts + length (inet_ntoa addr) + 10 \<ge> 1024 then
                 andthen (fprintf_err E ''mount: excessively long option argument'' []) (ret failed)
               else
                 bind (xstrdup E (Some (old_opts @ (if old_opts = [] then [] else '','') @ ''addr='' @ inet_ntoa addr))) (\<lambda>extra.
                 bind (nfs_parse E (strtok_all (CHR '','') old_opts) default_options) (\<lambda>po.
                 case po of
                   None \<Rightarrow> ret (EX_FAIL, extra, clobbered extra_opts)
                 | Some opts0 \<Rightarrow>
                     bind (gets nfs_mount_version) (\<lambda>ver.
                     if no_nfsvers opts0 > MAX_NFSPROT ver \<or> no_mountvers opts0 > MAX_NFSPROT ver then
                       andthen (fprintf_err E ''NFSv%d not supported!'' [AInt (no_nfsvers opts0)])
                       (ret (0, extra, clobbered extra_opts))
                     else
                       (let opts = finish_options ver opts0 in
                        if flags AND MS_REMOUNT \<noteq> 0 then ret (0, extra, nfs_arg (no_data opts))
                        else
                          bind (nfs_contact E node addr opts hostname dirname running_bg) (\<lambda>(code, d).
                          ret (code, extra, nfs_arg d))))))))))"


section \<open>The chosen mount daemon\<close>

lemma pmaps_nonneg:
  "list_all (\<lambda>n. 0 \<le> n) ns \<Longrightarrow> m \<in> set (pmaps ns) \<Longrightarrow> 0 \<le> pm_vers m \<and> 0 \<le> pm_prot m \<and> 0 \<le> pm_port m"
  by (induction ns rule: pmaps.induct) auto

definition map_fits :: "int \<Rightarrow> int \<Rightarrow> int \<Rightarrow> int \<Rightarrow> int \<Rightarrow> pmap \<Rightarrow> bool" where
  "map_fits maxv prog version proto port p \<longleftrightarrow> pm_prog p = prog \<and> 0 \<le> pm_vers p \<and> pm_vers p \<le> maxv \<and>
     (version > 2 \<longrightarrow> pm_vers p = version) \<and> (version \<noteq> 0 \<and> version \<le> 2 \<longrightarrow> pm_vers p \<le> 2) \<and>
     (proto \<noteq> 0 \<longrightarrow> pm_prot p = proto) \<and> (port \<noteq> 0 \<longrightarrow> pm_port p = port)"

lemma map_fits_step:
  "\<lbrakk>map_fits maxv prog version proto port p; \<not> skip_map maxv prog version proto port p m; 0 \<le> pm_vers m\<rbrakk> \<Longrightarrow>
     map_fits maxv prog version proto port m"
  unfolding map_fits_def skip_map_def not_less de_Morgan_disj de_Morgan_conj not_not by (elim conjE, intro conjI impI) auto

lemma choose_map_fits:
  "\<lbrakk>map_fits maxv prog version proto port p; \<forall>m \<in> set ms. 0 \<le> pm_vers m\<rbrakk> \<Longrightarrow>
     map_fits maxv prog version proto port (choose_map maxv prog version proto port ms p)"
  by (induction ms arbitrary: p) (auto intro: map_fits_step)

text \<open>Whatever the port mapper of the server answers, the mount daemon that is contacted runs the requested program, with a
  version from 1 to 3 that the kernel supports, over the requested protocol and at the requested port if one is given, and
  the port and the protocol are never 0; a requested version 3 is kept, and a version 1 or 2 is never replaced by version 3.\<close>

lemma get_mountport_fits:
  assumes "get_mountport E addr prog version proto port s = (Ret pm, s')"
    and "0 \<le> version" and "list_all (\<lambda>n. 0 \<le> n) (nums (kern E (trace s) (NetCall (Pmap_getmaps addr))))"
  shows "pm_prog pm = (if prog = 0 then MOUNTPROG else prog) \<and>
     1 \<le> pm_vers pm \<and> pm_vers pm \<le> MAX_NFSPROT (nfs_mount_version s) \<and>
     (3 \<le> version \<and> 4 \<le> nfs_mount_version s \<longrightarrow> pm_vers pm = 3) \<and>
     (1 \<le> version \<and> version \<le> 2 \<longrightarrow> pm_vers pm \<le> 2) \<and>
     (if proto = 0 then pm_prot pm \<noteq> 0 else pm_prot pm = proto) \<and> (if port = 0 then pm_port pm \<noteq> 0 else pm_port pm = port)"
proof -
  let ?maxv = "MAX_NFSPROT (nfs_mount_version s)"
  let ?prog = "if prog = 0 then MOUNTPROG else prog"
  let ?v = "min version ?maxv"
  define p where "p = choose_map ?maxv ?prog ?v proto port
    (pmaps (nums (kern E (trace s) (NetCall (Pmap_getmaps addr))))) \<lparr>pm_prog = ?prog, pm_vers = ?v, pm_prot = proto, pm_port = port\<rparr>"
  have maxv: "?maxv = 2 \<or> ?maxv = 3" by (simp add: MAX_NFSPROT_def)
  have "map_fits ?maxv ?prog ?v proto port p"
    unfolding p_def
  proof (rule choose_map_fits)
    show "\<forall>m \<in> set (pmaps (nums (kern E (trace s) (NetCall (Pmap_getmaps addr))))). 0 \<le> pm_vers m"
      using pmaps_nonneg [OF assms(3)] by blast
  qed (use maxv assms(2) in \<open>auto simp: map_fits_def\<close>)
  then have f: "pm_prog p = ?prog" "0 \<le> pm_vers p" "pm_vers p \<le> ?maxv" "?v > 2 \<longrightarrow> pm_vers p = ?v"
    "?v \<noteq> 0 \<and> ?v \<le> 2 \<longrightarrow> pm_vers p \<le> 2" "proto \<noteq> 0 \<longrightarrow> pm_prot p = proto" "port \<noteq> 0 \<longrightarrow> pm_port p = port"
    unfolding map_fits_def by blast+
  have pm: "pm = complete_map p" using assms(1) by (auto simp: get_mountport_def Let_def p_def)
  have vers: "1 \<le> pm_vers pm" "pm_vers pm \<le> ?maxv"
    using f(2,3) maxv by (auto simp: pm complete_map_def MOUNTVERS_def)
  have v3: "pm_vers pm = 3" if "3 \<le> version" "4 \<le> nfs_mount_version s"
  proof -
    from that have "?v = 3" by (simp add: MAX_NFSPROT_def)
    with f(4) show ?thesis by (simp add: pm complete_map_def)
  qed
  have v2: "pm_vers pm \<le> 2" if "1 \<le> version" "version \<le> 2"
  proof -
    from that maxv have "?v \<noteq> 0 \<and> ?v \<le> 2" by linarith
    with f(5) show ?thesis by (simp add: pm complete_map_def MOUNTVERS_def)
  qed
  have "if proto = 0 then pm_prot pm \<noteq> 0 else pm_prot pm = proto" "if port = 0 then pm_port pm \<noteq> 0 else pm_port pm = port"
    using f(6,7) by (simp_all add: pm complete_map_def IPPROTO_TCP_def MOUNTPORT_def)
  with vers v3 v2 show ?thesis using f(1) by (simp add: pm complete_map_def)
qed

section \<open>Retrying\<close>

fun is_request :: "syscall \<Rightarrow> bool" where
  "is_request (NetCall (Clnt_call c p a)) = True"
| "is_request c = False"

abbreviation quiet_net :: "('s os_state_scheme, 'a) proc \<Rightarrow> bool" where
  "quiet_net \<equiv> emits (\<lambda>c. \<not> is_request c)"

lemma quiet_alloc [emits_intro]: "quiet_net (xmalloc E n)" "quiet_net (xstrdup E v)"
proof -
  have "\<not> is_request c" if "is_log_call c" for c using that by (cases c rule: is_request.cases) simp_all
  then show "quiet_net (xmalloc E n)" "quiet_net (xstrdup E v)" by (intro emits_alloc; simp)+
qed

lemma quiet_parts [emits_intro]:
  "quiet_net (get_mountport E addr prog v p port)" "quiet_net (create_client E addr pm)" "quiet_net (destroy_client E c k)"
  "quiet_net (fprintf_err E f args)" "quiet_net (printf_out E f args)" "quiet_net (perror E w e)" "quiet_net (linux_version_code E)"
  unfolding get_mountport_def create_client_def destroy_client_def fprintf_err_def printf_out_def perror_def linux_version_code_def Let_def
  by (intro emits_intro; simp)+

lemma at_most_if: "(b \<Longrightarrow> at_most k P m) \<Longrightarrow> (\<not> b \<Longrightarrow> at_most k P n) \<Longrightarrow> at_most k P (if b then m else n)"
  by simp

lemma at_most_andthen: "emits (\<lambda>c. \<not> P c) m \<Longrightarrow> at_most k P n \<Longrightarrow> at_most k P (andthen m n)"
  unfolding andthen_def by (rule at_most_after)

lemma at_most_ret: "at_most k P (ret x)"
  by (simp add: at_most_def)

lemma at_most_let: "at_most k P (f x) \<Longrightarrow> at_most k P (let y = x in f y)"
  by (simp add: Let_def)

lemma at_most_case_option:
  "at_most k P n \<Longrightarrow> (\<And>x. at_most k P (f x)) \<Longrightarrow> at_most k P (case v of None \<Rightarrow> n | Some x \<Rightarrow> f x)"
  by (cases v) simp_all

lemma at_most_case_prod: "(\<And>x y. at_most k P (f x y)) \<Longrightarrow> at_most k P (case p of (x, y) \<Rightarrow> f x y)"
  by (cases p) simp

lemmas at_most_rules = at_most_ret at_most_if at_most_let at_most_case_option at_most_case_prod at_most_andthen

lemma one_call: "at_most 1 is_request (clnt_call E c p xa a xr)"
proof (cases "enc xa a")
  case None
  then show ?thesis unfolding clnt_call_def by (simp add: at_most_none emits_intro)
next
  case (Some bs)
  show ?thesis unfolding clnt_call_def Some option.case
    by (rule at_most_before [OF at_most_sysc]) (intro emits_intro)
qed

lemma one_request: "at_most 1 is_request (try_handle E addr opts dirname report)"
proof -
  have rh: "at_most 1 is_request (request_handle E m pm dirname)" for m pm
    unfolding request_handle_def by (intro at_most_if at_most_before one_call emits_intro)
  have "at_most 1 is_request (bind (request_handle E mclient pm dirname) (\<lambda>reply.
        case reply of
          Some r \<Rightarrow> ret (Inr (pm, r, mclient, msock))
        | None \<Rightarrow>
            andthen (whenp report (fprintf_err E ''mount'' []))
            (andthen (destroy_client E mclient msock)
            (ret (Inl (- 1))))))" for mclient msock pm
    by (rule at_most_before [OF rh]) (intro emits_intro)
  then show ?thesis
    unfolding try_handle_def
    by (intro at_most_after quiet_parts)
      (clarsimp, auto simp: at_most_none emits_intro intro!: at_most_andthen)
qed

lemma retry_once:
  assumes "\<not> running_bg"
  shows "ends (nfs_retry (Suc n) E node addr opts hostname dirname running_bg timeout v)"
    and "at_most 1 is_request (nfs_retry (Suc n) E node addr opts hostname dirname running_bg timeout v)"
proof -
  have parts: "ends (try_handle E addr opts dirname report)" for report
    unfolding try_handle_def get_mountport_def create_client_def request_handle_def destroy_client_def clnt_call_def
      fprintf_err_def Let_def by (intro ends_intro)
  show "ends (nfs_retry (Suc n) E node addr opts hostname dirname running_bg timeout v)"
    unfolding nfs_retry.simps using assms by (intro ends_intro parts) simp_all
  have first: "at_most 1 is_request (if absent then
          if running_bg then
            andthen (do_sys E (ProcCall (Sleep (rt_val v))))
            (ret (Inl (v\<lparr>rt_val := min 30 (2 * rt_val v)\<rparr>)))
          else ret (Inl v)
        else
          andthen (whenp (rt_t v - rt_prevt v < 30) (do_sys E (ProcCall (Sleep 30))))
          (bind (try_handle E addr opts dirname (\<not> running_bg \<and> rt_prevt v = 0)) (\<lambda>r.
           case r of
             Inr found \<Rightarrow> ret (Inr found)
           | Inl msock \<Rightarrow> ret (Inl (v\<lparr>rt_prevt := rt_t v, rt_msock := msock\<rparr>)))))" for absent
    using assms
    by (intro at_most_if at_most_andthen at_most_before [OF one_request] emits_intro at_most_none) simp_all
  show "at_most 1 is_request (nfs_retry (Suc n) E node addr opts hostname dirname running_bg timeout v)"
    unfolding nfs_retry.simps
  proof (rule at_most_after)
    show "quiet_net (if no_bg opts then bind (fsys E (Stat node)) (\<lambda>st. ret (rv st = - 1)) else ret False)"
      by (intro emits_intro) simp_all
  qed (rule at_most_before [OF first], use assms in \<open>intro emits_intro; simp\<close>)
qed


lemma option_parts:
  "ends (nfs_option E opt opts)" "quiet_net (nfs_option E opt opts)"
  unfolding nfs_option_def value_option_def flag_option_def printf_out_def
  by (intro ends_intro) (intro emits_intro; simp)

lemma parse_parts: "ends (nfs_parse E ts opts)" "quiet_net (nfs_parse E ts opts)"
  by (induction ts arbitrary: opts) (auto intro!: ends_intro emits_intro option_parts)

lemma setup_parts [ends_intro, emits_intro]:
  "ends (find_kernel_nfs_mount_version E)" "quiet_net (find_kernel_nfs_mount_version E)"
  "ends (split_spec E spec)" "quiet_net (split_spec E spec)"
  "ends (server_address E h)" "quiet_net (server_address E h)"
  "ends (daemon_address E m h a)" "quiet_net (daemon_address E m h a)"
  unfolding find_kernel_nfs_mount_version_def linux_version_code_def split_spec_def server_address_def daemon_address_def
    resolve_def fprintf_err_def Let_def
  by (intro ends_intro emits_intro; simp)+

lemma abort_parts [ends_intro, emits_intro]: "ends (abort_mount E c m f)" "quiet_net (abort_mount E c m f)"
  unfolding abort_mount_def by (intro ends_intro emits_intro; simp)+

lemma store_parts [ends_intro, emits_intro]:
  "ends (store_handle E h d r x)" "quiet_net (store_handle E h d r x)"
  unfolding store_handle_def refuse_def fprintf_err_def Let_def
  by (cases r; simp; intro ends_intro emits_intro conjI impI; simp)+

lemma socket_parts [ends_intro, emits_intro]:
  "ends (kernel_socket E tcp)" "quiet_net (kernel_socket E tcp)"
  "ends (nfs_server_port E a opts v)" "quiet_net (nfs_server_port E a opts v)"
  "ends (connect_old E fs a p)" "quiet_net (connect_old E fs a p)"
  unfolding kernel_socket_def nfs_server_port_def connect_old_def linux_version_code_def perror_def printf_out_def
  by (intro ends_intro emits_intro; simp)+

lemma finish_parts [ends_intro, emits_intro]:
  "ends (nfs_finish E a opts h d found)" "quiet_net (nfs_finish E a opts h d found)"
  unfolding nfs_finish_def destroy_client_def Let_def by (intro ends_intro emits_intro; simp)+

text \<open>C20. A mount that is not retried in the background comes to an end, whatever the server and the network do, and asks the
  mount daemon at most once.\<close>

theorem foreground_mount_ends:
  assumes "\<not> running_bg" and "0 < loop_bound E"
  shows "fst (nfsmount E spec node flags extra running_bg s) \<noteq> Unfinished \<and>
     length (calls is_request (snd (nfsmount E spec node flags extra running_bg s))) \<le> length (calls is_request s) + 1"
proof -
  obtain n where n: "loop_bound E = Suc n" using assms(2) gr0_implies_Suc by blast
  have "ends (nfs_contact E node a opts h d running_bg)" for a opts h d
    unfolding nfs_contact_def n by (intro ends_intro retry_once(1) assms(1))
  then have e: "ends (nfsmount E spec node flags extra running_bg)"
    unfolding nfsmount_def Let_def fprintf_err_def by (intro ends_intro parse_parts)
  have "at_most 1 is_request (nfs_contact E node a opts h d running_bg)" for a opts h d
    unfolding nfs_contact_def n
    by (rule at_most_rules at_most_before [OF retry_once(2) [OF assms(1)]] | rule at_most_after | (intro emits_intro; simp))+
  note contact = at_most_before [OF this]
  have a: "at_most 1 is_request (nfsmount E spec node flags extra running_bg)"
    unfolding nfsmount_def
    by (rule contact at_most_rules | rule at_most_after | (intro emits_intro parse_parts; simp))+
  from e a show ?thesis unfolding ends_def at_most_def by blast
qed


section \<open>An unsupported version\<close>

lemma length_show_nat: "n < 10 ^ Suc k \<Longrightarrow> length (show_nat n) \<le> Suc k"
proof (induction k arbitrary: n)
  case 0
  then show ?case by (subst show_nat.simps) simp
next
  case (Suc k)
  then have "n div 10 < 10 ^ Suc k" by simp
  from Suc.IH [OF this] show ?case by (subst show_nat.simps) simp
qed

lemma length_inet_ntoa: "length (inet_ntoa a) \<le> 15"
proof -
  have "length (show_nat (nat (b mod 256))) \<le> Suc 2" for b :: int
  proof (rule length_show_nat)
    have "b mod 256 < 256" by (rule pos_mod_bound) simp
    then have "nat (b mod 256) < 256" by linarith
    then show "nat (b mod 256) < 10 ^ Suc 2" by (rule less_trans) simp
  qed
  then have "length (show_nat (nat ((uint32 a div 256 ^ k) mod 256))) \<le> Suc 2" for k by blast
  from this [of 0] this [of 1] this [of 2] this [of 3] show ?thesis
    unfolding inet_ntoa_def Let_def length_append list.size by linarith
qed

lemma split_spec_plain:
  assumes "CHR '':'' \<notin> set host" and "CHR '','' \<notin> set host" and "length (host @ '':'' @ dir) < 1024"
  shows "split_spec E (host @ '':'' @ dir) = ret (Some (host, dir))"
proof -
  have "strchr (host @ '':'' @ dir) (CHR '':'') = Some ('':'' @ dir)"
    using assms(1) by (induction host) auto
  moreover have "takeWhile (\<lambda>c. c \<noteq> CHR '':'') (host @ '':'' @ dir) = host"
    using assms(1) by (induction host) auto
  ultimately show ?thesis using assms by (simp add: split_spec_def)
qed

lemma version_token:
  assumes "0 \<le> v"
  shows "strtok_all (CHR '','') (''nfsvers='' @ show_int v) = [''nfsvers='' @ show_int v]"
    and "clobbered (Some (''nfsvers='' @ show_int v)) = Text_arg ''nfsvers''"
proof -
  have "CHR '','' \<notin> set (show_int v)"
    using show_nat_digits [of "nat v"] assms by (auto simp: show_int_def list_all_iff isdigit_def)
  then have p: "CHR '','' \<notin> set (''nfsvers='' @ show_int v)" by simp
  then show "strtok_all (CHR '','') (''nfsvers='' @ show_int v) = [''nfsvers='' @ show_int v]"
    using strtok_token [of "''nfsvers='' @ show_int v" "CHR '',''" "[]"] by (simp add: strtok_empty)
  from p have "takeWhile (\<lambda>c. c \<noteq> CHR '','') (''nfsvers='' @ show_int v) = ''nfsvers='' @ show_int v"
    by (simp only: takeWhile_eq_all_conv) blast
  then show "clobbered (Some (''nfsvers='' @ show_int v)) = Text_arg ''nfsvers''"
    by (simp add: clobbered_def strtok_rest_def)
qed

text \<open>C21. A version of the protocol that is not supported is reported but not treated as a failure: \<open>nfsmount\<close> returns 0 without
  having asked the server, and what the caller will hand to the kernel as mount data is the remainder of the option
  string instead of the mount structure.\<close>

theorem unsupported_version_not_refused:
  assumes "memory_ok E" and "kernel_version s \<noteq> 0" and "nfs_mount_version s = 4" and "3 < v" and "v \<le> INT_MAX"
    and "CHR '':'' \<notin> set host" and "CHR '','' \<notin> set host" and "length (host @ '':'' @ dir) < 1024"
    and "\<forall>tr. rv (kern E tr (NetCall (Inet_aton host))) \<noteq> 0"
  shows "\<exists>extra s'. nfsmount E (host @ '':'' @ dir) node flags (Some (''nfsvers='' @ show_int v)) bg s =
     (Ret (0, extra, Text_arg ''nfsvers''), s') \<and> calls is_request s' = calls is_request s"
proof -
  define opts where "opts = ''nfsvers='' @ show_int v"
  define spec where "spec = host @ '':'' @ dir"
  let ?r = "kern E (trace s) (NetCall (Inet_aton host))"
  have "nat v < 10 ^ Suc 9" using assms(5) by (simp add: INT_MAX_def)
  then have "length (show_int v) \<le> 10" using length_show_nat [of "nat v" 9] assms(4) by (simp add: show_int_def)
  then have short: "length opts + length (inet_ntoa (v1 ?r)) + 10 < 1024" "opts \<noteq> []"
    using length_inet_ntoa [of "v1 ?r"] by (simp_all add: opts_def)
  have v: "0 \<le> v" using assms(4) by simp
  have "atoi (show_int v) = v" using atoi_show_int [of v "[]"] assms(4,5) by (simp add: INT_MIN_def)
  then have opt: "nfs_option E opts d = ret (Some (d\<lparr>no_nfsvers := v\<rparr>))" for d
    by (simp add: opts_def nfs_option_def value_option_def number_option_def)
  have p: "nfs_parse E (strtok_all (CHR '','') opts) default_options = ret (Some (default_options\<lparr>no_nfsvers := v\<rparr>))"
    using version_token(1) [OF v] by (simp only: opts_def [symmetric] nfs_parse.simps opt bind_ret option.case)
  have c: "clobbered (Some opts) = Text_arg ''nfsvers''" using version_token(2) [OF v] by (simp add: opts_def)
  have sp: "split_spec E spec = ret (Some (host, dir))" using split_spec_plain [OF assms(6-8)] by (simp add: spec_def)
  have "\<exists>extra s'. nfsmount E spec node flags (Some opts) bg s = (Ret (0, extra, Text_arg ''nfsvers''), s') \<and>
      calls is_request s' = calls is_request s"
    using assms(1-4,9) short
    by (simp add: nfsmount_def Let_def str_or_empty_def find_kernel_nfs_mount_version_def sp p c server_address_def proc_assoc
      xstrdup_def memory_ok_def MAX_NFSPROT_def fprintf_err_def)
  then show ?thesis by (simp add: spec_def opts_def)
qed

end
