(* ===== verification/Mount.thy ===== *)
theory Mount
  imports Probe Nfsmount
begin

text \<open>
  Mounting one file system: the functions of \<^verbatim>\<open>src/mount.c\<close> from \<open>print_one\<close> to \<open>mount_one\<close>.

  A function that changes a local variable through a pointer returns the new value. The error number of a failing
  write to mtab is left out of its message.
\<close>

section \<open>Reports\<close>

definition print_one :: "env \<Rightarrow> mntentchn \<Rightarrow> ('s mnt_state_scheme, unit) proc" where
  "print_one E mc =
     bind (gets mount_mount_quiet) (\<lambda>q.
     whenp (q = 0)
       (andthen (printf_out E ''%s on %s'' [AStr (mc_fsname mc), AStr (mc_dir mc)])
       (andthen (whenp (mc_type mc \<noteq> []) (printf_out E '' type %s'' [AStr (mc_type mc)]))
       (andthen (printf_out E '' (%s)'' [AStr (mc_opts mc)])
       (printf_out E [CHR 0x0A] [])))))"

fun print_each :: "env \<Rightarrow> string option list \<Rightarrow> mntentchn list \<Rightarrow> ('s mnt_state_scheme, unit) proc" where
  "print_each E types [] = ret ()"
| "print_each E types (mc # mcs) =
     bind (matching_types (mc_type mc) types) (\<lambda>m.
     andthen (whenp m (print_one E mc)) (print_each E types mcs))"

definition print_all :: "env \<Rightarrow> string option list \<Rightarrow> ('s mnt_state_scheme, 'a) proc" where
  "print_all E types =
     bind (mtab_head E) (\<lambda>head. andthen (print_each E types (chain head)) (stop 0))"

definition already :: "env \<Rightarrow> string \<Rightarrow> string \<Rightarrow> ('s mnt_state_scheme, bool) proc" where
  "already E spec node =
     bind (getmntfile E node) (\<lambda>m1.
     case m1 of
       Some mc \<Rightarrow>
         andthen (error_msg E ''mount: according to mtab, %s is already mounted on %s'' [AStr (mc_fsname mc), AStr node])
         (ret True)
     | None \<Rightarrow>
         bind (getmntfile E spec) (\<lambda>m2.
         case m2 of
           Some mc \<Rightarrow>
             andthen (error_msg E ''mount: according to mtab, %s is mounted on %s'' [AStr spec, AStr (mc_dir mc)])
             (ret True)
         | None \<Rightarrow> ret False))"

section \<open>A new mtab\<close>

definition root_mtab_entry :: "env \<Rightarrow> mntentchn \<Rightarrow> ('s mount_state_scheme, mntent) proc" where
  "root_mtab_entry E fs =
     bind (xstrdup E (Some (mc_opts fs))) (\<lambda>opts.
     bind (parse_opts E opts) (\<lambda>(flags, extra_opts).
     bind (canonicalize E (Some (mc_fsname fs))) (\<lambda>fsname.
     bind (fix_opts_string E flags extra_opts) (\<lambda>t.
     ret \<lparr>mnt_fsname = fsname, mnt_dir = ''/'', mnt_type = Some (mc_type fs), mnt_opts = t, mnt_freq = 0, mnt_passno = 0\<rparr>))))"

definition create_mtab :: "env \<Rightarrow> ('s mount_state_scheme, unit) proc" where
  "create_mtab E =
     andthen (lock_mtab E)
     (bind (my_setmntent E MOUNTED ''a+'') (\<lambda>(mfp, e).
      if mntent_fp mfp = 0 then die E EX_FILEIO ''mount: can't open %s for writing: %s'' [AStr MOUNTED, AInt e]
      else
        bind (getfsfile E ''/'') (\<lambda>f1.
        bind (case f1 of None \<Rightarrow> getfsfile E ''root'' | Some _ \<Rightarrow> ret f1) (\<lambda>f.
        andthen
          (case f of
             None \<Rightarrow> ret ()
           | Some fs \<Rightarrow>
               bind (root_mtab_entry E fs) (\<lambda>mnt.
               bind (my_addmntent E mfp mnt) (\<lambda>r.
               if r = 1 then die E EX_FILEIO ''mount: error writing %s: %s'' [AStr MOUNTED] else ret ())))
        (bind (fsys E (Fchmod (mntent_fp mfp))) (\<lambda>c.
         andthen
           (whenp (rv c < 0 \<and> err c \<noteq> EROFS)
             (die E EX_FILEIO ''mount: error changing mode of %s: %s'' [AStr MOUNTED, AInt (err c)]))
         (andthen (my_endmntent E mfp)
         (unlock_mtab E))))))))"

section \<open>The system call\<close>

definition MS_MGC_VAL :: mount_flags where "MS_MGC_VAL = 0xC0ED0000"

definition mount5 ::
  "env \<Rightarrow> string \<Rightarrow> string \<Rightarrow> string option \<Rightarrow> mount_flags \<Rightarrow> mount_arg \<Rightarrow> ('s mount_state_scheme, reply) proc" where
  "mount5 E special dir type flags data =
     bind (ssys E (Mount special dir type (uint (MS_MGC_VAL OR flags)) data)) (\<lambda>r.
     andthen (whenp (rv r = 0) (modify (mountcount_update (\<lambda>n. n + 1)))) (ret r))"

text \<open>The types of \<^verbatim>\<open>/proc/filesystems\<close> in turn. The result is the return value, the type and the error number; the
  caller reads the error number only when there is a type.\<close>

fun try_types ::
  "nat \<Rightarrow> env \<Rightarrow> string \<Rightarrow> string \<Rightarrow> mount_flags \<Rightarrow> mount_arg \<Rightarrow> ('s mount_state_scheme, int \<times> string option \<times> int) proc" where
  "try_types 0 E spec node flags data = unfinished"
| "try_types (Suc n) E spec node flags data =
     bind procnext (\<lambda>t.
     case t of
       None \<Rightarrow> bind (procclose E) (\<lambda>_. ret (- 1, None, 0))
     | Some fsname \<Rightarrow>
         if tested fsname then try_types n E spec node flags data
         else
           bind (mount5 E spec node (Some fsname) (flags AND NOT MS_NOSYS) data) (\<lambda>r.
           if rv r = 0 then
             bind (xstrdup E (Some fsname)) (\<lambda>type. bind (procclose E) (\<lambda>_. ret (0, type, err r)))
           else if err r \<noteq> EINVAL then
             bind (procclose E) (\<lambda>c. ret (1, Some ''guess'', case c of None \<Rightarrow> err r | Some e' \<Rightarrow> e'))
           else try_types n E spec node flags data))"

definition try_mount5 ::
  "env \<Rightarrow> string \<Rightarrow> string \<Rightarrow> string option \<Rightarrow> mount_flags \<Rightarrow> mount_arg \<Rightarrow> ('s mount_state_scheme, int \<times> string option \<times> int) proc" where
  "try_mount5 E spec node type0 flags data =
     (let type1 = (case type0 of None \<Rightarrow> None | Some t \<Rightarrow> if strcaseeq t ''auto'' then None else Some t) in
      bind
        (if type1 = None \<and> flags AND MS_REMOUNT = 0 then
           bind (fstype E spec) (\<lambda>t.
           bind (gets mount_verbose) (\<lambda>v.
           andthen
             (whenp (v \<noteq> 0)
               (andthen (printf_out E ''mount: you didn't specify a filesystem type for %s'' [AStr spec])
               (case t of
                  Some u \<Rightarrow> printf_out E ''       I will try type %s'' [AStr u]
                | None \<Rightarrow> printf_out E ''       I will try all types mentioned in %s'' [AStr PROC_FILESYSTEMS])))
           (ret t)))
         else ret type1) (\<lambda>type.
      if type \<noteq> None \<or> flags AND MS_REMOUNT \<noteq> 0 then
        bind (mount5 E spec node type (flags AND NOT MS_NOSYS) data) (\<lambda>r. ret (rv r, type, err r))
      else
        bind (procopen E) (\<lambda>ok.
        if \<not> ok then ret (- 1, None, 0)
        else bind (gets proc_lines) (\<lambda>ls. try_types (Suc (length ls)) E spec node flags data))))"

section \<open>Loop devices\<close>

text \<open>\<open>strtoul\<close> with base 0: a prefix \<open>0x\<close> or \<open>0\<close> selects hexadecimal or octal digits.\<close>

definition number_base :: "string \<Rightarrow> int \<times> string" where
  "number_base s =
     (if 3 \<le> length s \<and> take 1 s = ''0'' \<and> toascii_lower (s ! 1) = CHR ''x'' \<and> isxdigit (s ! 2)
      then (16, takeWhile isxdigit (drop 2 s))
      else if take 1 s = ''0'' then (8, takeWhile (\<lambda>c. isdigit c \<and> digit_val c < 8) s)
      else (10, takeWhile isdigit s))"

definition strtoul0 :: "string \<Rightarrow> int" where
  "strtoul0 s =
     (let s1 = dropWhile isspace s;
          neg = (take 1 s1 = ''-'');
          s2 = (if take 1 s1 = ''-'' \<or> take 1 s1 = ''+'' then drop 1 s1 else s1);
          (base, ds) = number_base s2;
          n = foldl (\<lambda>k c. base * k + hex_val c) 0 ds
      in if n > ULONG_MAX then ULONG_MAX else uint64 (if neg then - n else n))"

text \<open>The loop device that is asked for and the type that remains.\<close>

definition choose_loopdev :: "env \<Rightarrow> string option \<Rightarrow> ('s mount_state_scheme, string option \<times> string option) proc" where
  "choose_loopdev E type =
     bind (gets opt_loopdev) (\<lambda>loopdev.
     bind (gets opt_vfstype) (\<lambda>vfs.
     case type of
       Some t \<Rightarrow>
         if is_prefix ''lo@'' t then
           andthen (whenp (loopdev \<noteq> None) (error_msg E ''mount: loop device specified twice'' []))
           (ret (Some (drop 3 t), vfs))
         else andthen (whenp (vfs \<noteq> None) (error_msg E ''mount: type specified twice'' [])) (ret (loopdev, type))
     | None \<Rightarrow> ret (loopdev, vfs)))"

text \<open>The set-up: an exit code, or the device to mount, the flags, and the loop device.\<close>

definition attach_loop ::
  "env \<Rightarrow> string \<Rightarrow> mount_flags \<Rightarrow> string option \<Rightarrow> ('s mount_state_scheme, int + string \<times> mount_flags \<times> string option) proc" where
  "attach_loop E spec flags loopdev0 =
     bind (if loopdev0 = None \<or> loopdev0 = Some [] then find_unused_loop_device E else ret loopdev0) (\<lambda>loopdev.
     case loopdev of
       None \<Rightarrow> ret (Inl EX_SYSERR)
     | Some dev \<Rightarrow>
         bind (gets mount_verbose) (\<lambda>v.
         andthen (whenp (v \<noteq> 0) (printf_out E ''mount: going to use the loop device %s'' [AStr dev]))
         (bind (gets opt_offset) (\<lambda>off.
          bind (gets opt_encryption) (\<lambda>encryption.
          let offset = (case off of None \<Rightarrow> 0 | Some n \<Rightarrow> int32 (strtoul0 n)) in
          bind (set_loop E dev spec offset encryption (flags AND MS_RDONLY \<noteq> 0)) (\<lambda>(failed, loopro).
          if failed then ret (Inl EX_FAIL)
          else ret (Inr (dev, if loopro then flags OR MS_RDONLY else flags, Some dev))))))))"

definition loop_setup ::
  "env \<Rightarrow> string \<Rightarrow> mount_flags \<Rightarrow> string option \<Rightarrow> bool \<Rightarrow> ('s mount_state_scheme, int + string \<times> mount_flags \<times> string option) proc" where
  "loop_setup E spec flags loopdev loop =
     (if \<not> loop then ret (Inr (spec, flags, loopdev))
      else
        bind (gets fake) (\<lambda>f.
        if f \<noteq> 0 then
          bind (gets mount_verbose) (\<lambda>v.
          andthen (whenp (v \<noteq> 0) (printf_out E ''mount: skipping the setup of a loop device'' []))
          (ret (Inr (spec, flags OR MS_LOOP, loopdev))))
        else attach_loop E spec (flags OR MS_LOOP) loopdev))"

section \<open>External mount programs\<close>

definition mount_program :: "env \<Rightarrow> string \<Rightarrow> string \<Rightarrow> string \<Rightarrow> mount_flags \<Rightarrow> string option \<Rightarrow> ('s mount_state_scheme, 'a) proc" where
  "mount_program E prog spec node flags extra_opts =
     bind (psys E Getuid) (\<lambda>u.
     andthen (do_sys E (ProcCall (Setuid (rv u))))
     (bind (psys E Getgid) (\<lambda>g.
      andthen (do_sys E (ProcCall (Setgid (rv g))))
      (bind (fix_opts_string E flags extra_opts) (\<lambda>oo.
       bind (gets mount_nomtab) (\<lambda>n.
       bind (gets mount_verbose) (\<lambda>v.
       let mountargs = [prog, spec, node] @ (if n \<noteq> 0 then [''-n''] else []) @ (if v \<noteq> 0 then [''-v''] else [])
             @ (if oo \<noteq> [] then [''-o'', oo] else []) in
       bind (psys E (Execl prog mountargs)) (\<lambda>x.
       if rv x = 0 then exec_image prog mountargs else stop 1))))))))"

text \<open>The process that does not run the program forks again before it waits; a status that was not set is
  whatever the stack holds.\<close>

definition external_mount ::
  "env \<Rightarrow> string \<Rightarrow> string \<Rightarrow> string option \<Rightarrow> mount_flags \<Rightarrow> string option \<Rightarrow> ('s mount_state_scheme, int option) proc" where
  "external_mount E spec node type flags extra_opts =
     (if type = Some ''smb'' \<or> type = Some ''ncp'' then
        (let mountprog = ''/sbin/mount.'' @ str_or_empty type in
         bind (fsys E (Stat mountprog)) (\<lambda>st.
         if rv st = 0 then
           bind (psys E Fork) (\<lambda>p.
           if rv p = 0 then mount_program E mountprog spec node flags extra_opts
           else
             bind (psys E Fork) (\<lambda>p2.
             if rv p2 \<noteq> - 1 then
               bind (psys E Wait) (\<lambda>w. ret (Some (if rv w = - 1 then uninit_int E 0 else v1 w)))
             else andthen (error_msg E ''cannot fork: %s'' [AStr (strerr E (err p2))]) (ret None)))
         else ret None))
      else ret None)"

section \<open>Success\<close>

definition append_mtab :: "env \<Rightarrow> mntent \<Rightarrow> ('s mnt_state_scheme, unit) proc" where
  "append_mtab E mnt =
     andthen (lock_mtab E)
     (bind (my_setmntent E MOUNTED ''a+'') (\<lambda>(mfp, e).
      andthen
        (if mntent_fp mfp = 0 then error_msg E ''mount: can't open %s: %s'' [AStr MOUNTED, AStr (strerr E e)]
         else
           bind (my_addmntent E mfp mnt) (\<lambda>r.
           andthen (whenp (r = 1) (error_msg E ''mount: error writing %s: %s'' [AStr MOUNTED]))
           (my_endmntent E mfp)))
      (unlock_mtab E)))"

definition record_mount ::
  "env \<Rightarrow> string \<Rightarrow> string \<Rightarrow> string option \<Rightarrow> mount_flags \<Rightarrow> string option \<Rightarrow> int \<Rightarrow> int \<Rightarrow> ('s mount_state_scheme, unit) proc" where
  "record_mount E file node type flags extra_opts freq pass =
     bind (canonicalize E (Some file)) (\<lambda>fsname.
     bind (canonicalize E (Some node)) (\<lambda>dir.
     bind (fix_opts_string E (flags AND NOT MS_NOMTAB) extra_opts) (\<lambda>opts.
     let t = (case type of None \<Rightarrow> ''unknown'' | Some t \<Rightarrow> t);
         mnt = \<lparr>mnt_fsname = fsname, mnt_dir = str_or_empty dir, mnt_type = Some t, mnt_opts = opts, mnt_freq = freq, mnt_passno = pass\<rparr> in
     bind (gets mount_verbose) (\<lambda>v.
     andthen (whenp (v \<noteq> 0)
       (print_one E \<lparr>mc_fsname = str_or_empty fsname, mc_dir = str_or_empty dir, mc_type = t, mc_opts = opts\<rparr>))
     (bind (gets mount_nomtab) (\<lambda>n.
      bind (if n = 0 then mtab_is_writable E else ret False) (\<lambda>w.
      whenp w
        (if flags AND MS_REMOUNT \<noteq> 0 then update_mtab E (str_or_empty dir) (Some mnt) else append_mtab E mnt))))))))"

section \<open>Failure\<close>

definition ENOTBLK :: int where "ENOTBLK = 15"
definition ENODEV :: int where "ENODEV = 19"
definition ENOTDIR :: int where "ENOTDIR = 20"
definition EMFILE :: int where "EMFILE = 24"

definition explain_perm :: "env \<Rightarrow> string \<Rightarrow> ('s mount_state_scheme, unit) proc" where
  "explain_perm E node =
     bind (psys E Geteuid) (\<lambda>u.
     if rv u = 0 then
       bind (fsys E (Stat node)) (\<lambda>st.
       if rv st \<noteq> 0 \<or> \<not> S_ISDIR (v1 st) then error_msg E ''mount: mount point %s is not a directory'' [AStr node]
       else error_msg E ''mount: permission denied'' [])
     else error_msg E ''mount: must be superuser to use mount'' [])"

definition explain_busy :: "env \<Rightarrow> string \<Rightarrow> string \<Rightarrow> string \<Rightarrow> mount_flags \<Rightarrow> ('s mount_state_scheme, unit) proc" where
  "explain_busy E spec node type flags =
     (if flags AND MS_REMOUNT \<noteq> 0 then error_msg E ''mount: %s is busy'' [AStr node]
      else if type = ''proc'' \<and> node = ''/proc'' then
        bind (fsys E (Stat ''/proc/version'')) (\<lambda>st.
        if rv st \<noteq> 0 then error_msg E ''mount: %s is busy'' [AStr node]
        else
          bind (gets all_flag) (\<lambda>a.
          bind (gets mount_verbose) (\<lambda>v.
          whenp (a = 0 \<or> v \<noteq> 0) (error_msg E ''mount: proc already mounted'' []))))
      else
        andthen (error_msg E ''mount: %s already mounted or %s busy'' [AStr spec, AStr node])
        (bind (already E spec node) (\<lambda>_. ret ())))"

definition explain_noent :: "env \<Rightarrow> string \<Rightarrow> string \<Rightarrow> ('s mount_state_scheme, unit) proc" where
  "explain_noent E spec node =
     bind (fsys E (Lstat node)) (\<lambda>r1.
     if rv r1 \<noteq> 0 then error_msg E ''mount: mount point %s does not exist'' [AStr node]
     else
       bind (fsys E (Stat node)) (\<lambda>r2.
       if rv r2 \<noteq> 0 then error_msg E ''mount: mount point %s is a symbolic link to nowhere'' [AStr node]
       else
         bind (fsys E (Stat spec)) (\<lambda>r3.
         if rv r3 \<noteq> 0 then error_msg E ''mount: special device %s does not exist'' [AStr spec]
         else perror E ''mount'' ENOENT)))"

definition explain_inval :: "env \<Rightarrow> string \<Rightarrow> string \<Rightarrow> mount_flags \<Rightarrow> ('s mount_state_scheme, unit) proc" where
  "explain_inval E spec node flags =
     (if flags AND MS_REMOUNT \<noteq> 0 then error_msg E ''mount: %s not mounted already, or bad option'' [AStr node]
      else
        andthen (error_msg E (''mount: wrong fs type, bad option, bad superblock on %s,'' @ [CHR 0x0A] @
            ''       or too many mounted file systems'') [AStr spec])
        (bind (fsys E (Stat spec)) (\<lambda>st.
         whenp (rv st = 0 \<and> S_ISBLK (v1 st))
           (bind (fsys E (Open spec O_RDONLY)) (\<lambda>fd.
            whenp (rv fd \<ge> 0)
              (bind (ssys E (Blkgetsize (rv fd))) (\<lambda>z.
               andthen (whenp (rv z = 0 \<and> v1 z \<le> 2)
                 (error_msg E (''       (aren't you trying to mount an extended partition,'' @ [CHR 0x0A] @
                   ''       instead of some logical partition inside?)'') []))
               (do_sys E (FileCall (Close (rv fd)))))))))))"

definition explain_nodev :: "env \<Rightarrow> string \<Rightarrow> string \<Rightarrow> ('s mount_state_scheme, unit) proc" where
  "explain_nodev E spec type =
     bind (is_in_proc E type) (\<lambda>known.
     if known \<or> type = ''guess'' then error_msg E ''mount: %s has wrong major or minor number'' [AStr spec]
     else
       bind (gets procfs) (\<lambda>f.
       if f \<noteq> 0 then
         (let lowtype = map toascii_lower type in
          andthen (error_msg E ''mount: fs type %s not supported by kernel'' [AStr type])
          (bind (xstrdup E (Some type)) (\<lambda>_.
           bind (if lowtype \<noteq> type then is_in_proc E lowtype else ret False) (\<lambda>low.
           if low then error_msg E ''mount: probably you meant %s'' [AStr lowtype]
           else
             bind (if is_prefix ''iso'' lowtype then is_in_proc E ''iso9660'' else ret False) (\<lambda>iso.
             whenp iso (error_msg E ''mount: maybe you meant iso9660 ?'' []))))))
       else error_msg E ''mount: %s has wrong device number or fs type %s not supported'' [AStr spec, AStr type]))"

definition explain_notblk :: "env \<Rightarrow> string \<Rightarrow> ('s mount_state_scheme, unit) proc" where
  "explain_notblk E spec =
     bind (fsys E (Stat spec)) (\<lambda>st.
     if rv st \<noteq> 0 then error_msg E ''mount: %s is not a block device, and stat fails?'' [AStr spec]
     else if S_ISBLK (v1 st) then
       error_msg E (''mount: the kernel does not recognize %s as a block device'' @ [CHR 0x0A] @
         ''       (maybe `insmod driver'?)'') [AStr spec]
     else if S_ISREG (v1 st) then error_msg E ''mount: %s is not a block device (maybe try `-o loop'?)'' [AStr spec]
     else error_msg E ''mount: %s is not a block device'' [AStr spec])"

text \<open>All cases of the switch but the write-protected device.\<close>

definition explain_failure ::
  "env \<Rightarrow> string \<Rightarrow> string \<Rightarrow> string \<Rightarrow> mount_flags \<Rightarrow> int \<Rightarrow> ('s mount_state_scheme, unit) proc" where
  "explain_failure E spec node type flags mnt_err =
     (if mnt_err = EPERM then explain_perm E node
      else if mnt_err = EBUSY then explain_busy E spec node type flags
      else if mnt_err = ENOENT then explain_noent E spec node
      else if mnt_err = ENOTDIR then error_msg E ''mount: mount point %s is not a directory'' [AStr node]
      else if mnt_err = EINVAL then explain_inval E spec node flags
      else if mnt_err = EMFILE then error_msg E ''mount table full'' []
      else if mnt_err = EIO then error_msg E ''mount: %s: can't read superblock'' [AStr spec]
      else if mnt_err = ENODEV then explain_nodev E spec type
      else if mnt_err = ENOTBLK then explain_notblk E spec
      else if mnt_err = ENXIO then error_msg E ''mount: %s is not a valid block device'' [AStr spec]
      else error_msg E ''mount: %s'' [AStr (strerr E mnt_err)])"

section \<open>Trying to mount\<close>

text \<open>The check that an ordinary user may mount the file system.\<close>

definition check_user :: "env \<Rightarrow> string \<Rightarrow> string \<Rightarrow> mount_flags \<Rightarrow> ('s mount_state_scheme, unit) proc" where
  "check_user E spec node flags =
     bind (gets mount_suid) (\<lambda>suid.
     whenp (suid \<noteq> 0 \<and> flags AND MS_USER = 0)
       (bind (already E spec node) (\<lambda>a.
        if a then die E EX_USAGE ''mount failed'' []
        else die E EX_USAGE ''mount: only root can mount %s on %s'' [AStr spec, AStr node])))"

text \<open>The options with \<open>ro\<close> at the end; \<open>realloc\<close> is not checked.\<close>

definition add_ro :: "env \<Rightarrow> string option \<Rightarrow> ('s mount_state_scheme, string) proc" where
  "add_ro E opts =
     (case opts of
        None \<Rightarrow> ret ''ro''
      | Some t \<Rightarrow>
          bind (xstrdup E (Some t)) (\<lambda>_.
          bind (psys E (Malloc (int (length t) + 4))) (\<lambda>r.
          if rv r = 0 then fault else ret (t @ '',ro''))))"

text \<open>The type of a second attempt.\<close>

definition retry_type :: "bool \<Rightarrow> string option \<Rightarrow> string option \<Rightarrow> string option" where
  "retry_type loop type0 type =
     (let t = (if loop then type0 else type) in if t = Some ''guess'' then None else t)"

text \<open>One attempt after the loop device and NFS have been dealt with: the exit code, or the type to retry with
  because the device is write-protected.\<close>

definition mount_device ::
  "env \<Rightarrow> string \<Rightarrow> string \<Rightarrow> string \<Rightarrow> string option \<Rightarrow> bool \<Rightarrow> string option \<Rightarrow> mount_flags \<Rightarrow> string option \<Rightarrow> mount_arg \<Rightarrow>
     int \<Rightarrow> int \<Rightarrow> ('s mount_state_scheme, int + string option) proc" where
  "mount_device E spec loopfile node loopdev loop type0 flags extra_opts mount_opts freq pass =
     andthen (block_signals E True)
     (bind (gets fake) (\<lambda>f.
      bind (if f \<noteq> 0 then ret (0, type0, 0) else try_mount5 E spec node type0 (flags AND NOT MS_NOSYS) mount_opts) (\<lambda>(r, type, mnt_err).
      if r = 0 then
        andthen (whenp loop (modify (opt_loopdev_update (\<lambda>_. loopdev))))
        (andthen (record_mount E (if loop then loopfile else spec) node type flags extra_opts freq pass)
        (andthen (block_signals E False)
        (ret (Inl 0))))
      else
        andthen (whenp loop (bind (del_loop E spec) (\<lambda>_. ret ())))
        (andthen (block_signals E False)
        (case type of
           None \<Rightarrow> andthen (error_msg E ''mount: you must specify the filesystem type'' []) (ret (Inl EX_FAIL))
         | Some t \<Rightarrow>
             if mnt_err = EACCES \<or> mnt_err = EROFS then
               bind (gets added_ro) (\<lambda>again.
               if again then
                 andthen (error_msg E ''mount: block device %s is not permitted on its filesystem'' [AStr spec]) (ret (Inl EX_FAIL))
               else ret (Inr type))
             else andthen (explain_failure E spec node t flags mnt_err) (ret (Inl EX_FAIL)))))))"

text \<open>One attempt: the exit code, or the type and whether a loop device was used.\<close>

definition mount_attempt ::
  "env \<Rightarrow> string \<Rightarrow> string \<Rightarrow> string option \<Rightarrow> string option \<Rightarrow> int \<Rightarrow> int \<Rightarrow> bool \<Rightarrow>
     ('s mount_state_scheme, int + string option \<times> bool) proc" where
  "mount_attempt E spec0 node0 type0 opts0 freq pass bg =
     bind (xstrdup E (Some spec0)) (\<lambda>_.
     bind (xstrdup E (Some node0)) (\<lambda>_.
     bind (xstrdup E type0) (\<lambda>_.
     bind (xstrdup E opts0) (\<lambda>_.
     bind (xstrdup E opts0) (\<lambda>_.
     bind (parse_opts E opts0) (\<lambda>(flags0, extra_opts0).
     andthen (check_user E spec0 node0 flags0)
     (bind (gets all_flag) (\<lambda>a.
      if a \<noteq> 0 \<and> flags0 AND MS_NOAUTO \<noteq> 0 then ret (Inl 0)
      else
        bind (choose_loopdev E type0) (\<lambda>(loopdev0, type).
        bind (gets opt_offset) (\<lambda>off.
        bind (gets opt_encryption) (\<lambda>encryption.
        let loop = (flags0 AND MS_LOOP \<noteq> 0 \<or> loopdev0 \<noteq> None \<or> off \<noteq> None \<or> encryption \<noteq> None) in
        bind (loop_setup E spec0 flags0 loopdev0 loop) (\<lambda>ls.
        case ls of
          Inl code \<Rightarrow> ret (Inl code)
        | Inr (spec, flags, loopdev) \<Rightarrow>
            bind (gets fake) (\<lambda>f.
            bind
              (if f = 0 \<and> type = Some ''nfs'' then nfsmount E spec node0 flags extra_opts0 bg
               else ret (0, extra_opts0, case extra_opts0 of None \<Rightarrow> No_arg | Some t \<Rightarrow> Text_arg t)) (\<lambda>(code, extra_opts, mount_opts).
            if code \<noteq> 0 then ret (Inl code)
            else
              bind (external_mount E spec node0 type flags extra_opts) (\<lambda>ext.
              case ext of
                Some status \<Rightarrow> ret (Inl status)
              | None \<Rightarrow>
                  bind (mount_device E spec spec0 node0 loopdev loop type flags extra_opts mount_opts freq pass) (\<lambda>r.
                  case r of Inl c \<Rightarrow> ret (Inl c) | Inr t \<Rightarrow> ret (Inr (t, loop))))))))))))))))))"

text \<open>A write-protected device is mounted again read-only, once; the second attempt never asks for a third one, so
  the bound on the depth of the recursion is 2.\<close>

fun try_mount ::
  "nat \<Rightarrow> env \<Rightarrow> string \<Rightarrow> string \<Rightarrow> string option \<Rightarrow> string option \<Rightarrow> int \<Rightarrow> int \<Rightarrow> bool \<Rightarrow> ('s mount_state_scheme, int) proc" where
  "try_mount 0 E spec0 node0 type0 opts0 freq pass bg = unfinished"
| "try_mount (Suc n) E spec0 node0 type0 opts0 freq pass bg =
     bind (mount_attempt E spec0 node0 type0 opts0 freq pass bg) (\<lambda>r.
     case r of
       Inl code \<Rightarrow> ret code
     | Inr (type, loop) \<Rightarrow>
         andthen (modify (added_ro_update (\<lambda>_. True)))
         (bind (add_ro E opts0) (\<lambda>opts.
          andthen (error_msg E ''mount: %s%s is write-protected, mounting read-only''
            [AStr (if loop then [] else ''block device ''), AStr spec0])
          (try_mount n E spec0 node0 (retry_type loop type0 type) (Some opts) freq pass bg))))"

definition try_mount_one ::
  "env \<Rightarrow> string \<Rightarrow> string \<Rightarrow> string option \<Rightarrow> string option \<Rightarrow> int \<Rightarrow> int \<Rightarrow> bool \<Rightarrow> ('s mount_state_scheme, int) proc" where
  "try_mount_one E spec0 node0 type0 opts0 freq pass bg = try_mount 2 E spec0 node0 type0 opts0 freq pass bg"

section \<open>In the background\<close>

definition PROC_NAME :: string where "PROC_NAME = ''mount: ''"

text \<open>The environment is copied, and the area from the first argument to the end of the last string takes the new
  name; \<open>sizeof (PROC_NAME)\<close> counts the terminating null character, and \<open>strncpy\<close> fills up with null characters. The null pointer that \<open>argv0[1]\<close> becomes is not read again.\<close>

definition overlay :: "nat \<Rightarrow> string \<Rightarrow> string \<Rightarrow> string" where
  "overlay k new area = take k area @ new @ drop (k + length new) area"

definition ps_name :: "string \<Rightarrow> string \<Rightarrow> string" where
  "ps_name area spec =
     (let l = length area; sz = length PROC_NAME + 1; n = l - sz - 1 in
      if l > sz then overlay (sz - 1) (take n (spec @ replicate n NUL)) (overlay 0 (PROC_NAME @ [NUL]) area) else area)"

definition set_proc_name :: "env \<Rightarrow> string \<Rightarrow> ('s mount_state_scheme, unit) proc" where
  "set_proc_name E spec =
     bind (gets envp0) (\<lambda>envp.
     bind (xmalloc E (8 * (int (length envp) + 1))) (\<lambda>_.
     andthen (run_all (map (\<lambda>v. bind (xstrdup E (Some v)) (\<lambda>_. ret ())) envp))
     (modify (argv_area_update (\<lambda>a. ps_name a spec)))))"

definition mount_one ::
  "env \<Rightarrow> string \<Rightarrow> string \<Rightarrow> string option \<Rightarrow> string option \<Rightarrow> string option \<Rightarrow> int \<Rightarrow> int \<Rightarrow> ('s mount_state_scheme, int) proc" where
  "mount_one E spec node type0 opts0 cmdlineopts freq pass =
     bind
       (case (opts0, cmdlineopts) of
          (None, _) \<Rightarrow> ret cmdlineopts
        | (Some _, None) \<Rightarrow> ret opts0
        | (Some _, Some _) \<Rightarrow> bind (xstrconcat3 E opts0 (Some '','') cmdlineopts) (\<lambda>t. ret (Some t))) (\<lambda>opts.
     bind
       (if type0 = None \<and> CHR '':'' \<in> set spec then
          bind (gets mount_verbose) (\<lambda>v.
          andthen (whenp (v \<noteq> 0) (printf_out E ''mount: no type was given - I'll assume nfs because of the colon'' []))
          (ret (Some ''nfs'')))
        else ret type0) (\<lambda>type.
     bind (try_mount_one E spec node type opts freq pass False) (\<lambda>status.
     if status \<noteq> EX_BG then ret status
     else
       andthen (printf_out E (''mount: backgrounding '' @ [CHR 0x22] @ ''%s'' @ [CHR 0x22]) [AStr spec])
       (andthen (do_sys E (FileCall (Fflush 1)))
       (bind (psys E Fork) (\<lambda>p.
        if rv p > 0 then ret 0
        else
          bind (xstrdup E (Some spec)) (\<lambda>_.
          bind (xstrdup E (Some node)) (\<lambda>_.
          bind (xstrdup E type) (\<lambda>_.
          bind (xstrdup E opts) (\<lambda>_.
          andthen (set_proc_name E spec)
          (bind (try_mount_one E spec node type opts freq pass True) (\<lambda>status2.
           bind (gets mount_verbose) (\<lambda>v.
           andthen (whenp (v \<noteq> 0 \<and> status2 \<noteq> 0) (printf_out E (''mount: giving up '' @ [CHR 0x22] @ ''%s'' @ [CHR 0x22]) [AStr spec]))
           (stop 0))))))))))))))"

end
