(* ===== verification/MountAll.thy ===== *)
theory MountAll
  imports Mount
begin

text \<open>
  Mounting all file systems of \<^verbatim>\<open>/etc/fstab\<close> and the main program of mount, the rest of \<^verbatim>\<open>src/mount.c\<close>. The
  options that \<open>getopt_long\<close> returns are an input, as a list of option characters with their arguments.
\<close>

section \<open>Chains of file systems\<close>

definition mounted :: "env \<Rightarrow> string \<Rightarrow> string \<Rightarrow> ('s mnt_state_scheme, bool) proc" where
  "mounted E spec0 node0 =
     bind (canonicalize E (Some spec0)) (\<lambda>spec.
     bind (canonicalize E (Some node0)) (\<lambda>node.
     bind (mtab_head E) (\<lambda>head.
     ret (list_ex (\<lambda>mc. spec = Some (mc_fsname mc) \<and> node = Some (mc_dir mc)) (chain head)))))"

definition hex_char :: "nat \<Rightarrow> char" where
  "hex_char n = (if n < 10 then digit_char n else char_of (n + 87))"

fun show_hex :: "nat \<Rightarrow> string" where
  "show_hex n = (if n < 16 then [hex_char n] else show_hex (n div 16) @ [hex_char (n mod 16)])"

declare show_hex.simps [simp del]

definition DISKMAJOR :: "int \<Rightarrow> int" where
  "DISKMAJOR m = int32 m AND NOT 15"

text \<open>What is mounted one after the other: the device of a disk, or the host of an NFS file system.\<close>

definition group_of :: "env \<Rightarrow> mntentchn \<Rightarrow> ('s mount_state_scheme, string option) proc" where
  "group_of E mc =
     bind (gets optfork) (\<lambda>fork.
     if fork = 0 then ret None
     else
       bind (fsys E (Stat_rdev (mc_fsname mc))) (\<lambda>st.
       let g = (if rv st = 0 \<and> S_ISBLK (v1 st)
                then Some (CHR ''#'' # show_hex (nat (uint32 (DISKMAJOR (v2 st))))) else None) in
       if mc_type mc = ''nfs'' then
         bind (xstrdup E (Some (mc_fsname mc))) (\<lambda>_. ret (Some (takeWhile (\<lambda>c. c \<noteq> CHR '':'') (mc_fsname mc))))
       else ret g))"

type_synonym child = "string option \<times> mntentchn list"

text \<open>A new element goes to the end of the first chain of its group, or starts a chain.\<close>

fun add_to_group :: "string \<Rightarrow> mntentchn \<Rightarrow> child list \<Rightarrow> child list option" where
  "add_to_group g mc [] = None"
| "add_to_group g mc ((h, mcs) # cs) =
     (if h = Some g then Some ((h, mcs @ [mc]) # cs) else map_option (\<lambda>cs'. (h, mcs) # cs') (add_to_group g mc cs))"

definition add_child :: "env \<Rightarrow> string option \<Rightarrow> mntentchn \<Rightarrow> child list \<Rightarrow> ('s mount_state_scheme, child list) proc" where
  "add_child E g mc cs =
     (case (case g of None \<Rightarrow> None | Some h \<Rightarrow> add_to_group h mc cs) of
        Some cs' \<Rightarrow> ret cs'
      | None \<Rightarrow> bind (xmalloc E 40) (\<lambda>_. bind (xstrdup E g) (\<lambda>_. ret (cs @ [(g, [mc])]))))"

definition select_entry ::
  "env \<Rightarrow> string option list \<Rightarrow> mntentchn \<Rightarrow> child list \<Rightarrow> ('s mount_state_scheme, child list) proc" where
  "select_entry E types mc cs =
     bind (matching_types (mc_type mc) types) (\<lambda>m.
     if m \<and> mc_dir mc \<noteq> ''/'' \<and> mc_dir mc \<noteq> ''root'' then
       bind (mounted E (mc_fsname mc) (mc_dir mc)) (\<lambda>already_there.
       if already_there then
         bind (gets mount_verbose) (\<lambda>v.
         andthen (whenp (v \<noteq> 0)
           (printf_out E ''mount: %s already mounted on %s'' [AStr (mc_fsname mc), AStr (mc_dir mc)]))
         (ret cs))
       else
         bind (xmalloc E 48) (\<lambda>_.
         bind (group_of E mc) (\<lambda>g.
         add_child E g mc cs)))
     else ret cs)"

fun build_chains ::
  "env \<Rightarrow> string option list \<Rightarrow> mntentchn list \<Rightarrow> child list \<Rightarrow> ('s mount_state_scheme, child list) proc" where
  "build_chains E types [] cs = ret cs"
| "build_chains E types (mc # mcs) cs = bind (select_entry E types mc cs) (build_chains E types mcs)"

section \<open>Mounting the chains\<close>

fun mount_chain :: "env \<Rightarrow> string option \<Rightarrow> mntentchn list \<Rightarrow> int \<Rightarrow> ('s mount_state_scheme, int) proc" where
  "mount_chain E opts [] status = ret status"
| "mount_chain E opts (mc # mcs) status =
     bind (mount_one E (mc_fsname mc) (mc_dir mc) (Some (mc_type mc)) (Some (mc_opts mc)) opts 0 0) (\<lambda>r.
     mount_chain E opts mcs (status OR r))"

definition some_ok :: "int \<Rightarrow> ('s mount_state_scheme, int) proc" where
  "some_ok status = bind (gets mountcount) (\<lambda>n. ret (if n \<noteq> 0 then status OR EX_SOMEOK else status))"

text \<open>All chains, each in a process of its own with the \<open>--fork\<close> option; the numbers of the processes.\<close>

fun run_chains ::
  "env \<Rightarrow> string option \<Rightarrow> child list \<Rightarrow> int \<Rightarrow> ('s mount_state_scheme, int \<times> int list) proc" where
  "run_chains E opts [] status = ret (status, [])"
| "run_chains E opts ((g, mcs) # cs) status =
     bind (gets optfork) (\<lambda>fork.
     bind (if fork = 0 then ret (- 1) else bind (psys E Fork) (\<lambda>p.
       andthen (whenp (rv p = - 1) (error_msg E ''mount: cannot fork: %s'' [AStr (strerr E (err p))])) (ret (rv p)))) (\<lambda>p.
     if p = 0 \<or> p = - 1 then
       bind (mount_chain E opts mcs status) (\<lambda>st1.
       bind (some_ok st1) (\<lambda>st2.
       if p = 0 then stop st2 else run_chains E opts cs st2))
     else bind (run_chains E opts cs status) (\<lambda>(st, pids). ret (st, p # pids))))"

fun wait_child :: "nat \<Rightarrow> env \<Rightarrow> int \<Rightarrow> int \<Rightarrow> ('s mount_state_scheme, int) proc" where
  "wait_child 0 E p status = unfinished"
| "wait_child (Suc n) E p status =
     bind (psys E (Waitpid p False)) (\<lambda>w.
     if rv w = - 1 then
       if err w = EINTR then wait_child n E p status else andthen (perror E ''waitpid'' (err w)) (ret status)
     else if WIFEXITED (v1 w) then ret (status OR WEXITSTATUS (v1 w))
     else ret (status OR EX_SYSERR))"

fun wait_children :: "env \<Rightarrow> int list \<Rightarrow> int \<Rightarrow> ('s mount_state_scheme, int) proc" where
  "wait_children E [] status = ret status"
| "wait_children E (p # ps) status = bind (wait_child (loop_bound E) E p status) (wait_children E ps)"

definition mount_all :: "env \<Rightarrow> string option list \<Rightarrow> string option \<Rightarrow> ('s mount_state_scheme, int) proc" where
  "mount_all E types opts =
     bind (fstab_head E) (\<lambda>head.
     bind (build_chains E types (chain head) []) (\<lambda>cs.
     bind (run_chains E opts cs 0) (\<lambda>(status, pids).
     bind (wait_children E pids status) some_ok)))"

section \<open>The main program\<close>

definition version :: string where "version = ''mount-2.8a''"

definition mount_usage_string :: string where
  "mount_usage_string =
     ''usage: mount [-hV]'' @ [CHR 0x0A] @
     ''       mount -a [-nfFrsvw] [-t vfstypes]'' @ [CHR 0x0A] @
     ''       mount [-nfrsvw] [-o options] special | node'' @ [CHR 0x0A] @
     ''       mount [-nfrsvw] [-t vfstype] [-o options] special node'' @ [CHR 0x0A]"

definition mount_usage :: "env \<Rightarrow> bool \<Rightarrow> int \<Rightarrow> ('s mnt_state_scheme, 'a) proc" where
  "mount_usage E to_stdout n =
     andthen ((if to_stdout then printf_out else fprintf_err) E ''%s'' [AStr mount_usage_string])
     (andthen (unlock_mtab E)
     (stop n))"

text \<open>Descriptors 0 to 2 are taken, and the first one above is closed.\<close>

fun take_std_fds :: "nat \<Rightarrow> env \<Rightarrow> ('s os_state_scheme, unit) proc" where
  "take_std_fds 0 E = unfinished"
| "take_std_fds (Suc n) E =
     bind (fsys E (Open ''/dev/null'' O_RDWR)) (\<lambda>fd.
     if rv fd = 0 \<or> rv fd = 1 \<or> rv fd = 2 then take_std_fds n E
     else whenp (rv fd > 2) (do_sys E (FileCall (Close (rv fd)))))"

text \<open>The options: \<open>-o\<close> and \<open>-t\<close> are values of local variables.\<close>

definition mount_option ::
  "env \<Rightarrow> char \<Rightarrow> string \<Rightarrow> string option \<times> string option list \<Rightarrow>
     ('s mount_state_scheme, string option \<times> string option list) proc" where
  "mount_option E c optarg v =
     (if c = CHR ''a'' then andthen (modify (all_flag_update (\<lambda>n. n + 1))) (ret v)
      else if c = CHR ''f'' then andthen (modify (fake_update (\<lambda>n. n + 1))) (ret v)
      else if c = CHR ''F'' then andthen (modify (optfork_update (\<lambda>n. n + 1))) (ret v)
      else if c = CHR ''h'' then mount_usage E True 0
      else if c = CHR ''n'' then andthen (modify (mount_nomtab_update (\<lambda>n. n + 1))) (ret v)
      else if c = CHR ''o'' then
        bind (case fst v of
                Some t \<Rightarrow> bind (xstrconcat3 E (Some t) (Some '','') (Some optarg)) (\<lambda>u. ret (Some u))
              | None \<Rightarrow> xstrdup E (Some optarg)) (\<lambda>opts.
        ret (opts, snd v))
      else if c = CHR ''r'' then andthen (modify (\<lambda>s. s\<lparr>readonly := 1, readwrite := 0\<rparr>)) (ret v)
      else if c = CHR ''s'' then andthen (modify (sloppy_update (\<lambda>_. 1))) (ret v)
      else if c = CHR ''t'' then bind (parse_list E (Some optarg)) (\<lambda>types. ret (fst v, types))
      else if c = CHR ''v'' then andthen (modify (mount_verbose_update (\<lambda>n. n + 1))) (ret v)
      else if c = CHR ''V'' then andthen (printf_out E ''mount: %s'' [AStr version]) (stop 0)
      else if c = CHR ''w'' then andthen (modify (\<lambda>s. s\<lparr>readwrite := 1, readonly := 0\<rparr>)) (ret v)
      else if c = NUL then ret v
      else mount_usage E False EX_USAGE)"

fun mount_options ::
  "env \<Rightarrow> (char \<times> string) list \<Rightarrow> string option \<times> string option list \<Rightarrow>
     ('s mount_state_scheme, string option \<times> string option list) proc" where
  "mount_options E [] v = ret v"
| "mount_options E ((c, optarg) # cs) v = bind (mount_option E c optarg v) (mount_options E cs)"

text \<open>A user who is not root may only name one file system, with no options but \<open>-r\<close>, \<open>-s\<close>, \<open>-F\<close> and \<open>-v\<close>.\<close>

definition check_ids :: "env \<Rightarrow> string option \<Rightarrow> string option list \<Rightarrow> string list \<Rightarrow> ('s mount_state_scheme, unit) proc" where
  "check_ids E opts types args =
     bind (psys E Getuid) (\<lambda>u.
     bind (psys E Geteuid) (\<lambda>e.
     whenp (rv u \<noteq> rv e)
       (andthen (modify (mount_suid_update (\<lambda>_. 1)))
       (bind (gets (\<lambda>s. readwrite s \<noteq> 0 \<or> mount_nomtab s \<noteq> 0 \<or> all_flag s \<noteq> 0 \<or> fake s \<noteq> 0)) (\<lambda>b.
        whenp (types \<noteq> [] \<or> opts \<noteq> None \<or> b \<or> length args \<noteq> 1)
          (die E EX_USAGE ''mount: only root can do that'' []))))))"

definition prepare_mtab :: "env \<Rightarrow> ('s mount_state_scheme, unit) proc" where
  "prepare_mtab E =
     bind (gets mount_nomtab) (\<lambda>n.
     bind (if n = 0 then mtab_does_not_exist E else ret False) (\<lambda>absent.
     whenp absent
       (bind (gets mount_verbose) (\<lambda>v.
        andthen (whenp (v > 1) (printf_out E ''mount: no %s found - creating it..'' [AStr MOUNTED]))
        (create_mtab E)))))"

text \<open>The entry a name stands for: mtab first, then fstab by device and by directory, then the name as it was
  given.\<close>

definition first_found :: "('s, 'a option) proc \<Rightarrow> ('s, 'a option) proc \<Rightarrow> ('s, 'a option) proc" where
  "first_found m n = bind m (\<lambda>r. case r of Some _ \<Rightarrow> ret r | None \<Rightarrow> n)"

definition find_entry :: "env \<Rightarrow> string \<Rightarrow> string \<Rightarrow> ('s mnt_state_scheme, mntentchn option) proc" where
  "find_entry E spec arg =
     first_found (getmntfile E spec)
     (first_found (getfsspec E spec)
     (first_found (getfsfile E spec)
     (first_found (getfsspec E arg)
     (getfsfile E arg))))"

definition mount_named :: "env \<Rightarrow> string \<Rightarrow> string option \<Rightarrow> ('s mount_state_scheme, int) proc" where
  "mount_named E arg opts =
     bind (canonicalize E (Some arg)) (\<lambda>spec.
     bind (find_entry E (str_or_empty spec) arg) (\<lambda>m.
     case m of
       None \<Rightarrow>
         die E EX_USAGE ''mount: can't find %s in %s or %s'' [AStr (str_or_empty spec), AStr MOUNTED, AStr PATH_FSTAB]
     | Some mc \<Rightarrow>
         bind (xstrdup E (Some (mc_fsname mc))) (\<lambda>_.
         bind (xstrdup E (Some (mc_dir mc))) (\<lambda>_.
         bind (xstrdup E (Some (mc_type mc))) (\<lambda>_.
         mount_one E (mc_fsname mc) (mc_dir mc) (Some (mc_type mc)) (Some (mc_opts mc)) opts 0 0)))))"

definition main_but_defunct :: "env \<Rightarrow> (char \<times> string) list \<Rightarrow> string list \<Rightarrow> ('s mount_state_scheme, int) proc" where
  "main_but_defunct E optv args =
     andthen (take_std_fds (loop_bound E) E)
     (bind (mount_options E optv (None, [])) (\<lambda>(opts, types).
      bind (gets all_flag) (\<lambda>a.
      if args = [] \<and> a = 0 then
        if opts \<noteq> None then mount_usage E False EX_USAGE else print_all E types
      else
        andthen (check_ids E opts types args)
        (andthen (prepare_mtab E)
        (bind
          (case args of
             [] \<Rightarrow>
               bind (mount_all E types opts) (\<lambda>result.
               bind (gets mount_verbose) (\<lambda>v.
               andthen (whenp (result = 0 \<and> v \<noteq> 0) (error_msg E ''not mounted anything'' [])) (ret result)))
           | [arg] \<Rightarrow> if types \<noteq> [] then mount_usage E False EX_USAGE else mount_named E arg opts
           | [spec, node] \<Rightarrow>
               (case types of
                  [] \<Rightarrow> mount_one E spec node None None opts 0 0
                | [t] \<Rightarrow> mount_one E spec node t None opts 0 0
                | _ \<Rightarrow> mount_usage E False EX_USAGE)
           | _ \<Rightarrow> mount_usage E False EX_USAGE) (\<lambda>result.
         stop (if result = EX_SOMEOK then 0 else result)))))))"

end
