(* ===== verification/MountPolicy.thy ===== *)
theory MountPolicy
  imports MountAll
begin

text \<open>
  What the operations of the mount program may do: a policy is a predicate on system calls, and an operation is \<open>tame\<close>
  under it when it only makes calls the policy allows, counts every successful mount, never forgets a read-only
  retry or that it works for an ordinary user, and never changes a table that has been read. Tameness composes; the
  locales below prove it once for all operations, and the policies of the properties are interpretations.
\<close>

section \<open>Tame operations\<close>

named_theorems tame_intro \<open>rules: an operation is tame\<close>

fun is_mount :: "syscall \<Rightarrow> bool" where
  "is_mount (SysCall (Mount a b t f d)) = True"
| "is_mount c = False"

text \<open>The calls an ordinary user must not be able to cause.\<close>

fun is_privileged :: "syscall \<Rightarrow> bool" where
  "is_privileged (SysCall (Mount a b t f d)) = True"
| "is_privileged (SysCall (Umount d)) = True"
| "is_privileged (SysCall (Remount_ro a b)) = True"
| "is_privileged (SysCall (Loop_set_fd a b)) = True"
| "is_privileged (SysCall (Loop_set_status a b c)) = True"
| "is_privileged (SysCall (Loop_clr_fd a)) = True"
| "is_privileged (SysCall (Reboot a)) = True"
| "is_privileged (ProcCall Fork) = True"
| "is_privileged (ProcCall (Execl p a)) = True"
| "is_privileged (ProcCall (Setuid u)) = True"
| "is_privileged c = False"

lemma mount_privileged: "is_mount c \<Longrightarrow> is_privileged c"
  by (cases c rule: is_mount.cases) simp_all

lemma log_call_ordinary: "is_log_call c \<Longrightarrow> \<not> is_privileged c"
  by (cases c rule: is_log_call.cases) simp_all

definition mount_ok :: "event \<Rightarrow> bool" where
  "mount_ok e \<longleftrightarrow> is_mount (fst e) \<and> rv (snd e) = 0"

text \<open>What may change from one state to the next. The first two arguments say whether the tables of mtab and of fstab are
  frozen once they have been read; they are not while they are being read.\<close>

definition onward :: "bool \<Rightarrow> bool \<Rightarrow> 's mount_state_scheme \<Rightarrow> 's mount_state_scheme \<Rightarrow> bool" where
  "onward mf ff s s' \<longleftrightarrow> (added_ro s \<longrightarrow> added_ro s') \<and> (mount_suid s \<noteq> 0 \<longrightarrow> mount_suid s' \<noteq> 0) \<and>
     (got_mtab s \<longrightarrow> got_mtab s' \<and> (mf \<longrightarrow> mounttable s' = mounttable s)) \<and>
     (got_fstab s \<longrightarrow> got_fstab s' \<and> (ff \<longrightarrow> fstab s' = fstab s))"

definition advance :: "bool \<Rightarrow> bool \<Rightarrow> (syscall \<Rightarrow> bool) \<Rightarrow> 's mount_state_scheme \<Rightarrow> 's mount_state_scheme \<Rightarrow> bool" where
  "advance mf ff Q s s' \<longleftrightarrow> onward mf ff s s' \<and> (\<exists>es. trace s' = trace s @ es \<and> (\<forall>e \<in> set es. Q (fst e)) \<and>
     mountcount s' = mountcount s + int (length (filter mount_ok es)))"

definition tamed :: "bool \<Rightarrow> bool \<Rightarrow> (syscall \<Rightarrow> bool) \<Rightarrow> ('s mount_state_scheme, 'a) proc \<Rightarrow> bool" where
  "tamed mf ff Q m \<longleftrightarrow> moves (advance mf ff Q) m"

abbreviation tame :: "(syscall \<Rightarrow> bool) \<Rightarrow> ('s mount_state_scheme, 'a) proc \<Rightarrow> bool" where
  "tame \<equiv> tamed True True"

lemma onward_refl: "onward mf ff s s"
  by (simp add: onward_def)

lemma onward_trans: "onward mf ff s t \<Longrightarrow> onward mf ff t u \<Longrightarrow> onward mf ff s u"
  unfolding onward_def by metis

interpretation steps: state_preorder "advance mf ff Q"
proof
  fix s t u :: "'a mount_state_scheme"
  show "advance mf ff Q s s" by (simp add: advance_def onward_refl)
  assume "advance mf ff Q s t" and "advance mf ff Q t u"
  then obtain es es' where
    "trace t = trace s @ es" "\<forall>e \<in> set es. Q (fst e)" "mountcount t = mountcount s + int (length (filter mount_ok es))"
    "trace u = trace t @ es'" "\<forall>e \<in> set es'. Q (fst e)" "mountcount u = mountcount t + int (length (filter mount_ok es'))"
    and "onward mf ff s t" "onward mf ff t u" by (auto simp: advance_def)
  then show "advance mf ff Q s u"
    unfolding advance_def by (intro conjI exI [of _ "es @ es'"] onward_trans [of mf ff s t u]) auto
qed

lemma onward_got: "advance mf ff Q s s' \<Longrightarrow> got_mtab s \<Longrightarrow> got_mtab s'" "advance mf ff Q s s' \<Longrightarrow> got_fstab s \<Longrightarrow> got_fstab s'"
  by (simp_all add: advance_def onward_def)

lemma tameD:
  assumes "tamed mf ff Q m" and "m s = (r, s')"
  shows "advance mf ff Q s s'"
  using assms unfolding tamed_def by (rule movesD)

lemma advance_mono: "advance mf ff P s s' \<Longrightarrow> (\<And>c. P c \<Longrightarrow> Q c) \<Longrightarrow> advance mf ff Q s s'"
  unfolding advance_def by meson

lemma tame_mono: "tamed mf ff P m \<Longrightarrow> (\<And>c. P c \<Longrightarrow> Q c) \<Longrightarrow> tamed mf ff Q m"
  unfolding tamed_def moves_def by (meson advance_mono)

lemma tame_basic [tame_intro]:
  "tamed mf ff Q (ret x)" "tamed mf ff Q (gets f)" "tamed mf ff Q (stop c)" "tamed mf ff Q fault" "tamed mf ff Q unfinished"
  unfolding tamed_def by (rule steps.rules)+

lemma tame_exec [tame_intro]: "tamed mf ff Q (exec_image p args)"
  by (simp add: tamed_def moves_def steps.refl)

lemma tame_modify [tame_intro]:
  assumes "\<And>s. trace (f s) = trace s" and "\<And>s. mountcount (f s) = mountcount s" and "\<And>s. onward mf ff s (f s)"
  shows "tamed mf ff Q (modify f)"
  using assms by (simp add: tamed_def moves_def advance_def)

lemma tame_bind [tame_intro]: "tamed mf ff Q m \<Longrightarrow> (\<And>x. tamed mf ff Q (f x)) \<Longrightarrow> tamed mf ff Q (bind m f)"
  unfolding tamed_def by (rule steps.bind)

lemma tame_andthen [tame_intro]: "tamed mf ff Q m \<Longrightarrow> tamed mf ff Q n \<Longrightarrow> tamed mf ff Q (andthen m n)"
  unfolding tamed_def by (rule steps.andthen)

lemma tame_if [tame_intro]: "(b \<Longrightarrow> tamed mf ff Q m) \<Longrightarrow> (\<not> b \<Longrightarrow> tamed mf ff Q n) \<Longrightarrow> tamed mf ff Q (if b then m else n)"
  by simp

lemma tame_whenp [tame_intro]: "(b \<Longrightarrow> tamed mf ff Q m) \<Longrightarrow> tamed mf ff Q (whenp b m)"
  by (simp add: whenp_def tame_basic)

lemma tame_let [tame_intro]: "tamed mf ff Q (f x) \<Longrightarrow> tamed mf ff Q (let y = x in f y)"
  by (simp add: Let_def)

lemma tame_case_option [tame_intro]:
  "tamed mf ff Q n \<Longrightarrow> (\<And>x. tamed mf ff Q (f x)) \<Longrightarrow> tamed mf ff Q (case v of None \<Rightarrow> n | Some x \<Rightarrow> f x)"
  by (cases v) simp_all

lemma tame_case_list [tame_intro]:
  "tamed mf ff Q n \<Longrightarrow> (\<And>x xs. tamed mf ff Q (f x xs)) \<Longrightarrow> tamed mf ff Q (case v of [] \<Rightarrow> n | x # xs \<Rightarrow> f x xs)"
  by (cases v) simp_all

lemma tame_case_prod [tame_intro]: "(\<And>x y. tamed mf ff Q (f x y)) \<Longrightarrow> tamed mf ff Q (case p of (x, y) \<Rightarrow> f x y)"
  by (cases p) simp

lemma tame_case_sum [tame_intro]:
  "(\<And>x. tamed mf ff Q (f x)) \<Longrightarrow> (\<And>y. tamed mf ff Q (g y)) \<Longrightarrow> tamed mf ff Q (case v of Inl x \<Rightarrow> f x | Inr y \<Rightarrow> g y)"
  by (cases v) simp_all

lemma tame_run_all [tame_intro]: "list_all (tamed mf ff Q) ms \<Longrightarrow> tamed mf ff Q (run_all ms)"
  by (induction ms) (simp_all add: tame_basic tame_andthen)

text \<open>A step that touches only the trace and what the log keeps.\<close>

lemma tame_frame:
  assumes "emits Q m" and "emits (\<lambda>c. \<not> is_mount c) m"
    and "keeps (\<lambda>s. (mountcount s, added_ro s, mount_suid s, got_mtab s, mounttable s, got_fstab s, fstab s)) m"
  shows "tamed mf ff Q m"
  unfolding tamed_def
proof (rule movesI)
  fix s r s'
  assume run: "m s = (r, s')"
  obtain es where es: "trace s' = trace s @ es" "\<forall>e \<in> set es. Q (fst e)"
    using assms(1) run by (rule emitsE)
  obtain es' where "trace s' = trace s @ es'" "\<forall>e \<in> set es'. \<not> is_mount (fst e)"
    using assms(2) run by (rule emitsE)
  with es have "filter mount_ok es = []" by (auto simp: filter_empty_conv mount_ok_def)
  with es keepsD [OF assms(3) run] show "advance mf ff Q s s'"
    unfolding advance_def onward_def by (intro conjI exI [of _ es]) simp_all
qed

lemma tame_sysc: "Q c \<Longrightarrow> \<not> is_mount c \<Longrightarrow> tamed mf ff Q (sysc E c)"
  by (rule tame_frame) (simp_all add: emits_sysc keeps_def)

lemma tame_do_sys: "Q c \<Longrightarrow> \<not> is_mount c \<Longrightarrow> tamed mf ff Q (do_sys E c)"
  by (rule tame_frame) (simp_all add: emits_do_sys keeps_def)

section \<open>Operations without privileged calls\<close>

locale call_policy =
  fixes mf ff :: bool and Q :: "syscall \<Rightarrow> bool"
  assumes Q_ordinary: "\<not> is_privileged c \<Longrightarrow> Q c"
begin

lemma sys:
  assumes "\<not> is_privileged c"
  shows "tamed mf ff Q (sysc E c)" and "tamed mf ff Q (do_sys E c)"
  using Q_ordinary [OF assms] assms mount_privileged by (blast intro: tame_sysc tame_do_sys)+

lemma memory [tame_intro]:
  "tamed mf ff Q (fatal_error E code f args)" "tamed mf ff Q (xmalloc E n)" "tamed mf ff Q (xstrdup E v)" "tamed mf ff Q (xstrndup E v k)"
proof -
  have log: "Q c" "\<not> is_mount c" if "is_log_call c" for c
    using log_call_ordinary [OF that] Q_ordinary mount_privileged by blast+
  show fatal: "tamed mf ff Q (fatal_error E code f args)" for code f args
    by (rule tame_frame) (intro fatal_error_emits fatal_error_keeps log; simp add: log_frame_def)+
  show x: "tamed mf ff Q (xmalloc E n)" for n
    unfolding xmalloc_def by (intro tame_intro fatal sys) simp_all
  show "tamed mf ff Q (xstrdup E v)" "tamed mf ff Q (xstrndup E v k)"
    unfolding xstrdup_def xstrndup_def by (intro tame_intro fatal sys x; simp)+
qed

lemma messages [tame_intro]:
  "tamed mf ff Q (perror E what e)" "tamed mf ff Q (printf_out E f args)" "tamed mf ff Q (fprintf_err E f args)" "tamed mf ff Q (error_msg E f args)"
  unfolding perror_def printf_out_def fprintf_err_def error_msg_def xstrconcat2_def xstrconcat_def
  by (intro tame_intro sys memory; simp)+

lemma copies [tame_intro]: "tamed mf ff Q (xstrconcat3 E a b c)" "tamed mf ff Q (xstrconcat4 E a b c d)" "tamed mf ff Q (canonicalize E v)"
  unfolding xstrconcat3_def xstrconcat4_def xstrconcat_def canonicalize_def by (intro tame_intro sys memory; simp)+

lemma parse_list [tame_intro]: "tamed mf ff Q (parse_list E v)"
proof -
  have "tamed mf ff Q (bind (xmalloc E 16) (\<lambda>_. ret ()))" by (intro tame_intro memory)
  then show ?thesis unfolding parse_list_def Let_def by (intro tame_intro) (simp add: list_all_iff)
qed

lemma entries [tame_intro]:
  "tamed mf ff Q (my_setmntent E file mode)" "tamed mf ff Q (my_endmntent E mfp)" "tamed mf ff Q (my_addmntent E mfp m)" "tamed mf ff Q (my_getmntent E mfp)"
proof -
  have un: "tamed mf ff Q (unmangle E s)" "tamed mf ff Q (mangle E t)" for s t
    unfolding unmangle_def mangle_def by (intro tame_intro memory)+
  have parse: "tamed mf ff Q (parse_mntent E s)" for s
    unfolding parse_mntent_def Let_def by (intro tame_intro un)
  have "tamed mf ff Q (getmntent_loop E mfp ls)" for mfp ls
    by (induction ls arbitrary: mfp)
      (simp_all only: getmntent_loop.simps bad_line_def, (intro tame_intro parse sys | simp)+)
  then show "tamed mf ff Q (my_getmntent E mfp)" unfolding my_getmntent_def .
  show "tamed mf ff Q (my_setmntent E file mode)" "tamed mf ff Q (my_endmntent E mfp)" "tamed mf ff Q (my_addmntent E mfp m)"
    unfolding my_setmntent_def my_endmntent_def my_addmntent_def by (intro tame_intro un memory sys; simp)+
qed

lemma lock_file [tame_intro]: "tamed mf ff Q (unlock_mtab E)" "tamed mf ff Q (die E code f args)" "tamed mf ff Q (lock_mtab E)"
proof -
  show un: "tamed mf ff Q (unlock_mtab E)" unfolding unlock_mtab_def by (intro tame_intro sys) simp_all
  show die: "tamed mf ff Q (die E code f args)" for code f args
    unfolding die_def by (intro tame_intro un messages)
  have sig: "list_all (tamed mf ff Q) (map (\<lambda>sig. do_sys E (ProcCall (Sigaction (int sig)))) ns)" for ns
    by (simp add: list_all_iff sys)
  show "tamed mf ff Q (lock_mtab E)"
    unfolding lock_mtab_def by (intro tame_intro die sys sig) (simp_all add: onward_def)
qed

lemma mtab_info [tame_intro]:
  "tamed mf ff Q (mtab_does_not_exist E)" "tamed mf ff Q (mtab_is_a_symlink E)" "tamed mf ff Q (mtab_is_writable E)"
  unfolding mtab_does_not_exist_def mtab_is_writable_def mtab_is_a_symlink_def get_mtab_info_def
  by (intro tame_intro sys; simp add: onward_def)+

lemma update [tame_intro]: "tamed mf ff Q (update_mtab E dir instead)"
proof -
  have wr: "tamed mf ff Q (write_entry E mt m)" for mt m
    unfolding write_entry_def by (intro tame_intro entries lock_file)
  have re: "tamed mf ff Q (remounted E i m)" for i m unfolding remounted_def by (intro tame_intro messages)
  have "tamed mf ff Q (copy_entries n E dir instead mfp mt k)" for n mfp mt k
    by (induction n arbitrary: mfp k) (simp_all only: copy_entries.simps, (intro tame_intro wr re entries | assumption)+)
  then show ?thesis
    unfolding update_mtab_def copy_mtab_def rewrite_mtab_def
    by (intro tame_intro wr messages entries lock_file mtab_info sys) simp_all
qed

end

text \<open>A table is read at most once; while it is being read it is not frozen.\<close>

locale mount_policy =
  fixes Q :: "syscall \<Rightarrow> bool"
  assumes Q_allows: "\<not> is_privileged c \<Longrightarrow> Q c"
begin

sublocale call_policy True True Q
  by unfold_locales (rule Q_allows)

sublocale mtab_read: call_policy False True Q
  by unfold_locales (rule Q_allows)

sublocale fstab_read: call_policy True False Q
  by unfold_locales (rule Q_allows)

lemma read_mtab: "tamed False True Q (read_mounttable E)" and read_mtab_got: "read_mounttable E (s :: 'x mount_state_scheme) = (r, s') \<Longrightarrow> got_mtab s'"
proof -
  have "tamed False True Q (read_entries n E mfp)" for n mfp
    by (induction n arbitrary: mfp)
      (simp_all only: read_entries.simps, (intro tame_intro mtab_read.entries mtab_read.memory | assumption)+)
  then have chn: "tamed False True Q (read_mntentchn E mfp fnam)" for mfp fnam
    unfolding read_mntentchn_def by (intro tame_intro mtab_read.messages mtab_read.entries)
  show "tamed False True Q (read_mounttable E)"
    unfolding read_mounttable_def by (intro tame_intro chn mtab_read.messages mtab_read.entries) (simp_all add: onward_def)
  show "got_mtab s'" if run: "read_mounttable E s = (r, s')"
  proof (rule onward_got(1))
    show "advance False True Q (s\<lparr>got_mtab := True, mounttable := None\<rparr>) s'"
      using run unfolding read_mounttable_def andthen_modify
      by (rule tameD [rotated]) (intro tame_intro chn mtab_read.messages mtab_read.entries; simp add: onward_def)
  qed simp
qed

lemma read_fs: "tamed True False Q (read_fstab E)" and read_fs_got: "read_fstab E (s :: 'x mount_state_scheme) = (r, s') \<Longrightarrow> got_fstab s'"
proof -
  have "tamed True False Q (read_entries n E mfp)" for n mfp
    by (induction n arbitrary: mfp)
      (simp_all only: read_entries.simps, (intro tame_intro fstab_read.entries fstab_read.memory | assumption)+)
  then have chn: "tamed True False Q (read_mntentchn E mfp fnam)" for mfp fnam
    unfolding read_mntentchn_def by (intro tame_intro fstab_read.messages fstab_read.entries)
  show "tamed True False Q (read_fstab E)"
    unfolding read_fstab_def by (intro tame_intro chn fstab_read.messages fstab_read.entries) (simp_all add: onward_def)
  show "got_fstab s'" if run: "read_fstab E s = (r, s')"
  proof (rule onward_got(2))
    show "advance True False Q (s\<lparr>got_fstab := True, fstab := None\<rparr>) s'"
      using run unfolding read_fstab_def andthen_modify
      by (rule tameD [rotated]) (intro tame_intro chn fstab_read.messages fstab_read.entries; simp add: onward_def)
  qed simp
qed

lemma heads [tame_intro]: "tame Q (mtab_head E)" "tame Q (fstab_head E)"
proof -
  have "advance True True Q s s'" if "read_mounttable E s = (r, s')" "\<not> got_mtab s" for s s' :: "'s mount_state_scheme" and r
    using tameD [OF read_mtab that(1)] that(2) by (auto simp: advance_def onward_def)
  then show "tame Q (mtab_head E)"
    unfolding tamed_def mtab_head_def
    by (intro movesI) (auto simp: andthen_def bind_def whenp_def steps.refl split: if_splits prod.splits outcome.splits)
  have "advance True True Q s s'" if "read_fstab E s = (r, s')" "\<not> got_fstab s" for s s' :: "'s mount_state_scheme" and r
    using tameD [OF read_fs that(1)] that(2) by (auto simp: advance_def onward_def)
  then show "tame Q (fstab_head E)"
    unfolding tamed_def fstab_head_def
    by (intro movesI) (auto simp: andthen_def bind_def whenp_def steps.refl split: if_splits prod.splits outcome.splits)
qed

lemmas basics = messages memory copies entries lock_file mtab_info update heads sys

lemma lookups [tame_intro]:
  "tame Q (getmntfile E name)" "tame Q (getfsfile E name)" "tame Q (getfsspec E name)" "tame Q (already E spec node)"
  "tame Q (print_one E mc)" "tame Q (matching_types type types)"
proof -
  show 1: "tame Q (getmntfile E name)" for name unfolding getmntfile_def by (intro tame_intro heads)
  show "tame Q (getfsfile E name)" "tame Q (getfsspec E name)"
    unfolding getfsfile_def getfsspec_def by (intro tame_intro heads)+
  show "tame Q (already E spec node)" unfolding already_def by (intro tame_intro 1 messages)
  show "tame Q (print_one E mc)" unfolding print_one_def by (intro tame_intro messages)
  show "tame Q (matching_types type types)" unfolding matching_types_def by (intro tame_intro)
qed

lemma option_strings [tame_intro]:
  "tame Q (parse_opts E opts :: ('s mount_state_scheme, _) proc)"
  "tame Q (fix_opts_string E flags extra :: ('s mount_state_scheme, _) proc)"
proof -
  have clear: "tame Q (clear_string_opts :: ('s mount_state_scheme, _) proc)"
    unfolding clear_string_opts_def string_opt_map_def by (intro tame_intro) (simp add: onward_def tame_modify)
  have set: "tame Q (modify (so_set m v) :: ('s mount_state_scheme, _) proc)" if "m \<in> set string_opt_map" for m v
    using that by (auto simp: string_opt_map_def onward_def intro!: tame_modify)
  have str: "tame Q (parse_string_opt E o1 :: ('s mount_state_scheme, _) proc)" for o1
  proof (cases "find (\<lambda>m. is_prefix (so_tag m) o1) (string_opt_map :: 's string_opt_row list)")
    case (Some m)
    then have "m \<in> set string_opt_map" by (auto simp: find_Some_iff)
    with Some show ?thesis unfolding parse_string_opt_def by (simp, intro tame_intro memory set)
  qed (simp add: parse_string_opt_def tame_basic)
  have opt: "tame Q (parse_opt o1 fl ex :: ('s mount_state_scheme, _) proc)" for o1 fl ex
    unfolding parse_opt_def by (intro tame_intro) (simp_all add: onward_def)
  have "tame Q (parse_tokens E ts fl ex :: ('s mount_state_scheme, _) proc)" for ts fl ex
    by (induction ts arbitrary: fl ex) (simp_all only: parse_tokens.simps, (intro tame_intro str opt | assumption)+)
  then show "tame Q (parse_opts E opts :: ('s mount_state_scheme, _) proc)"
    unfolding parse_opts_def Let_def by (intro tame_intro clear memory)
  have "tame Q (flag_names E oms fl new :: ('s mount_state_scheme, _) proc)" for oms fl new
    by (induction oms arbitrary: fl new) (simp_all only: flag_names.simps, (intro tame_intro copies | assumption)+)
  moreover have "tame Q (string_names E ms new :: ('s mount_state_scheme, _) proc)" for ms new
    by (induction ms arbitrary: new) (simp_all only: string_names.simps, (intro tame_intro copies | assumption)+)
  ultimately show "tame Q (fix_opts_string E flags extra :: ('s mount_state_scheme, _) proc)"
    unfolding fix_opts_string_def by (intro tame_intro copies)
qed

lemma probing [tame_intro]:
  "tame Q (fstype E device)" "tame Q (procopen E)" "tame Q (procclose E)" "tame Q procnext" "tame Q (is_in_proc E type)"
proof -
  have "tame Q (probe_blocks E fd ps)" for fd ps
  proof (induction ps)
    case (Cons p ps)
    then show ?case
      by (cases p) (simp only: probe_blocks.simps read_block_def, (intro tame_intro sys | assumption | simp)+)
  qed (simp only: probe_blocks.simps, rule tame_basic)
  then show "tame Q (fstype E device)" unfolding fstype_def by (intro tame_intro sys messages) simp_all
  show po: "tame Q (procopen E)" and "tame Q (procclose E)" and pn: "tame Q procnext"
    unfolding procopen_def procclose_def procnext_def by (intro tame_intro sys; simp add: onward_def)+
  have "tame Q (search_types n type)" for n
    by (induction n) (simp_all only: search_types.simps, (intro tame_intro pn | assumption)+)
  then show "tame Q (is_in_proc E type)" unfolding is_in_proc_def by (intro tame_intro po)
qed

lemma explanations [tame_intro]:
  "tame Q (explain_failure E spec node type flags e)" "tame Q (check_user E spec node flags)"
  unfolding explain_failure_def explain_perm_def explain_busy_def explain_noent_def explain_inval_def explain_nodev_def
    explain_notblk_def check_user_def Let_def
  by (intro tame_intro messages memory lookups probing lock_file sys; simp)+

lemma recording [tame_intro]:
  "tame Q (record_mount E file node type flags extra freq pass)" "tame Q (create_mtab E)" "tame Q (print_all E types)"
proof -
  show "tame Q (record_mount E file node type flags extra freq pass)"
    unfolding record_mount_def append_mtab_def Let_def by (intro tame_intro basics option_strings lookups)
  show "tame Q (create_mtab E)"
    unfolding create_mtab_def root_mtab_entry_def by (intro tame_intro basics option_strings lookups) simp_all
  have "tame Q (print_each E types mcs)" for mcs
    by (induction mcs) (simp_all only: print_each.simps, (intro tame_intro lookups | assumption)+)
  then show "tame Q (print_all E types)" unfolding print_all_def by (intro tame_intro heads)
qed

lemma nfs_requests:
  "tame Q (nfs_retry n E node addr opts hostname dirname bg timeout v)"
proof -
  have port: "tame Q (get_mountport E a b c d e)" for a b c d e
    unfolding get_mountport_def Let_def by (intro tame_intro sys) simp_all
  have client: "tame Q (create_client E a pm)" for a pm
    unfolding create_client_def Let_def by (intro tame_intro sys) simp_all
  have handle: "tame Q (request_handle E c pm d)" for c pm d
    unfolding request_handle_def clnt_call_def by (intro tame_intro sys) simp_all
  have attempt: "tame Q (try_handle E addr opts dirname report)" for report
    unfolding try_handle_def destroy_client_def
    by (intro tame_intro port client handle messages sys) simp_all
  show ?thesis
    by (induction n arbitrary: v)
      (simp_all only: nfs_retry.simps, (intro tame_intro attempt memory sys | assumption | simp add: onward_def)+)
qed

lemma nfs_options: "tame Q (nfs_parse E ts opts)"
proof -
  have opt: "tame Q (nfs_option E t opts)" for t opts
    unfolding nfs_option_def value_option_def flag_option_def by (intro tame_intro messages)
  show ?thesis
    by (induction ts arbitrary: opts) (simp_all only: nfs_parse.simps, (intro tame_intro opt | assumption)+)
qed

lemma nfs_finishing: "tame Q (nfs_finish E addr opts hostname dirname found)"
proof -
  have store: "tame Q (store_handle E h d r x)" for h d r x
    unfolding store_handle_def refuse_def Let_def by (cases r; simp only: mount_reply.case; intro tame_intro messages)
  have abort: "tame Q (abort_mount E c m f)" for c m f
    unfolding abort_mount_def by (intro tame_intro sys) simp_all
  have code: "tame Q (linux_version_code E)"
    unfolding linux_version_code_def by (intro tame_intro sys) simp_all
  show ?thesis
    unfolding nfs_finish_def kernel_socket_def nfs_server_port_def connect_old_def destroy_client_def Let_def
    by (intro tame_intro store abort code messages sys) simp_all
qed

lemma nfs [tame_intro]: "tame Q (nfsmount E spec node flags extra bg)"
proof -
  have code: "tame Q (linux_version_code E)"
    unfolding linux_version_code_def by (intro tame_intro sys) simp_all
  have find: "tame Q (find_kernel_nfs_mount_version E)"
    unfolding find_kernel_nfs_mount_version_def by (intro tame_intro code) (simp_all add: onward_def)
  have addr: "tame Q (split_spec E spec)" "tame Q (server_address E h)" "tame Q (daemon_address E m h a)" for h m a
    unfolding split_spec_def server_address_def daemon_address_def resolve_def Let_def by (intro tame_intro messages sys; simp)+
  have "tame Q (nfs_contact E node a opts h d bg)" for a opts h d
    unfolding nfs_contact_def abort_mount_def
    by (intro tame_intro addr nfs_requests nfs_finishing sys) simp_all
  then show ?thesis
    unfolding nfsmount_def Let_def by (intro tame_intro find addr nfs_options memory messages)
qed

lemma starting [tame_intro]:
  "tame Q (take_std_fds n E)" "tame Q (mount_options E cs v)" "tame Q (check_ids E opts types args)"
  "tame Q (prepare_mtab E)" "tame Q (find_entry E spec arg)" "tame Q (mount_usage E out code)"
proof -
  show "tame Q (take_std_fds n E)"
    by (induction n) (simp_all only: take_std_fds.simps, (intro tame_intro sys | assumption | simp)+)
  show usage: "tame Q (mount_usage E out code)" for out code
    unfolding mount_usage_def by (cases out; simp only: if_True if_False; intro tame_intro messages lock_file)
  have opt: "tame Q (mount_option E c optarg v)" for c optarg v
    unfolding mount_option_def
    by (intro tame_intro usage copies memory parse_list messages) (simp_all add: onward_def)
  show "tame Q (mount_options E cs v)"
  proof (induction cs arbitrary: v)
    case (Cons c cs)
    then show ?case by (cases c) (simp only: mount_options.simps, intro tame_intro opt, assumption)
  qed (simp only: mount_options.simps, rule tame_basic)
  show "tame Q (check_ids E opts types args)"
    unfolding check_ids_def by (intro tame_intro lock_file sys) (simp_all add: onward_def)
  show "tame Q (prepare_mtab E)"
    unfolding prepare_mtab_def by (intro tame_intro mtab_info messages recording)
  show "tame Q (find_entry E spec arg)"
    unfolding find_entry_def first_found_def by (intro tame_intro lookups)
qed

end

end
