(* ===== verification/MountSafety.thy ===== *)
theory MountSafety
  imports MountPolicy
begin

text \<open>
  The properties of the mount program: the system calls it makes, how often it retries a write-protected device, and
  what an ordinary user may cause it to do.
\<close>

unbundle bit_operations_syntax

section \<open>The flags\<close>

definition MS_LOW :: mount_flags where "MS_LOW = 0xFFFF"

definition flags_known :: "mount_flags \<Rightarrow> bool" where
  "flags_known fl \<longleftrightarrow> fl AND NOT (MS_LOW OR MS_NOSYS) = 0"

lemma known_bits: "flags_known 0" "flags_known MS_RDONLY" "flags_known MS_LOOP" "flags_known MS_SECURE"
  by (simp_all add: flags_known_def MS_LOW_def MS_NOSYS_def MS_SECURE_def ms_bits)

lemma known_ops: "flags_known a \<Longrightarrow> flags_known b \<Longrightarrow> flags_known (a OR b)" "flags_known a \<Longrightarrow> flags_known (a AND c)"
  by (auto simp: flags_known_def bit_eq_iff bit_simps)

lemma known_sys: "flags_known fl \<Longrightarrow> (fl AND NOT MS_NOSYS) AND NOT MS_LOW = 0"
  by (auto simp: flags_known_def bit_eq_iff bit_simps)

lemma known_row: "om \<in> set opt_map \<Longrightarrow> flags_known fl \<Longrightarrow> flags_known (apply_row om fl)"
proof -
  have "list_all (\<lambda>om. flags_known (om_mask om)) opt_map"
    by (simp add: opt_map_def row_def flags_known_def MS_LOW_def MS_NOSYS_def ms_bits)
  then show "om \<in> set opt_map \<Longrightarrow> flags_known fl \<Longrightarrow> flags_known (apply_row om fl)"
    by (auto simp: list_all_iff apply_row_def Let_def intro!: known_ops known_bits)
qed

lemma parsed_known: "yields (\<lambda>(fl, e). flags_known fl) (parse_opts E opts)"
  by (rule parse_opts_flags) (auto intro: known_row known_ops known_bits)

lemma loop_setup_known:
  assumes "flags_known fl"
  shows "yields (\<lambda>r. case r of Inl c \<Rightarrow> True | Inr (sp, fl', d) \<Rightarrow> flags_known fl') (loop_setup E spec fl dev loop)"
  unfolding loop_setup_def attach_loop_def Let_def
  by (intro yields_intro) (use assms in \<open>auto intro: known_ops known_bits\<close>)

text \<open>The upper half of the flags of a call is the magic number, and the bits that are not for the kernel are gone.\<close>

fun magic_ok :: "syscall \<Rightarrow> bool" where
  "magic_ok (SysCall (Mount a b t f d)) = (f div 65536 = 0xC0ED)"
| "magic_ok c = True"

lemma magic_flags:
  assumes "fl AND NOT MS_LOW = 0"
  shows "uint (MS_MGC_VAL OR fl) div 65536 = 0xC0ED"
proof -
  have "drop_bit 16 (MS_MGC_VAL OR fl) = drop_bit 16 MS_MGC_VAL OR drop_bit 16 fl" by (rule drop_bit_or)
  moreover have "drop_bit 16 fl = 0"
  proof (rule bit_eqI)
    fix n
    have "\<not> bit fl (16 + n)" if "16 + n < 32"
    proof
      assume "bit fl (16 + n)"
      moreover have "MS_LOW = mask 16" by (simp add: MS_LOW_def mask_eq_exp_minus_1)
      then have "\<not> bit MS_LOW (16 + n)" by (metis bit_mask_iff not_add_less1)
      ultimately have "bit (fl AND NOT MS_LOW) (16 + n)" using that by (simp add: bit_simps)
      with assms show False by simp
    qed
    moreover have "16 + n < 32" if "bit fl (16 + n)" using bit_imp_le_length [OF that] by simp
    ultimately show "bit (drop_bit 16 fl) n = bit 0 n" by (auto simp: bit_simps)
  qed
  ultimately have "drop_bit 16 (MS_MGC_VAL OR fl) = 0xC0ED" by (simp add: MS_MGC_VAL_def)
  then have "(MS_MGC_VAL OR fl) div 65536 = 0xC0ED" by (simp add: drop_bit_eq_div)
  then show ?thesis using uint_div_distrib [of "MS_MGC_VAL OR fl" 65536] by simp
qed

section \<open>Operations that mount\<close>

lemma tame_bind_strong: "tame Q m \<Longrightarrow> yields P m \<Longrightarrow> (\<And>x. P x \<Longrightarrow> tame Q (f x)) \<Longrightarrow> tame Q (bind m f)"
  unfolding tamed_def
proof (rule movesI)
  fix s r s''
  assume m: "moves (advance True True Q) m" and y: "yields P m" and f: "\<And>x. P x \<Longrightarrow> moves (advance True True Q) (f x)"
    and run: "bind m f s = (r, s'')"
  obtain o1 s1 where 1: "m s = (o1, s1)" by fastforce
  with m have a: "advance True True Q s s1" by (rule movesD)
  show "advance True True Q s s''"
  proof (cases o1)
    case (Ret x)
    with 1 y have "P x" by (auto dest: yieldsD)
    moreover have "f x s1 = (r, s'')" using run 1 Ret by (simp add: bind_apply_Ret)
    ultimately have "advance True True Q s1 s''" using f by (blast dest: movesD)
    with a show ?thesis by (rule steps.trans)
  qed (use a run 1 in \<open>auto simp: proc_defs\<close>)
qed

locale mounting =
  fixes Q :: "syscall \<Rightarrow> bool"
  assumes Q_other: "\<not> is_mount c \<Longrightarrow> Q c"
    and Q_mount: "fl AND NOT MS_LOW = 0 \<Longrightarrow> Q (SysCall (Mount a b t (uint (MS_MGC_VAL OR fl)) d))"
begin

sublocale mount_policy Q
  using Q_other mount_privileged by unfold_locales blast

lemma others: "\<not> is_mount c \<Longrightarrow> tame Q (sysc E c)" "\<not> is_mount c \<Longrightarrow> tame Q (do_sys E c)"
  by (rule tame_sysc tame_do_sys, simp_all add: Q_other)+

lemma call_mount: "fl AND NOT MS_LOW = 0 \<Longrightarrow> tame Q (mount5 E spec dir type fl d)"
  unfolding tamed_def
  by (rule movesI) (auto simp: mount5_def whenp_def advance_def onward_def mount_ok_def Q_mount split: if_splits)

lemma guessing: "flags_known fl \<Longrightarrow> tame Q (try_mount5 E spec node type fl d)"
proof -
  assume fl: "flags_known fl"
  have "tame Q (try_types n E spec node fl d)" for n
    by (induction n) (simp_all only: try_types.simps, (intro tame_intro probing memory call_mount known_sys fl | assumption)+)
  then show ?thesis
    unfolding try_mount5_def Let_def by (intro tame_intro probing messages call_mount known_sys fl)
qed

lemma loop_devices: "tame Q (find_unused_loop_device E)" "tame Q (set_loop E d f off en ro)" "tame Q (del_loop E d)"
proof -
  have "tame Q (probe_loops E ns a b)" for ns a b
    by (induction ns arbitrary: a b) (simp_all only: probe_loops.simps, (intro tame_intro others memory | assumption | simp)+)
  then show "tame Q (find_unused_loop_device E)"
    unfolding find_unused_loop_device_def loop_driver_def by (intro tame_intro messages others) simp_all
  show "tame Q (set_loop E d f off en ro)"
    unfolding set_loop_def open_loop_files_def loop_key_def getpass_def Let_def
    by (intro tame_intro messages others) simp_all
  show "tame Q (del_loop E d)"
    unfolding del_loop_def by (intro tame_intro messages others) simp_all
qed

lemma looping: "tame Q (choose_loopdev E type)" "tame Q (loop_setup E spec fl dev loop)"
  unfolding choose_loopdev_def loop_setup_def attach_loop_def Let_def by (intro tame_intro messages loop_devices)+

lemma external [tame_intro]: "tame Q (external_mount E spec node type fl extra)"
  unfolding external_mount_def mount_program_def Let_def by (intro tame_intro others messages option_strings) simp_all

lemma device: "flags_known fl \<Longrightarrow> tame Q (mount_device E spec file node dev loop type fl extra d freq pass)"
  unfolding mount_device_def block_signals_def
  by (intro tame_intro others guessing known_ops(2) recording loop_devices explanations messages) (simp_all add: onward_def)

lemma parse_then:
  assumes "\<And>fl e. flags_known fl \<Longrightarrow> tame Q (f fl e)"
  shows "tame Q (bind (parse_opts E opts) (\<lambda>(fl, e). f fl e))"
  by (rule tame_bind_strong [OF option_strings(1) parsed_known]) (use assms in auto)

lemma loop_then:
  assumes "flags_known fl" and "\<And>c. tame Q (g c)" and "\<And>sp fl' d. flags_known fl' \<Longrightarrow> tame Q (h sp fl' d)"
  shows "tame Q (bind (loop_setup E spec fl dev loop) (\<lambda>ls. case ls of Inl c \<Rightarrow> g c | Inr (sp, fl', d) \<Rightarrow> h sp fl' d))"
  by (rule tame_bind_strong [OF looping(2) loop_setup_known [OF assms(1)]]) (use assms in \<open>auto split: sum.splits\<close>)

lemma attempt [tame_intro]: "tame Q (mount_attempt E spec node type opts freq pass bg)"
  unfolding mount_attempt_def
  by (rule parse_then loop_then memory looping explanations nfs external device tame_intro | assumption)+

lemma retry_options: "tame Q (add_ro E v)"
  unfolding add_ro_def by (intro tame_intro memory others) simp_all

lemma trying [tame_intro]: "tame Q (try_mount_one E spec node type opts freq pass bg)"
proof -
  have "tame Q (try_mount n E spec node type opts freq pass bg)" for n
    by (induction n arbitrary: type opts)
      (simp_all only: try_mount.simps, (intro tame_intro attempt retry_options messages | assumption | simp add: onward_def)+)
  then show ?thesis unfolding try_mount_one_def .
qed

lemma mount_one [tame_intro]: "tame Q (mount_one E spec node type opts cmd freq pass)"
proof -
  have envs: "list_all (tame Q) (map (\<lambda>v. bind (xstrdup E (Some v)) (\<lambda>_. ret ())) vs)" for vs
    by (simp add: list_all_iff tame_bind tame_basic memory)
  have name: "tame Q (set_proc_name E spec)"
    unfolding set_proc_name_def by (intro tame_intro memory envs) (simp_all add: onward_def)
  show ?thesis
    unfolding mount_one_def by (intro tame_intro copies messages memory trying name others) simp_all
qed

lemma chains: "tame Q (build_chains E types mcs cs)"
proof -
  have sel: "tame Q (select_entry E types mc cs)" for mc cs
    unfolding select_entry_def mounted_def group_of_def add_child_def Let_def
    by (intro tame_intro lookups copies heads memory messages others) simp_all
  show ?thesis
    by (induction mcs arbitrary: cs) (simp_all only: build_chains.simps, (intro tame_intro sel | assumption)+)
qed

lemma mount_everything [tame_intro]: "tame Q (mount_all E types opts)"
proof -
  have chain: "tame Q (mount_chain E opts mcs st)" for mcs st
    by (induction mcs arbitrary: st) (simp_all only: mount_chain.simps, (intro tame_intro mount_one | assumption)+)
  have ok: "tame Q (some_ok st)" for st unfolding some_ok_def by (intro tame_intro)
  have run: "tame Q (run_chains E opts cs st)" for cs st
  proof (induction cs arbitrary: st)
    case (Cons c cs)
    then show ?case
      by (cases c) (simp only: run_chains.simps, (intro tame_intro chain ok messages others | assumption | simp)+)
  qed (simp only: run_chains.simps, rule tame_basic)
  have one: "tame Q (wait_child n E p st)" for n p st
    by (induction n) (simp_all only: wait_child.simps, (intro tame_intro messages others | assumption | simp)+)
  have "tame Q (wait_children E ps st)" for ps st
    by (induction ps arbitrary: st) (simp_all only: wait_children.simps, (intro tame_intro one | assumption)+)
  then show ?thesis unfolding mount_all_def by (intro tame_intro heads chains run ok)
qed

lemma whole_program: "tame Q (main_but_defunct E optv args)"
proof -
  have named: "tame Q (mount_named E arg opts)" for arg opts
    unfolding mount_named_def by (intro tame_intro copies starting lock_file memory mount_one)
  show ?thesis
    unfolding main_but_defunct_def
    by (intro tame_intro starting named mount_everything mount_one messages recording)
qed

end

interpretation magic: mounting magic_ok
proof
  fix c
  assume "\<not> is_mount c"
  then show "magic_ok c" by (cases c rule: magic_ok.cases) simp_all
qed (simp add: magic_flags)


section \<open>The read-only retry\<close>

text \<open>An attempt that follows a read-only retry does not ask for another one.\<close>

definition settles :: "('s mount_state_scheme, 'a + 'b) proc \<Rightarrow> bool" where
  "settles m \<longleftrightarrow> (\<forall>s x s'. added_ro s \<longrightarrow> m s \<noteq> (Ret (Inr x), s'))"

lemma settles_bind:
  assumes "tame Q m" and "yields P m" and "\<And>x. P x \<Longrightarrow> settles (f x)"
  shows "settles (bind m f)"
  unfolding settles_def
proof (intro allI impI notI)
  fix s x s'
  assume "added_ro s" and "bind m f s = (Ret (Inr x), s')"
  moreover from this obtain y s1 where 1: "m s = (Ret y, s1)" "f y s1 = (Ret (Inr x), s')" by (elim bind_RetE)
  ultimately have "added_ro s1" using tameD [OF assms(1) 1(1)] by (simp add: advance_def onward_def)
  moreover have "settles (f y)" using assms(2,3) 1(1) by (blast dest: yieldsD)
  ultimately show False using 1(2) unfolding settles_def by blast
qed

lemma settles_rules:
  "settles (ret (Inl c))"
  "tame Q j \<Longrightarrow> (\<And>x. settles (f x)) \<Longrightarrow> settles (bind j f)"
  "tame Q k \<Longrightarrow> settles n \<Longrightarrow> settles (andthen k n)"
  "(b \<Longrightarrow> settles m) \<Longrightarrow> (\<not> b \<Longrightarrow> settles n) \<Longrightarrow> settles (if b then m else n)"
  "settles n \<Longrightarrow> (\<And>x. settles (g x)) \<Longrightarrow> settles (case v of None \<Rightarrow> n | Some x \<Rightarrow> g x)"
  "(\<And>x y. settles (h x y)) \<Longrightarrow> settles (case p of (x, y) \<Rightarrow> h x y)"
  "settles (f2 x2) \<Longrightarrow> settles (let y = x2 in f2 y)"
proof -
  show "settles (ret (Inl c))" by (simp add: settles_def)
  show "tame Q j \<Longrightarrow> (\<And>x. settles (f x)) \<Longrightarrow> settles (bind j f)"
    by (rule settles_bind [where P = "\<lambda>_. True"]) (simp_all add: yields_def)
  show "tame Q k \<Longrightarrow> settles n \<Longrightarrow> settles (andthen k n)"
    unfolding andthen_def by (rule settles_bind [where P = "\<lambda>_. True"]) (simp_all add: yields_def)
qed (auto split: option.split prod.split)

lemma settles_again: "settles m \<Longrightarrow> settles (bind (gets added_ro) (\<lambda>again. if again then m else n))"
  by (simp add: settles_def)

lemma settles_after: "settles m \<Longrightarrow> (\<And>c. settles (f (Inl c))) \<Longrightarrow> tame Q m \<Longrightarrow> settles (bind m f)"
  unfolding settles_def
proof (intro allI impI notI)
  fix s x s'
  assume m: "\<forall>s x s'. added_ro s \<longrightarrow> m s \<noteq> (Ret (Inr x), s')" and f: "\<And>c. \<forall>s x s'. added_ro s \<longrightarrow> f (Inl c) s \<noteq> (Ret (Inr x), s')"
    and t: "tame Q m" and a: "added_ro s" and run: "bind m f s = (Ret (Inr x), s')"
  from run obtain y s1 where 1: "m s = (Ret y, s1)" "f y s1 = (Ret (Inr x), s')" by (elim bind_RetE)
  with m a obtain c where "y = Inl c" by (cases y) auto
  moreover have "added_ro s1" using tameD [OF t 1(1)] a by (simp add: advance_def onward_def)
  ultimately show False using f 1(2) by blast
qed

lemma device_settles: "flags_known fl \<Longrightarrow> settles (mount_device E spec file node dev loop type fl extra d freq pass)"
  unfolding mount_device_def block_signals_def
  by (rule settles_again settles_rules(1,4-7) settles_rules(2,3) [where Q = magic_ok]
    | (intro tame_intro magic.others magic.guessing magic.loop_devices known_ops(2); simp add: onward_def))+

lemma attempt_settles: "settles (mount_attempt E spec node type opts freq pass bg)"
proof -
  have dev: "settles (bind (mount_device E sp spec node dev loop t fl extra d freq pass)
      (\<lambda>r. case r of Inl c \<Rightarrow> ret (Inl c) | Inr t \<Rightarrow> ret (Inr (t, loop))))" if "flags_known fl" for sp dev loop t fl extra d
    by (rule settles_after [OF device_settles [OF that] _ magic.device [OF that]]) (simp add: settles_rules(1))
  have parse: "settles (bind (parse_opts E opts) (\<lambda>(fl, e). f fl e))" if "\<And>fl e. flags_known fl \<Longrightarrow> settles (f fl e)" for f
    by (rule settles_bind [OF magic.option_strings(1) parsed_known]) (use that in auto)
  have loops: "settles (bind (loop_setup E spec fl dev loop) (\<lambda>ls. case ls of Inl c \<Rightarrow> ret (Inl c) | Inr (sp, fl', d) \<Rightarrow> h sp fl' d))"
    if "flags_known fl" and "\<And>sp fl' d. flags_known fl' \<Longrightarrow> settles (h sp fl' d)" for fl dev loop h
    by (rule settles_bind [OF magic.looping(2) loop_setup_known [OF that(1)]]) (use that(2) settles_rules(1) in \<open>auto split: sum.splits\<close>)
  show ?thesis
    unfolding mount_attempt_def
    by (rule parse loops dev settles_rules(1,4-7) settles_rules(2,3) [where Q = magic_ok] | assumption
      | (intro tame_intro magic.looping))+
qed

lemma bind_cong_ro:
  assumes "tame Q m" and "added_ro s" and "\<And>x s'. added_ro s' \<Longrightarrow> f x s' = g x s'"
  shows "bind m f s = bind m g s"
proof -
  obtain r s1 where run: "m s = (r, s1)" by fastforce
  then have "added_ro s1" using tameD [OF assms(1) run] assms(2) by (simp add: advance_def onward_def)
  with run assms(3) show ?thesis by (cases r) (simp_all add: bind_def)
qed

lemma try_mount_step:
  assumes "added_ro s"
  shows "try_mount (Suc n) E spec node type opts freq pass bg s = try_mount (Suc k) E spec node type opts freq pass bg s"
proof -
  obtain r s1 where run: "mount_attempt E spec node type opts freq pass bg s = (r, s1)" by fastforce
  with attempt_settles assms have "\<And>x. r \<noteq> Ret (Inr x)" unfolding settles_def by blast
  then show ?thesis
    using run by (cases r) (auto simp: bind_def split: sum.splits)
qed


section \<open>Ordinary users\<close>

interpretation user: mount_policy "\<lambda>c. \<not> is_privileged c"
  by unfold_locales simp

abbreviation modest :: "('s mount_state_scheme, 'a) proc \<Rightarrow> bool" where
  "modest \<equiv> tame (\<lambda>c. \<not> is_privileged c)"

text \<open>On behalf of an ordinary user the operation does not return, and makes no privileged call.\<close>

definition refuses :: "('s mount_state_scheme, 'a) proc \<Rightarrow> bool" where
  "refuses m \<longleftrightarrow> (\<forall>s r s'. mount_suid s \<noteq> 0 \<and> m s = (r, s') \<longrightarrow>
     (\<forall>x. r \<noteq> Ret x) \<and> advance True True (\<lambda>c. \<not> is_privileged c) s s')"

lemma refuses_first: "refuses m \<Longrightarrow> refuses (bind m f)"
  unfolding refuses_def
proof (intro allI impI, elim conjE)
  fix s r s'
  assume m: "\<forall>s r s'. mount_suid s \<noteq> 0 \<and> m s = (r, s') \<longrightarrow> (\<forall>x. r \<noteq> Ret x) \<and> advance True True (\<lambda>c. \<not> is_privileged c) s s'"
    and s: "mount_suid s \<noteq> 0" and run: "bind m f s = (r, s')"
  obtain r1 s1 where 1: "m s = (r1, s1)" by fastforce
  with m s have "\<forall>x. r1 \<noteq> Ret x" "advance True True (\<lambda>c. \<not> is_privileged c) s s1" by blast+
  with 1 run show "(\<forall>x. r \<noteq> Ret x) \<and> advance True True (\<lambda>c. \<not> is_privileged c) s s'"
    by (cases r1) (auto simp: bind_def)
qed

lemma refuses_then:
  assumes "modest m" and "yields P m" and "\<And>x. P x \<Longrightarrow> refuses (f x)"
  shows "refuses (bind m f)"
  unfolding refuses_def
proof (intro allI impI, elim conjE)
  fix s r s'
  assume s: "mount_suid s \<noteq> 0" and run: "bind m f s = (r, s')"
  obtain r1 s1 where 1: "m s = (r1, s1)" by fastforce
  then have a: "advance True True (\<lambda>c. \<not> is_privileged c) s s1" using assms(1) by (blast dest: tameD)
  show "(\<forall>x. r \<noteq> Ret x) \<and> advance True True (\<lambda>c. \<not> is_privileged c) s s'"
  proof (cases r1)
    case (Ret x)
    then have "P x" using assms(2) 1 by (blast dest: yieldsD)
    moreover have "mount_suid s1 \<noteq> 0" using a s by (simp add: advance_def onward_def)
    moreover have "f x s1 = (r, s')" using run 1 Ret by (simp add: bind_apply_Ret)
    ultimately show ?thesis using assms(3) a unfolding refuses_def by (blast intro: steps.trans)
  qed (use 1 run a in \<open>auto simp: bind_def\<close>)
qed

lemma refuses_after: "modest m \<Longrightarrow> (\<And>x. refuses (f x)) \<Longrightarrow> refuses (bind m f)"
  by (rule refuses_then [where P = "\<lambda>_. True"]) (simp_all add: yields_def)

lemma refuses_die: "refuses (die E code f args)"
proof -
  have "\<forall>x. r \<noteq> Ret x" if "die E code f args s = (r, s')" for s r s'
    using that unfolding die_def by (auto simp: andthen_def elim!: bind_RetE)
  then show ?thesis unfolding refuses_def using tameD [OF user.lock_file(2)] by blast
qed

lemma check_user_refuses: "fl AND MS_USER = 0 \<Longrightarrow> refuses (check_user E spec node fl)"
proof -
  assume fl: "fl AND MS_USER = 0"
  have "refuses (bind (already E spec node) (\<lambda>a. if a then die E EX_USAGE ''mount failed'' []
        else die E EX_USAGE ''mount: only root can mount %s on %s'' [AStr spec, AStr node]))"
    by (intro refuses_after user.lookups) (auto intro: refuses_die)
  then show ?thesis
    unfolding refuses_def check_user_def by (simp only: bind_gets) (auto simp: fl whenp_def)
qed

lemma user_row:
  assumes "om \<in> set opt_map" and "om_opt om \<noteq> ''user''" and "fl AND MS_USER = 0"
  shows "apply_row om fl AND MS_USER = 0"
proof -
  have "list_all (\<lambda>om. om_opt om = ''user'' \<or> om_inv om \<or> om_mask om AND MS_USER = 0) opt_map"
    by (simp add: opt_map_def row_def ms_bits)
  with assms have "om_inv om \<or> om_mask om AND MS_USER = 0" by (auto simp: list_all_iff)
  moreover have "MS_SECURE AND MS_USER = 0" by (simp add: MS_SECURE_def ms_bits)
  ultimately show ?thesis using assms(3) by (auto simp: apply_row_def Let_def bit_eq_iff bit_simps)
qed

lemma parsed_user:
  assumes "''user'' \<notin> set (option_tokens opts)"
  shows "yields (\<lambda>(fl, e). fl AND MS_USER = 0) (parse_opts E opts)"
proof (rule parse_opts_flags)
  fix fl
  have ro: "MS_RDONLY AND MS_USER = 0" by (simp add: ms_bits)
  show "(0 :: mount_flags) AND MS_USER = 0" by simp
  show "(fl OR MS_RDONLY) AND MS_USER = 0" "(fl AND NOT MS_RDONLY) AND MS_USER = 0" if "fl AND MS_USER = 0"
    using that ro by (auto simp: bit_eq_iff bit_simps)
qed (use assms in \<open>auto intro: user_row\<close>)

lemma parse_refuses:
  assumes "''user'' \<notin> set (option_tokens opts)"
  shows "refuses (bind (parse_opts E opts) (\<lambda>(fl, e). andthen (check_user E spec node fl) (k fl e)))"
  by (rule refuses_then [OF user.option_strings(1) parsed_user [OF assms]])
    (auto simp: andthen_def intro: refuses_first check_user_refuses)

lemma mount_one_refuses:
  assumes "''user'' \<notin> set (option_tokens (Some opts))"
  shows "refuses (mount_one E spec node type (Some opts) None freq pass)"
proof -
  have "refuses (mount_attempt E spec node t (Some opts) freq pass bg)" for t bg
    unfolding mount_attempt_def by (rule parse_refuses [OF assms] refuses_after user.memory)+
  then have "refuses (try_mount_one E spec node t (Some opts) freq pass bg)" for t bg
    unfolding try_mount_one_def numeral_2_eq_2 try_mount.simps by (intro refuses_first)
  note attempt = refuses_first [OF this]
  show ?thesis
    unfolding mount_one_def option.case prod.case bind_ret
    by (rule refuses_after, intro tame_intro user.messages, rule attempt)
qed

text \<open>An entry of a table that has been read.\<close>

definition known_entry :: "mntentchn \<Rightarrow> 's mount_state_scheme \<Rightarrow> bool" where
  "known_entry mc s \<longleftrightarrow> got_mtab s \<and> mc \<in> set (chain (mounttable s)) \<or> got_fstab s \<and> mc \<in> set (chain (fstab s))"

lemma known_entry_kept: "advance True True Q s s' \<Longrightarrow> known_entry mc s \<Longrightarrow> known_entry mc s'"
  by (auto simp: known_entry_def advance_def onward_def)

lemma heads_known:
  "mtab_head E (s :: 's mount_state_scheme) = (Ret h, s') \<Longrightarrow> mc \<in> set (chain h) \<Longrightarrow> known_entry mc s'"
  "fstab_head E (t :: 's mount_state_scheme) = (Ret h, t') \<Longrightarrow> mc \<in> set (chain h) \<Longrightarrow> known_entry mc t'"
  unfolding mtab_head_def fstab_head_def known_entry_def andthen_def whenp_def
  by (auto elim!: bind_RetE dest: user.read_mtab_got user.read_fs_got split: if_splits)

lemma lookups_known:
  "getmntfile E name (s :: 's mount_state_scheme) = (Ret (Some mc), s') \<Longrightarrow> known_entry mc s'"
  "getfsspec E name (t :: 's mount_state_scheme) = (Ret (Some mc), t') \<Longrightarrow> known_entry mc t'"
  "getfsfile E name (u :: 's mount_state_scheme) = (Ret (Some mc), u') \<Longrightarrow> known_entry mc u'"
proof -
  have mem: "x \<in> set xs" if "find P xs = Some x" for P :: "mntentchn \<Rightarrow> bool" and x xs
    using that by (auto simp: find_Some_iff)
  show "getmntfile E name s = (Ret (Some mc), s') \<Longrightarrow> known_entry mc s'" "getfsspec E name t = (Ret (Some mc), t') \<Longrightarrow> known_entry mc t'"
    "getfsfile E name u = (Ret (Some mc), u') \<Longrightarrow> known_entry mc u'"
    unfolding getmntfile_def getfsspec_def getfsfile_def by (auto elim!: bind_RetE intro: heads_known dest!: mem)
qed

lemma first_foundE:
  assumes "first_found m n s = (Ret (Some x), s')" and "m s = (Ret (Some x), s') \<Longrightarrow> R" and "\<And>s1. n s1 = (Ret (Some x), s') \<Longrightarrow> R"
  shows R
  using assms unfolding first_found_def by (auto elim!: bind_RetE split: option.splits)

lemma find_entry_known: "find_entry E spec arg (s :: 's mount_state_scheme) = (Ret (Some mc), s') \<Longrightarrow> known_entry mc s'"
  unfolding find_entry_def by (elim first_foundE lookups_known)

text \<open>The operation makes no privileged call, unless the tables list a file system for users and one argument names it.\<close>

definition granted :: "string list \<Rightarrow> 's mount_state_scheme \<Rightarrow> bool" where
  "granted args s \<longleftrightarrow> length args = 1 \<and> (\<exists>mc. known_entry mc s \<and> ''user'' \<in> set (strtok_all (CHR '','') (mc_opts mc)))"

definition checked :: "string list \<Rightarrow> 's mount_state_scheme \<Rightarrow> ('s mount_state_scheme, 'a) proc \<Rightarrow> bool" where
  "checked args s m \<longleftrightarrow> (\<forall>r s'. m s = (r, s') \<longrightarrow> advance True True (\<lambda>c. \<not> is_privileged c) s s' \<or> granted args s')"

lemma checked_modest: "modest m \<Longrightarrow> checked args s m"
  unfolding checked_def by (blast dest: tameD)

lemma checked_if: "(b \<Longrightarrow> checked args s m) \<Longrightarrow> (\<not> b \<Longrightarrow> checked args s n) \<Longrightarrow> checked args s (if b then m else n)"
  by simp

lemma checked_bind:
  assumes "modest m" and "\<And>x s1. m s = (Ret x, s1) \<Longrightarrow> advance True True (\<lambda>c. \<not> is_privileged c) s s1 \<Longrightarrow> checked args s1 (f x)"
  shows "checked args s (bind m f)"
  unfolding checked_def
proof (intro allI impI)
  fix r s'
  assume run: "bind m f s = (r, s')"
  obtain r1 s1 where 1: "m s = (r1, s1)" by fastforce
  with assms(1) have a: "advance True True (\<lambda>c. \<not> is_privileged c) s s1" by (blast dest: tameD)
  show "advance True True (\<lambda>c. \<not> is_privileged c) s s' \<or> granted args s'"
  proof (cases r1)
    case (Ret x)
    with run 1 have "f x s1 = (r, s')" by (simp add: bind_apply_Ret)
    moreover have "checked args s1 (f x)" using assms(2) 1 Ret a by blast
    ultimately show ?thesis using a unfolding checked_def by (blast intro: steps.trans)
  qed (use run 1 a in \<open>auto simp: bind_def\<close>)
qed

lemma checked_stop: "checked args s m \<Longrightarrow> checked args s (bind m (\<lambda>r. stop (g r)))"
  unfolding checked_def by (auto simp: bind_def split: prod.splits outcome.splits)

lemma mount_known_checked:
  assumes "known_entry mc s" and "mount_suid s \<noteq> 0" and "length args = 1"
  shows "checked args s (mount_one E spec node type (Some (mc_opts mc)) None freq pass)"
  unfolding checked_def
proof (intro allI impI)
  fix r s'
  assume run: "mount_one E spec node type (Some (mc_opts mc)) None freq pass s = (r, s')"
  show "advance True True (\<lambda>c. \<not> is_privileged c) s s' \<or> granted args s'"
  proof (cases "''user'' \<in> set (option_tokens (Some (mc_opts mc)))")
    case True
    with known_entry_kept [OF tameD [OF magic.mount_one run] assms(1)] assms(3) show ?thesis
      by (auto simp: granted_def option_tokens_def)
  next
    case False
    with mount_one_refuses run assms(2) show ?thesis unfolding refuses_def by blast
  qed
qed

lemma suid_kept: "advance mf ff Q s s' \<Longrightarrow> mount_suid s \<noteq> 0 \<Longrightarrow> mount_suid s' \<noteq> 0"
  by (simp add: advance_def onward_def)

lemma mount_named_checked:
  assumes "mount_suid s \<noteq> 0"
  shows "checked [arg] s (mount_named E arg None)"
proof -
  have kept: "known_entry mc s2 \<and> mount_suid s2 \<noteq> 0"
    if "known_entry mc s1 \<and> mount_suid s1 \<noteq> 0" and "advance True True (\<lambda>c. \<not> is_privileged c) s1 s2"
    for mc and s1 s2 :: "'a mount_state_scheme"
    using that by (simp add: known_entry_kept [OF that(2)] suid_kept [OF that(2)])
  have entry: "checked [arg] s1 (bind (xstrdup E a) (\<lambda>_. bind (xstrdup E b) (\<lambda>_. bind (xstrdup E c) (\<lambda>_.
      mount_one E spec node type (Some (mc_opts mc)) None 0 0))))"
    if 1: "known_entry mc s1 \<and> mount_suid s1 \<noteq> 0" for mc a b c spec node type and s1 :: "'a mount_state_scheme"
    by (intro checked_bind user.memory, (drule kept [OF 1], drule (1) kept, drule (1) kept), rule mount_known_checked) simp_all
  show ?thesis
    unfolding mount_named_def
  proof (intro checked_bind user.copies user.starting)
    fix spec m s1 s2
    assume 1: "advance True True (\<lambda>c. \<not> is_privileged c) s s1"
      and 2: "find_entry E (str_or_empty spec) arg s1 = (Ret m, s2)" "advance True True (\<lambda>c. \<not> is_privileged c) s1 s2"
    show "checked [arg] s2 (case m of
        None \<Rightarrow> die E EX_USAGE ''mount: can't find %s in %s or %s'' [AStr (str_or_empty spec), AStr MOUNTED, AStr PATH_FSTAB]
      | Some mc \<Rightarrow> bind (xstrdup E (Some (mc_fsname mc))) (\<lambda>_. bind (xstrdup E (Some (mc_dir mc))) (\<lambda>_.
          bind (xstrdup E (Some (mc_type mc))) (\<lambda>_.
          mount_one E (mc_fsname mc) (mc_dir mc) (Some (mc_type mc)) (Some (mc_opts mc)) None 0 0))))"
    proof (cases m)
      case None
      then show ?thesis by (simp add: checked_modest user.lock_file)
    next
      case (Some mc)
      with 1 2 assms have "known_entry mc s2" "mount_suid s2 \<noteq> 0" by (auto intro: find_entry_known dest: suid_kept)
      with Some entry show ?thesis by simp
    qed
  qed
qed

lemma check_ids_passed:
  assumes "\<And>tr. rv (kern E tr (ProcCall Getuid)) = uid" and "\<And>tr. rv (kern E tr (ProcCall Geteuid)) = euid" and "uid \<noteq> euid"
    and "check_ids E opts types args s = (Ret (), s')"
  shows "mount_suid s' \<noteq> 0 \<and> types = [] \<and> opts = None \<and> length args = 1"
  using assms(4) unfolding check_ids_def whenp_def die_def
  by (auto simp: assms(1-3) andthen_def elim!: bind_RetE split: if_splits)

text \<open>C15. When the real and the effective user differ, mount makes no privileged call at all -- no \<open>mount\<close>, \<open>umount\<close>,
  loop-device control, \<open>fork\<close> or \<open>exec\<close> --, unless it was given one argument and an entry of the mtab or the
  fstab it has read carries the option \<open>user\<close>.\<close>

theorem ordinary_user_mounts:
  assumes "\<And>tr. rv (kern E tr (ProcCall Getuid)) = uid" and "\<And>tr. rv (kern E tr (ProcCall Geteuid)) = euid" and "uid \<noteq> euid"
  shows "(\<exists>es. trace (snd (main_but_defunct E optv args s)) = trace s @ es \<and> list_all (\<lambda>e. \<not> is_privileged (fst e)) es) \<or>
     (length args = 1 \<and> (\<exists>mc. known_entry mc (snd (main_but_defunct E optv args s)) \<and>
        ''user'' \<in> set (strtok_all (CHR '','') (mc_opts mc))))"
proof -
  have rest: "checked args s1 (andthen (check_ids E opts types args) (andthen (prepare_mtab E) (bind
      (case args of [] \<Rightarrow> A | [arg] \<Rightarrow> if types \<noteq> [] then B else mount_named E arg opts | [spec, node] \<Rightarrow> C spec node | _ \<Rightarrow> D)
      (\<lambda>r. stop (g r) :: ('a mount_state_scheme, int) proc))))" for s1 opts types A B C D g
    unfolding andthen_def
  proof (rule checked_bind [OF user.starting(3)], rule checked_bind [OF user.starting(4)])
    fix u :: unit and s2 and v :: unit and s3
    assume "check_ids E opts types args s1 = (Ret u, s2)" and "advance True True (\<lambda>c. \<not> is_privileged c) s2 s3"
    with check_ids_passed [OF assms, of opts types args s1 s2] have "mount_suid s3 \<noteq> 0" "types = []" "opts = None" "length args = 1"
      by (auto dest: suid_kept)
    then show "checked args s3 (bind (case args of [] \<Rightarrow> A | [arg] \<Rightarrow> if types \<noteq> [] then B else mount_named E arg opts
        | [spec, node] \<Rightarrow> C spec node | _ \<Rightarrow> D) (\<lambda>r. stop (g r) :: ('a mount_state_scheme, int) proc))"
      by (cases args) (auto intro: checked_stop mount_named_checked)
  qed
  have "checked args s (main_but_defunct E optv args)"
    unfolding main_but_defunct_def andthen_def [of "take_std_fds _ _"] prod.case_eq_if
    by (intro checked_bind user.starting(1,2) tame_basic checked_if)
      (rule rest | (rule checked_modest, intro tame_intro user.starting user.recording))+
  moreover obtain r s' where run: "main_but_defunct E optv args s = (r, s')" by fastforce
  ultimately have "advance True True (\<lambda>c. \<not> is_privileged c) s s' \<or> granted args s'" unfolding checked_def by blast
  then show ?thesis by (auto simp: run advance_def granted_def list_all_iff)
qed

end
