(* ===== verification/MountChains.thy ===== *)
theory MountChains
  imports MountAll "HOL-Library.Sublist" "HOL-Library.Multiset"
begin

text \<open>
  How \<open>mount_all\<close> arranges the file systems of \<^verbatim>\<open>/etc/fstab\<close>: those of one disk or one NFS host form one
  chain, in the order of the table, and all others are chains of their own.
\<close>

section \<open>A specification of the chains\<close>

text \<open>\<open>gms\<close> is the list of the selected entries with their groups, in the order of the table.\<close>

definition tagged :: "child \<Rightarrow> (string option \<times> mntentchn) list" where
  "tagged c = map (Pair (fst c)) (snd c)"

definition chain_of :: "(string option \<times> mntentchn) list \<Rightarrow> child \<Rightarrow> bool" where
  "chain_of gms c \<longleftrightarrow>
     (if fst c = None then length (snd c) = 1 else snd c = map snd (filter (\<lambda>x. fst x = fst c) gms))"

definition chained :: "(string option \<times> mntentchn) list \<Rightarrow> child list \<Rightarrow> bool" where
  "chained gms cs \<longleftrightarrow> distinct (filter (\<lambda>g. g \<noteq> None) (map fst cs)) \<and>
     mset (concat (map tagged cs)) = mset gms \<and> list_all (chain_of gms) cs"

section \<open>Adding an entry\<close>

text \<open>The result of \<open>add_child\<close> without its allocations.\<close>

definition grown :: "string option \<Rightarrow> mntentchn \<Rightarrow> child list \<Rightarrow> child list" where
  "grown g mc cs = (case (case g of None \<Rightarrow> None | Some h \<Rightarrow> add_to_group h mc cs) of Some cs' \<Rightarrow> cs' | None \<Rightarrow> cs @ [(g, [mc])])"

lemma add_child_grown: "yields (\<lambda>cs'. cs' = grown g mc cs) (add_child E g mc cs)"
  unfolding add_child_def grown_def by (cases "case g of None \<Rightarrow> None | Some h \<Rightarrow> add_to_group h mc cs") (auto intro!: yields_intro)

lemma add_to_group_None: "add_to_group g mc cs = None \<longleftrightarrow> Some g \<notin> fst ` set cs"
  by (induction g mc cs rule: add_to_group.induct) auto

lemma add_to_group_Some:
  "add_to_group g mc cs = Some cs' \<Longrightarrow>
     \<exists>as ms bs. cs = as @ (Some g, ms) # bs \<and> Some g \<notin> fst ` set as \<and> cs' = as @ (Some g, ms @ [mc]) # bs"
proof (induction g mc cs arbitrary: cs' rule: add_to_group.induct)
  case (2 g mc h mcs cs)
  show ?case
  proof (cases "h = Some g")
    case True
    with 2(2) show ?thesis by (intro exI [of _ "[]"] exI [of _ mcs] exI [of _ cs]) auto
  next
    case False
    with 2(2) obtain cs1 where 1: "add_to_group g mc cs = Some cs1" "cs' = (h, mcs) # cs1" by auto
    then obtain as ms bs where "cs = as @ (Some g, ms) # bs" "Some g \<notin> fst ` set as" "cs1 = as @ (Some g, ms @ [mc]) # bs"
      using 2(1) [OF False 1(1)] by blast
    with False 1 show ?thesis by (intro exI [of _ "(h, mcs) # as"]) auto
  qed
qed simp

lemma chain_of_other: "fst c = None \<or> fst c \<noteq> g \<Longrightarrow> chain_of (gms @ [(g, mc)]) c = chain_of gms c"
  by (auto simp: chain_of_def)

lemma grown_old:
  assumes "chained gms cs" and "add_to_group g mc cs = Some cs'"
  shows "chained (gms @ [(Some g, mc)]) cs'"
proof -
  obtain as ms bs where eq: "cs = as @ (Some g, ms) # bs" "cs' = as @ (Some g, ms @ [mc]) # bs"
    using add_to_group_Some [OF assms(2)] by blast
  have d: "distinct (filter (\<lambda>g. g \<noteq> None) (map fst cs))" using assms(1) by (simp add: chained_def)
  then have "Some g \<notin> fst ` set (as @ bs)" by (simp add: eq image_Un)
  then have "list_all (\<lambda>c. fst c \<noteq> Some g) (as @ bs)" unfolding list_all_iff by (metis image_eqI)
  then have "list_all (chain_of (gms @ [(Some g, mc)])) (as @ bs)"
    using assms(1) by (simp add: chained_def eq list_all_iff chain_of_other)
  moreover have "chain_of (gms @ [(Some g, mc)]) (Some g, ms @ [mc])"
    using assms(1) by (simp add: chained_def eq chain_of_def)
  ultimately show ?thesis
    using d assms(1) by (simp add: chained_def eq tagged_def)
qed

lemma grown_new:
  assumes "chained gms cs" and "g = None \<or> g \<notin> fst ` set cs"
  shows "chained (gms @ [(g, mc)]) (cs @ [(g, [mc])])"
proof -
  have "fst c = None \<or> fst c \<noteq> g" if "c \<in> set cs" for c using assms(2) that by auto
  then have "list_all (chain_of (gms @ [(g, mc)])) cs"
    using assms(1) by (simp add: chained_def list_all_iff chain_of_other)
  moreover have "chain_of (gms @ [(g, mc)]) (g, [mc])"
  proof (cases "g = None")
    case False
    have "set gms = set (concat (map tagged cs))" using assms(1) by (metis chained_def mset_eq_setD)
    with False assms(2) have "filter (\<lambda>x. fst x = g) gms = []" by (force simp: filter_empty_conv tagged_def)
    then show ?thesis by (simp add: chain_of_def)
  qed (simp add: chain_of_def)
  ultimately show ?thesis using assms by (auto simp: chained_def tagged_def)
qed

lemma grown_chained: "chained gms cs \<Longrightarrow> chained (gms @ [(g, mc)]) (grown g mc cs)"
  unfolding grown_def
  by (auto simp: add_to_group_None intro: grown_old grown_new split: option.splits)

section \<open>The chains of the table\<close>

lemma select_entry_grown: "yields (\<lambda>cs'. cs' = cs \<or> (\<exists>g. cs' = grown g mc cs)) (select_entry E types mc cs)"
proof -
  have "yields (\<lambda>cs'. cs' = cs \<or> (\<exists>g. cs' = grown g mc cs)) (add_child E g mc cs)" for g
    by (rule yields_mono [OF add_child_grown]) auto
  then show ?thesis unfolding select_entry_def by (auto intro!: yields_intro)
qed

lemma build_chains_chained:
  assumes "chained gms cs"
  shows "yields (\<lambda>cs'. \<exists>sel. subseq (map snd sel) mcs \<and> chained (gms @ sel) cs')
      (build_chains E types mcs cs :: ('s mount_state_scheme, child list) proc)"
  using assms
proof (induction mcs arbitrary: gms cs)
  case Nil
  then show ?case unfolding build_chains.simps by (intro yields_ret exI [of _ "[]"]) simp
next
  case (Cons mc mcs)
  show ?case
  proof (simp, rule yields_bind_strong [OF select_entry_grown])
    fix cs1
    assume "cs1 = cs \<or> (\<exists>g. cs1 = grown g mc cs)"
    then show "yields (\<lambda>cs'. \<exists>sel. subseq (map snd sel) (mc # mcs) \<and> chained (gms @ sel) cs')
      (build_chains E types mcs cs1 :: ('s mount_state_scheme, child list) proc)"
    proof (elim disjE exE)
      assume eq: "cs1 = cs"
      show ?thesis unfolding eq by (rule yields_mono [OF Cons.IH [OF Cons.prems]]) auto
    next
      fix g
      assume eq: "cs1 = grown g mc cs"
      show ?thesis
      proof (rule yields_mono)
        show "yields (\<lambda>cs'. \<exists>sel. subseq (map snd sel) mcs \<and> chained ((gms @ [(g, mc)]) @ sel) cs')
          (build_chains E types mcs cs1 :: ('s mount_state_scheme, child list) proc)"
          unfolding eq by (rule Cons.IH [OF grown_chained [OF Cons.prems]])
      qed (auto intro: exI [of _ "(g, mc) # _"])
    qed
  qed
qed


end
