(* ===== verification/UmountProgram.thy ===== *)
theory UmountProgram
  imports MountPolicy
begin

text \<open>
  The main program of umount, the rest of \<^verbatim>\<open>src/umount.c\<close>. The options that \<open>getopt_long\<close> returns are an input, as
  a list of option characters with their arguments; \<open>umount_suid\<close> is passed as an argument.
\<close>

section \<open>Options\<close>

definition umount_usage_string :: string where
  "umount_usage_string =
     ''usage: umount [-hV]'' @ [CHR 0x0A] @
     ''       umount -a [-r] [-n] [-v] [-t vfstypes]'' @ [CHR 0x0A] @
     ''       umount [-r] [-n] [-v] special | node...'' @ [CHR 0x0A]"

definition umount_usage :: "env \<Rightarrow> bool \<Rightarrow> int \<Rightarrow> ('s mnt_state_scheme, 'a) proc" where
  "umount_usage E to_stdout n =
     andthen ((if to_stdout then printf_out else fprintf_err) E ''%s'' [AStr umount_usage_string])
     (stop n)"

text \<open>The number of \<open>-a\<close> options and the list of \<open>-t\<close> are local variables.\<close>

definition umount_option ::
  "env \<Rightarrow> char \<Rightarrow> string \<Rightarrow> int \<times> string option list \<Rightarrow> ('s mnt_state_scheme, int \<times> string option list) proc" where
  "umount_option E c optarg v =
     (if c = CHR ''a'' then ret (fst v + 1, snd v)
      else if c = CHR ''f'' then die E 2 ''umount: forced umount not supported yet'' []
      else if c = CHR ''h'' then umount_usage E True 0
      else if c = CHR ''n'' then andthen (modify (umount_nomtab_update (\<lambda>n. n + 1))) (ret v)
      else if c = CHR ''r'' then andthen (modify (remount_update (\<lambda>n. n + 1))) (ret v)
      else if c = CHR ''v'' then andthen (modify (umount_verbose_update (\<lambda>n. n + 1))) (ret v)
      else if c = CHR ''V'' then andthen (printf_out E ''umount: %s'' [AStr version]) (stop 0)
      else if c = CHR ''t'' then bind (parse_list E (Some optarg)) (\<lambda>types. ret (fst v, types))
      else if c = NUL then ret v
      else umount_usage E False 1)"

fun umount_options ::
  "env \<Rightarrow> (char \<times> string) list \<Rightarrow> int \<times> string option list \<Rightarrow> ('s mnt_state_scheme, int \<times> string option list) proc" where
  "umount_options E [] v = ret v"
| "umount_options E ((c, optarg) # cs) v = bind (umount_option E c optarg v) (umount_options E cs)"

text \<open>Whether the program works for a user who is not root.\<close>

definition umount_ids :: "env \<Rightarrow> int \<Rightarrow> string option list \<Rightarrow> ('s mnt_state_scheme, bool) proc" where
  "umount_ids E all types =
     bind (psys E Getuid) (\<lambda>u.
     bind (psys E Geteuid) (\<lambda>e.
     if rv u \<noteq> rv e then
       bind (gets umount_nomtab) (\<lambda>nomtab.
       andthen (whenp (all \<noteq> 0 \<or> types \<noteq> [] \<or> nomtab \<noteq> 0) (die E 2 ''umount: only root can do that'' []))
       (ret True))
     else ret False))"

section \<open>One file system\<close>

text \<open>A name of mtab agrees with a name of fstab when it is the same or its canonical form.\<close>

definition agrees :: "env \<Rightarrow> string \<Rightarrow> string \<Rightarrow> ('s mnt_state_scheme, bool) proc" where
  "agrees E a b = (if a = b then ret True else bind (canonicalize E (Some b)) (\<lambda>c. ret (c = Some a)))"

text \<open>\<open>parse_list\<close> cuts the options of the entry in the table after their first token.\<close>

fun cut_options :: "(mntentchn \<Rightarrow> bool) \<Rightarrow> mntentchn list \<Rightarrow> mntentchn list" where
  "cut_options P [] = []"
| "cut_options P (mc # mcs) =
     (if P mc then mc\<lparr>mc_opts := strtok_rest (mc_opts mc)\<rparr> # mcs else mc # cut_options P mcs)"

definition check_fstab_entry ::
  "env \<Rightarrow> mntentchn \<Rightarrow> mntentchn \<Rightarrow> string \<Rightarrow> (mntentchn \<Rightarrow> bool) \<Rightarrow> ('s mnt_state_scheme, unit) proc" where
  "check_fstab_entry E mc fs file P =
     bind (agrees E (mc_fsname mc) (mc_fsname fs)) (\<lambda>a.
     bind (if a then agrees E (mc_dir mc) (mc_dir fs) else ret False) (\<lambda>b.
     if \<not> b then die E 2 ''umount: %s mount disagrees with the fstab'' [AStr file]
     else
       bind (parse_list E (Some (mc_opts fs))) (\<lambda>opts.
       andthen (modify (fstab_update (map_option (cut_options P))))
       (if None \<in> set opts then fault
        else whenp (Some ''user'' \<notin> set opts)
          (die E 2 ''umount: only root can unmount %s from %s'' [AStr (mc_fsname fs), AStr (mc_dir fs)])))))"

text \<open>What an ordinary user may unmount: a file system of mtab whose entry of fstab agrees and has the option
  \<open>user\<close>.\<close>

definition check_unmount :: "env \<Rightarrow> string \<Rightarrow> mntentchn option \<Rightarrow> ('s mnt_state_scheme, unit) proc" where
  "check_unmount E file m =
     (case m of
        None \<Rightarrow> die E 2 ''umount: %s is not mounted (according to mtab)'' [AStr file]
      | Some mc \<Rightarrow>
          bind (getfsspec E file) (\<lambda>f1.
          case f1 of
            Some fs \<Rightarrow> check_fstab_entry E mc fs file (\<lambda>x. mc_fsname x = file)
          | None \<Rightarrow>
              bind (getfsfile E file) (\<lambda>f2.
              case f2 of
                Some fs \<Rightarrow> check_fstab_entry E mc fs file (\<lambda>x. mc_dir x = file)
              | None \<Rightarrow> die E 2 ''umount: %s is not in the fstab (and you are not root)'' [AStr file])))"

definition umount_found :: "env \<Rightarrow> bool \<Rightarrow> string \<Rightarrow> string \<Rightarrow> mntentchn option \<Rightarrow> ('s mnt_state_scheme, int) proc" where
  "umount_found E suid arg file m =
     andthen (whenp suid (check_unmount E file m))
     (case m of
        None \<Rightarrow> umount_one E arg arg arg arg
      | Some mc \<Rightarrow>
          bind (xstrdup E (Some (mc_fsname mc))) (\<lambda>_.
          bind (xstrdup E (Some (mc_dir mc))) (\<lambda>_.
          bind (xstrdup E (Some (mc_type mc))) (\<lambda>_.
          bind (xstrdup E (Some (mc_opts mc))) (\<lambda>_.
          umount_one E (mc_fsname mc) (mc_dir mc) (mc_type mc) (mc_opts mc))))))"

definition umount_named :: "env \<Rightarrow> bool \<Rightarrow> string \<Rightarrow> ('s mnt_state_scheme, int) proc" where
  "umount_named E suid arg =
     bind (canonicalize E (Some arg)) (\<lambda>name.
     let file = str_or_empty name in
     bind (gets umount_verbose) (\<lambda>v.
     andthen (whenp (v > 1) (printf_out E ''Trying to umount %s'' [AStr file]))
     (bind (getmntfile E file) (\<lambda>m.
      andthen (whenp (m = None \<and> v \<noteq> 0) (printf_out E ''Could not find %s in mtab'' [AStr file]))
      (umount_found E suid arg file m)))))"

section \<open>The main program\<close>

text \<open>The result is the one of the last argument.\<close>

fun umount_args :: "env \<Rightarrow> bool \<Rightarrow> string list \<Rightarrow> int \<Rightarrow> ('s mnt_state_scheme, int) proc" where
  "umount_args E suid [] result = ret result"
| "umount_args E suid (arg # args) result = bind (umount_named E suid arg) (umount_args E suid args)"

text \<open>\<open>umount_all\<close> on a list that may hold the null pointer: the first entry that is not swap space ends the
  program.\<close>

definition umount_types :: "env \<Rightarrow> string option list \<Rightarrow> ('s mnt_state_scheme, int) proc" where
  "umount_types E types =
     (if None \<in> set types then
        bind (mtab_head E) (\<lambda>head.
        case head of
          None \<Rightarrow> die E 2 ''umount: cannot find list of filesystems to unmount'' []
        | Some mcs \<Rightarrow>
            if list_all (\<lambda>mc. mc_type mc = ''swap'') mcs then andthen (do_sys E (SysCall Sync)) (ret 0) else fault)
      else umount_all E (map str_or_empty types))"

definition this_was_main_int_mount_c ::
  "env \<Rightarrow> (char \<times> string) list \<Rightarrow> string list \<Rightarrow> ('s mnt_state_scheme, int) proc" where
  "this_was_main_int_mount_c E optv args =
     bind (umount_options E optv (0, [])) (\<lambda>(all, types).
     bind (umount_ids E all types) (\<lambda>suid.
     bind
       (if all \<noteq> 0 then
          bind (if types = [] then bind (xstrdup E (Some ''noproc'')) (parse_list E) else ret types) (umount_types E)
        else if args = [] then umount_usage E False 2
        else umount_args E suid args 0) (\<lambda>result.
     stop result)))"

section \<open>Ordinary users\<close>

declare strtok_all.simps [simp del]

abbreviation meek :: "('s mnt_state_scheme, 'a) proc \<Rightarrow> bool" where
  "meek \<equiv> emits (\<lambda>c. \<not> is_privileged c)"

lemma meek_basics [emits_intro]:
  "meek (printf_out E f args)" "meek (xmalloc E n)" "meek (xstrdup E v)" "meek (canonicalize E w)"
proof -
  show "meek (printf_out E f args)" unfolding printf_out_def by (intro emits_intro) simp
  show x: "meek (xmalloc E n)" for n unfolding xmalloc_def by (intro emits_intro; simp add: log_call_ordinary)
  show d: "meek (xstrdup E v)" for v unfolding xstrdup_def by (intro emits_intro x; simp add: log_call_ordinary)
  show "meek (canonicalize E w)" unfolding canonicalize_def by (intro emits_intro d x) simp_all
qed

lemma meek_refusing [emits_intro]: "meek (die E code f args)" "meek (parse_list E v)" "meek (agrees E a b)"
proof -
  have "meek (error_msg E f args)"
    unfolding error_msg_def xstrconcat2_def xstrconcat_def by (intro emits_intro) simp
  then show "meek (die E code f args)"
    unfolding die_def unlock_mtab_def fprintf_err_def by (intro emits_intro) simp_all
  have "meek (bind (xmalloc E 16) (\<lambda>_. ret ()))" by (intro emits_intro)
  then show "meek (parse_list E v)" unfolding parse_list_def Let_def by (intro emits_intro) (simp add: list_all_iff)
  show "meek (agrees E a b)" unfolding agrees_def by (intro emits_intro)
qed

text \<open>The tables that have been read.\<close>

definition tables :: "'s mnt_state_scheme \<Rightarrow> bool \<times> mntentchn list option \<times> bool \<times> mntentchn list option" where
  "tables s = (got_mtab s, mounttable s, got_fstab s, fstab s)"

lemma tables_keep: "keeps tables (printf_out E f args)" "keeps tables (canonicalize E v)"
proof -
  show "keeps tables (printf_out E f args)" unfolding printf_out_def by (intro keeps_intro) (simp add: tables_def)
  have x: "keeps tables (xmalloc E n)" for n
    unfolding xmalloc_def by (intro keeps_intro fatal_error_keeps; simp add: tables_def log_frame_def)
  have d: "keeps tables (xstrdup E w)" for w
    unfolding xstrdup_def by (intro keeps_intro fatal_error_keeps x; simp add: tables_def log_frame_def)
  show "keeps tables (canonicalize E v)" unfolding canonicalize_def by (intro keeps_intro x d) (simp_all add: tables_def)
qed

text \<open>From \<open>s\<close> on only unprivileged calls are made, unless \<open>G\<close> holds.\<close>

definition lawful :: "bool \<Rightarrow> 's mnt_state_scheme \<Rightarrow> ('s mnt_state_scheme, 'a) proc \<Rightarrow> bool" where
  "lawful G s m \<longleftrightarrow> G \<or> (\<exists>es. trace (snd (m s)) = trace s @ es \<and> list_all (\<lambda>e. \<not> is_privileged (fst e)) es)"

lemma lawful_meek: "meek m \<Longrightarrow> lawful G s m"
proof -
  assume m: "meek m"
  obtain r s' where run: "m s = (r, s')" by fastforce
  with m obtain es where "trace s' = trace s @ es" "\<forall>e \<in> set es. \<not> is_privileged (fst e)" by (rule emitsE)
  with run show ?thesis by (auto simp: lawful_def list_all_iff)
qed

lemma lawful_bind:
  assumes "lawful False s m" and "\<And>x s1. m s = (Ret x, s1) \<Longrightarrow> lawful G s1 (f x)"
  shows "lawful G s (bind m f)"
proof -
  obtain r1 s1 where 1: "m s = (r1, s1)" by fastforce
  with assms(1) obtain es where es: "trace s1 = trace s @ es" "list_all (\<lambda>e. \<not> is_privileged (fst e)) es"
    by (auto simp: lawful_def)
  show ?thesis
  proof (cases r1)
    case (Ret x)
    with 1 have "bind m f s = f x s1" by (simp add: bind_apply_Ret)
    moreover have "lawful G s1 (f x)" using assms(2) 1 Ret by blast
    ultimately show ?thesis using es by (auto simp: lawful_def)
  qed (use 1 es in \<open>auto simp: lawful_def bind_def\<close>)
qed

lemma die_never_returns: "die E code f args s \<noteq> (Ret x, s')"
  unfolding die_def by (auto simp: andthen_def elim!: bind_RetE)

lemma meek_check [emits_intro]: "meek (check_fstab_entry E mc fs file P)"
  unfolding check_fstab_entry_def by (intro emits_intro) simp

lemma check_passed:
  assumes "check_fstab_entry E mc fs file P (s :: 's mnt_state_scheme) = (Ret u, s')"
  shows "''user'' \<in> set (strtok_all (CHR '','') (mc_opts fs))"
proof -
  obtain opts and s1 s2 :: "'s mnt_state_scheme" where opts: "parse_list E (Some (mc_opts fs)) s1 = (Ret opts, s2)" and "Some ''user'' \<in> set opts"
    using assms unfolding check_fstab_entry_def
    by (auto simp: andthen_def whenp_def die_never_returns elim!: bind_RetE split: if_splits)
  moreover have "opts = (if strtok_all (CHR '','') (mc_opts fs) = [] then [None] else rev (map Some (strtok_all (CHR '','') (mc_opts fs))))"
    using opts unfolding parse_list_def by (auto simp: Let_def andthen_def elim!: bind_RetE)
  ultimately show ?thesis by (auto split: if_splits)
qed

lemma read_lookups:
  "got_mtab s \<Longrightarrow> getmntfile E name s = (Ret (find (\<lambda>mc. mc_dir mc = name \<or> mc_fsname mc = name) (chain (mounttable s))), s)"
  "got_fstab t \<Longrightarrow> getfsspec E name t = (Ret (find (\<lambda>mc. mc_fsname mc = name) (chain (fstab t))), t)"
  "got_fstab u \<Longrightarrow> getfsfile E name u = (Ret (find (\<lambda>mc. mc_dir mc = name) (chain (fstab u))), u)"
  by (simp_all add: getmntfile_def getfsspec_def getfsfile_def mtab_head_def fstab_head_def bind_def andthen_def
    gets_def whenp_def ret_def)

definition user_entry :: "string \<Rightarrow> mntentchn list \<Rightarrow> bool" where
  "user_entry name mcs \<longleftrightarrow> list_ex (\<lambda>fs. (mc_fsname fs = name \<or> mc_dir fs = name) \<and>
     ''user'' \<in> set (strtok_all (CHR '','') (mc_opts fs))) mcs"

lemma found_user_entry:
  "find P mcs = Some fs \<Longrightarrow> (\<And>x. P x \<Longrightarrow> mc_fsname x = name \<or> mc_dir x = name) \<Longrightarrow>
     ''user'' \<in> set (strtok_all (CHR '','') (mc_opts fs)) \<Longrightarrow> user_entry name mcs"
proof -
  assume found: "find P mcs = Some fs" and P: "\<And>x. P x \<Longrightarrow> mc_fsname x = name \<or> mc_dir x = name"
    and user: "''user'' \<in> set (strtok_all (CHR '','') (mc_opts fs))"
  from found have "fs \<in> set mcs" "P fs" by (auto simp: find_Some_iff)
  with P user show ?thesis unfolding user_entry_def list_ex_iff by blast
qed

lemma check_unmount_lawful:
  assumes "got_fstab s"
  shows "lawful G s (check_unmount E file m)"
    and "check_unmount E file m s = (Ret u, s') \<Longrightarrow> m \<noteq> None \<and> user_entry file (chain (fstab s))"
proof -
  have step: "lawful G s (bind (getfsspec E file) f) \<longleftrightarrow> lawful G s (f (find (\<lambda>mc. mc_fsname mc = file) (chain (fstab s))))"
    "lawful G s (bind (getfsfile E file) g) \<longleftrightarrow> lawful G s (g (find (\<lambda>mc. mc_dir mc = file) (chain (fstab s))))" for f g
    by (simp_all add: lawful_def bind_def read_lookups(2,3) [OF assms])
  show "lawful G s (check_unmount E file m)"
    unfolding check_unmount_def
    by (cases m) (auto simp: step intro: lawful_meek meek_refusing meek_check split: option.split)
  show "check_unmount E file m s = (Ret u, s') \<Longrightarrow> m \<noteq> None \<and> user_entry file (chain (fstab s))"
    unfolding check_unmount_def
    by (auto simp: bind_def read_lookups(2,3) [OF assms] die_never_returns split: option.splits
      dest!: check_passed intro: found_user_entry)
qed

lemma found_lawful:
  assumes "got_fstab s" and "m \<noteq> None \<Longrightarrow> user_entry name (chain (fstab s)) \<Longrightarrow> G"
  shows "lawful G s (umount_found E True arg name m)"
  unfolding umount_found_def andthen_def whenp_def if_True
  by (rule lawful_bind [OF check_unmount_lawful(1) [OF assms(1)]])
    (use check_unmount_lawful(2) [OF assms(1)] assms(2) in \<open>auto simp: lawful_def\<close>)

lemma lawful_message:
  assumes "tables s = t" and "\<And>s1. tables s1 = t \<Longrightarrow> lawful G s1 k"
  shows "lawful G s (andthen (whenp b (printf_out E f args)) k)"
  unfolding andthen_def
proof (rule lawful_bind [OF lawful_meek])
  show "meek (whenp b (printf_out E f args))" by (intro emits_intro)
  show "lawful G s1 k" if "whenp b (printf_out E f args) s = (Ret x, s1)" for x s1
    using assms keepsD [OF keeps_whenp [OF tables_keep(1)] that] by simp
qed

lemma lawful_gets: "lawful G s (f (g s)) \<Longrightarrow> lawful G s (bind (gets g) f)"
  by (simp add: lawful_def)

lemma lawful_lookup:
  assumes "got_mtab s" and "lawful G s (f (find (\<lambda>mc. mc_dir mc = name \<or> mc_fsname mc = name) (chain (mounttable s))))"
  shows "lawful G s (bind (getmntfile E name) f)"
  using assms by (simp add: lawful_def bind_def read_lookups(1))


section \<open>Naming a file system twice\<close>

definition fstab_entry :: "string \<Rightarrow> mntentchn list \<Rightarrow> mntentchn option" where
  "fstab_entry name mcs =
     (case find (\<lambda>x. mc_fsname x = name) mcs of None \<Rightarrow> find (\<lambda>x. mc_dir x = name) mcs | Some fs \<Rightarrow> Some fs)"

lemma strtok_all_rest: "strtok_all (CHR '','') (strtok_rest t) = take 1 (strtok_all (CHR '','') t)"
proof -
  define u where "u = dropWhile (\<lambda>c. c = CHR '','') t"
  define w where "w = takeWhile (\<lambda>c. c \<noteq> CHR '','') u"
  have "dropWhile (\<lambda>c. c = CHR '','') (strtok_rest t) = dropWhile (\<lambda>c. c = CHR '','') w"
    unfolding strtok_rest_def u_def w_def by (rule dropWhile_append2) (auto dest: set_takeWhileD)
  also have "\<dots> = w"
  proof (cases u)
    case (Cons c cs)
    then have "c \<noteq> CHR '',''" using hd_dropWhile [of "\<lambda>c. c = CHR '',''" t] by (simp add: u_def)
    with Cons show ?thesis by (simp add: w_def)
  qed (simp add: w_def)
  finally have rest: "dropWhile (\<lambda>c. c = CHR '','') (strtok_rest t) = w" .
  have w: "takeWhile (\<lambda>c. c \<noteq> CHR '','') w = w" "dropWhile (\<lambda>c. c \<noteq> CHR '','') w = []"
    unfolding w_def by (auto simp: takeWhile_idem dropWhile_eq_Nil_conv dest: set_takeWhileD)
  have "w = [] \<longleftrightarrow> u = []"
  proof (cases u)
    case (Cons c cs)
    then have "c \<noteq> CHR '',''" using hd_dropWhile [of "\<lambda>c. c = CHR '',''" t] by (simp add: u_def)
    with Cons show ?thesis by (simp add: w_def)
  qed (simp add: w_def)
  moreover have "strtok_all (CHR '','') (strtok_rest t) = (if w = [] then [] else [w])"
    using strtok_all.simps [of "CHR '',''" "strtok_rest t"] by (simp only: rest Let_def w strtok_empty)
  moreover have "strtok_all (CHR '','') t =
      (if u = [] then [] else w # strtok_all (CHR '','') (dropWhile (\<lambda>c. c \<noteq> CHR '','') u))"
    using strtok_all.simps [of "CHR '',''" t] by (simp only: u_def [symmetric] Let_def w_def)
  ultimately show ?thesis by simp
qed

lemma find_cut:
  assumes "\<And>x v. P (x\<lparr>mc_opts := v\<rparr>) = P x" and "\<And>x v. R (x\<lparr>mc_opts := v\<rparr>) = R x"
  shows "find P (cut_options P mcs) = map_option (\<lambda>x. x\<lparr>mc_opts := strtok_rest (mc_opts x)\<rparr>) (find P mcs)"
    and "find R (cut_options P mcs) = None \<longleftrightarrow> find R mcs = None"
  by (induction mcs) (auto simp: assms)

lemma fstab_entry_cut:
  assumes "fstab_entry name mcs = Some fs"
    and "P = (if find (\<lambda>x. mc_fsname x = name) mcs = None then (\<lambda>x. mc_dir x = name) else (\<lambda>x. mc_fsname x = name))"
  shows "fstab_entry name (cut_options P mcs) = Some (fs\<lparr>mc_opts := strtok_rest (mc_opts fs)\<rparr>)"
  using assms find_cut [of "\<lambda>x. mc_fsname x = name" "\<lambda>x. mc_fsname x = name" mcs]
    find_cut [of "\<lambda>x. mc_dir x = name" "\<lambda>x. mc_fsname x = name" mcs]
  by (auto simp: fstab_entry_def split: option.splits if_splits)

lemma check_cuts:
  assumes "check_fstab_entry E mc fs name P (s :: 's mnt_state_scheme) = (Ret u, s')"
  shows "got_fstab s' = got_fstab s" and "fstab s' = map_option (cut_options P) (fstab s)"
proof -
  have agree: "keeps tables (agrees E a b)" for a b
    unfolding agrees_def by (intro keeps_intro tables_keep)
  have "keeps tables (bind (xmalloc E 16) (\<lambda>_. ret ()))"
    unfolding xmalloc_def by (intro keeps_intro fatal_error_keeps; simp add: tables_def log_frame_def)
  then have parse: "keeps tables (parse_list E v)" for v
    unfolding parse_list_def Let_def by (intro keeps_intro) (simp add: list_all_iff)
  obtain s1 :: "'s mnt_state_scheme" where "tables s1 = tables s" "s' = s1\<lparr>fstab := map_option (cut_options P) (fstab s1)\<rparr>"
    using assms unfolding check_fstab_entry_def
    by (auto simp: andthen_def whenp_def die_never_returns elim!: bind_RetE split: if_splits
      dest!: keepsD [OF agree] keepsD [OF parse])
  then show "got_fstab s' = got_fstab s" "fstab s' = map_option (cut_options P) (fstab s)"
    by (simp_all add: tables_def)
qed

lemma check_unmount_entry:
  assumes "got_fstab s" and "check_unmount E name (Some mc) s = (Ret u, s')"
  obtains fs P where "fstab_entry name (chain (fstab s)) = Some fs"
    and "P = (if find (\<lambda>x. mc_fsname x = name) (chain (fstab s)) = None then (\<lambda>x. mc_dir x = name) else (\<lambda>x. mc_fsname x = name))"
    and "check_fstab_entry E mc fs name P s = (Ret u, s')"
  using assms(2) that unfolding check_unmount_def fstab_entry_def
  by (auto simp: bind_def read_lookups(2,3) [OF assms(1)] die_never_returns split: option.splits)

text \<open>A user who names a file system twice is refused the second time, unless \<open>user\<close> is the first of its
  options.\<close>

lemma second_unmount_refused:
  assumes "got_fstab s" and "check_unmount E name (Some mc) s = (Ret u, s')"
    and "fstab_entry name (chain (fstab s)) = Some fs" and "hd (strtok_all (CHR '','') (mc_opts fs)) \<noteq> ''user''"
  shows "check_unmount E name m s' \<noteq> (Ret v, s'')"
proof
  assume again: "check_unmount E name m s' = (Ret v, s'')"
  from assms(1,2) obtain P where
    P: "P = (if find (\<lambda>x. mc_fsname x = name) (chain (fstab s)) = None then (\<lambda>x. mc_dir x = name) else (\<lambda>x. mc_fsname x = name))"
    and run: "check_fstab_entry E mc fs name P s = (Ret u, s')"
    by (rule check_unmount_entry) (use assms(3) in auto)
  from check_cuts [OF run] assms(1) have got: "got_fstab s'" and tab: "fstab s' = map_option (cut_options P) (fstab s)" by simp_all
  then have chn: "chain (fstab s') = cut_options P (chain (fstab s))" by (simp add: chain_def split: option.split)
  from again obtain mc' where "m = Some mc'" using check_unmount_lawful(2) [OF got] by blast
  with got again obtain fs' P' where "fstab_entry name (chain (fstab s')) = Some fs'"
    and "check_fstab_entry E mc' fs' name P' s' = (Ret v, s'')" by (metis check_unmount_entry)
  with fstab_entry_cut [OF assms(3) P] have "''user'' \<in> set (strtok_all (CHR '','') (strtok_rest (mc_opts fs)))"
    by (auto simp: chn dest: check_passed)
  then show False
    using assms(4) by (cases "strtok_all (CHR '','') (mc_opts fs)") (simp_all add: strtok_all_rest)
qed

end
