(* ===== verification/MountWitnesses.thy ===== *)
theory MountWitnesses
  imports Witnesses MountSafety MountChains UmountProgram
begin

text \<open>
  Concrete machines for the properties of the mount program and of the mount protocol.
\<close>

section \<open>Messages of the mount protocol\<close>

theorem mount_messages_roundtrip_witness:
  "\<exists>b1 b2 b3 b4. enc xdr_fhstatus \<lparr>fhs_status = 13, fhs_fhandle = replicate FHSIZE NUL\<rparr> = Some b1 \<and>
     dec xdr_fhstatus (b1 @ ''x'') = Some (\<lparr>fhs_status = 13, fhs_fhandle = replicate FHSIZE NUL\<rparr>, ''x'') \<and>
     enc xdr_mountres3 \<lparr>fhs_status3 = 0, mountinfo = \<lparr>fhandle3_of = ''handle'', auth_flavours = [1]\<rparr>\<rparr> = Some b2 \<and>
     dec xdr_mountres3 (b2 @ ''x'') =
       Some (\<lparr>fhs_status3 = 0, mountinfo = \<lparr>fhandle3_of = ''handle'', auth_flavours = [1]\<rparr>\<rparr>, ''x'') \<and>
     enc xdr_mountlist [\<lparr>ml_hostname = ''a'', ml_directory = ''/b''\<rparr>] = Some b3 \<and>
     dec xdr_mountlist (b3 @ ''x'') = Some ([\<lparr>ml_hostname = ''a'', ml_directory = ''/b''\<rparr>], ''x'') \<and>
     enc xdr_exports [\<lparr>ex_dir = ''/b'', ex_groups = [\<lparr>gr_name = ''g''\<rparr>]\<rparr>] = Some b4 \<and>
     dec xdr_exports (b4 @ ''x'') = Some ([\<lparr>ex_dir = ''/b'', ex_groups = [\<lparr>gr_name = ''g''\<rparr>]\<rparr>], ''x'') \<and>
     4 dvd length (b1 @ b2 @ b3 @ b4)"
  by (rule mount_messages_roundtrip)
    (simp_all add: fhstatus_ok_def mountres3_valid_def mountinfo_ok_def mountbody_ok_def exportnode_ok_def path_ok_def
      MNTNAMLEN_def MNTPATHLEN_def FHSIZE3_def INT_MAX_def INT_MIN_def MNT_OK_def)

theorem decoded_values_bounded_witness:
  "\<exists>fh r res r' ms r'' es r'''. dec xdr_fhstatus (replicate 36 NUL) = Some (fh, r) \<and> length (fhs_fhandle fh) = FHSIZE \<and>
     dec xdr_mountres3 (replicate 36 NUL) = Some (res, r') \<and> length (fhandle3_of (mountinfo res)) \<le> FHSIZE3 \<and>
     dec xdr_mountlist (replicate 36 NUL) = Some (ms, r'') \<and> list_all mountbody_ok ms \<and>
     dec xdr_exports (replicate 36 NUL) = Some (es, r''') \<and> list_all exportnode_ok es"
proof -
  have "dec xdr_fhstatus (replicate 36 NUL) \<noteq> None" "dec xdr_mountres3 (replicate 36 NUL) \<noteq> None"
    "dec xdr_mountlist (replicate 36 NUL) \<noteq> None" "dec xdr_exports (replicate 36 NUL) \<noteq> None"
    by code_simp+
  then show ?thesis using decoded_values_bounded [of "replicate 36 NUL"] by auto
qed

text \<open>A server that answers every request for a directory with the same handle.\<close>

definition handle_status :: fhstatus where
  "handle_status = \<lparr>fhs_status = 0, fhs_fhandle = replicate FHSIZE (CHR ''h'')\<rparr>"

definition mount_server :: env where
  "mount_server = machine (\<lambda>c. case c of
     NetCall (Clnt_call clnt procnum bs) \<Rightarrow> nil_reply\<lparr>dat := the (enc xdr_fhstatus handle_status)\<rparr> | _ \<Rightarrow> nil_reply)"

theorem mount_request_answered_witness:
  "\<exists>bs r. enc xdr_dirpath ''/export'' = Some bs \<and> mountproc_mnt_1 mount_server ''/export'' 3 start =
     (Ret (Some handle_status), start\<lparr>trace := trace start @ [(NetCall (Clnt_call 3 MOUNTPROC_MNT bs), r)]\<rparr>)"
proof -
  have "enc xdr_fhstatus handle_status \<noteq> None" by code_simp
  then have "serves mount_server 3 MOUNTPROC_MNT xdr_dirpath (\<lambda>_. handle_status) xdr_fhstatus"
    by (auto simp: serves_def mount_server_def RPC_SUCCESS_def)
  from mount_request_answered [OF this, of "''/export''" start] show ?thesis
    by (simp add: fhstatus_ok_def handle_status_def MNTPATHLEN_def)
qed

section \<open>The mount program\<close>

definition mounter :: mount_state where
  "mounter = \<lparr>trace = [], using_syslog = False, using_terminal = False, progname = [], err_count = 0,
     err_level = LOG_DEBUG, err_buf = [], cfg = initial_config, daemon_pid = 0, saved_fname = None,
     mlocked = False, watchdog_fd = - 1, timeout_used = TIMER_MARGIN, Refresh_using_ioctl = False,
     hb = 0, lastts = 0, nrts = 0, timestamps = None, load_fd = - 1, mem_fd = - 1, temp_fd = - 1,
     templevel1 = 0, templevel2 = 0, templevel3 = 0, process_head = [],
     mount_mount_quiet = 0, mount_verbose = 0, have_mtab_info = False, var_mtab_does_not_exist = False,
     var_mtab_is_a_symlink = False, mtab_writable_ret = - 1, got_mtab = False, mounttable = None,
     got_fstab = False, fstab = None, lock = - 1, old_lockfile = True, umount_nomtab = 0, remount = 0,
     umount_verbose = 0, fake = 0, mount_nomtab = 0, readonly = 0, sloppy = 0, readwrite = 0, all_flag = 0,
     optfork = 0, mount_suid = 0, opt_loopdev = None, opt_vfstype = None, opt_offset = None, opt_encryption = None,
     procfs = 0, proc_lines = [], mountcount = 0, added_ro = False, prev_bg_host = None, nfs_mount_version = 4,
     kernel_version = 1, envp0 = [], argv_area = []\<rparr>"

definition roomy :: "(syscall \<Rightarrow> reply) \<Rightarrow> env" where
  "roomy k = machine (\<lambda>c. case c of ProcCall (Malloc n) \<Rightarrow> nil_reply\<lparr>rv := 1\<rparr> | _ \<Rightarrow> k c)"

lemma roomy_ok: "memory_ok (roomy k)"
  by (simp add: memory_ok_def roomy_def)


lemma ro_uid_parse:
  "fst (parse_opts (roomy (\<lambda>_. nil_reply)) (Some ''ro,uid=5'') mounter) = Ret (MS_RDONLY, Some ''uid=5'')"
  by code_simp


section \<open>Loop devices\<close>

text \<open>A machine that opens every file, with the given reply for the status of a loop device.\<close>

definition loop_machine :: "reply \<Rightarrow> env" where
  "loop_machine st = roomy (\<lambda>c. case c of
     FileCall (Open p m) \<Rightarrow> nil_reply\<lparr>rv := (if p = ''/image'' then 4 else 5)\<rparr>
   | FileCall (Stat p) \<Rightarrow> nil_reply\<lparr>v1 := 24576\<rparr>
   | SysCall (Loop_get_status fd) \<Rightarrow> st
   | _ \<Rightarrow> nil_reply)"


section \<open>NFS\<close>

theorem foreground_mount_ends_witness:
  "fst (nfsmount calm ''host:/dir'' ''/mnt'' MS_RDONLY (Some ''bg,retry=5'') False mounter) \<noteq> Unfinished \<and>
   length (calls is_request (snd (nfsmount calm ''host:/dir'' ''/mnt'' MS_RDONLY (Some ''bg,retry=5'') False mounter)))
     \<le> length (calls is_request mounter) + 1"
  by (rule foreground_mount_ends) (simp_all add: calm_def)

theorem unsupported_version_not_refused_witness:
  "\<exists>extra s'. nfsmount (roomy (\<lambda>_. nil_reply\<lparr>rv := 1\<rparr>)) (''10.0.0.1'' @ '':'' @ ''/dir'') ''/mnt'' 0
       (Some (''nfsvers='' @ show_int 4)) False mounter = (Ret (0, extra, Text_arg ''nfsvers''), s') \<and>
     calls is_request s' = calls is_request mounter"
  by (rule unsupported_version_not_refused [OF roomy_ok])
    (simp_all add: mounter_def INT_MAX_def roomy_def)

section \<open>Ordinary users\<close>

text \<open>The machine runs the program for user 1000 with the rights of root, and fstab lists one file system for users.\<close>

definition user_machine :: env where
  "user_machine = roomy (\<lambda>c. case c of ProcCall Getuid \<Rightarrow> nil_reply\<lparr>rv := 1000\<rparr> | _ \<Rightarrow> nil_reply)"

definition cdrom :: mntentchn where
  "cdrom = \<lparr>mc_fsname = ''/dev/cdrom'', mc_dir = ''/cdrom'', mc_type = ''iso9660'', mc_opts = ''ro,user''\<rparr>"

definition user_session :: mount_state where
  "user_session = mounter\<lparr>got_mtab := True, mounttable := Some [cdrom], got_fstab := True, fstab := Some [cdrom]\<rparr>"

theorem ordinary_user_mounts_witness:
  "(1000 :: int) \<noteq> 0 \<and>
   ((\<exists>es. trace (snd (main_but_defunct user_machine [(CHR ''v'', [])] [''/cdrom''] user_session)) = trace user_session @ es \<and>
       list_all (\<lambda>e. \<not> is_privileged (fst e)) es) \<or>
    (length [''/cdrom''] = 1 \<and>
     (\<exists>mc. known_entry mc (snd (main_but_defunct user_machine [(CHR ''v'', [])] [''/cdrom''] user_session)) \<and>
        ''user'' \<in> set (strtok_all (CHR '','') (mc_opts mc)))))"
  using ordinary_user_mounts [of user_machine 1000 0 "[(CHR ''v'', [])]" "[''/cdrom'']" user_session]
  by (simp add: user_machine_def roomy_def del: strtok_all.simps)


end
